(* ===== verification/Prelude.thy ===== *)
theory Prelude
  imports Main
begin

text \<open>
  Shared vocabulary of the 2048 development: the types that name the game's data
  (a cell value, a row, the grid of \<open>src/script.js\<close>), the JavaScript list operation
  \<open>Array.prototype.splice(i, 1)\<close> used by the merge loops, a square-grid transpose used
  to state the column moves, the power-of-two test of the tile invariant, and the
  generic list lemmas the component theories share.
\<close>

section \<open>Types of the model\<close>

text \<open>
  A cell of \<open>this.grid\<close> is a JavaScript number; the code stores \<open>0\<close> for an empty
  cell and \<open>2\<close>, \<open>4\<close>, \<open>8\<close>, \<dots> for tiles, and only ever doubles a tile, so the values are
  natural numbers (powers of two far below \<open>2^53\<close>, where doubles are exact).
\<close>

type_synonym cell = nat
type_synonym row = "cell list"
type_synonym grid = "row list"

named_theorems grid_simps "facts about the shape of grids used by the move proofs"

section \<open>JavaScript list operations\<close>

text \<open>
  \<open>row.splice(i, 1)\<close> removes the element at index \<open>i\<close>; at an index past the end it
  removes nothing.
\<close>

definition splice_del :: "nat \<Rightarrow> 'a list \<Rightarrow> 'a list" where
  "splice_del i xs = take i xs @ drop (Suc i) xs"

lemma length_splice_del [simp]:
  "i < length xs \<Longrightarrow> length (splice_del i xs) = length xs - 1"
  by (simp add: splice_del_def)

lemma splice_del_update:
  assumes "Suc i < length xs"
  shows "splice_del (Suc i) (xs[i := v]) = take i xs @ v # drop (Suc (Suc i)) xs"
proof -
  have "take (Suc i) (xs[i := v]) = take i xs @ [v]"
    using assms by (simp add: take_Suc_conv_app_nth)
  then show ?thesis
    using assms by (simp add: splice_del_def)
qed

lemma splice_del_update_prev:
  assumes "0 < j" and "j < length xs"
  shows "splice_del (j - 1) (xs[j := v]) = take (j - 1) xs @ v # drop (Suc j) xs"
proof -
  from assms have "drop j (xs[j := v]) = v # drop (Suc j) xs"
    by (simp add: Cons_nth_drop_Suc [symmetric] drop_update_cancel)
  moreover from assms have "Suc (j - 1) = j" by simp
  ultimately show ?thesis
    using assms by (simp add: splice_del_def)
qed

section \<open>Generic list facts\<close>

lemma drop_nth_pair:
  assumes "Suc j < length xs"
  shows "drop j xs = xs ! j # xs ! Suc j # drop (Suc (Suc j)) xs"
  using assms by (simp add: Cons_nth_drop_Suc)

lemma take_Suc_nth:
  "j < length xs \<Longrightarrow> take (Suc j) xs = take j xs @ [xs ! j]"
  by (simp add: take_Suc_conv_app_nth)

lemma rev_take_Suc_Suc:
  assumes "0 < j" and "j < length xs"
  shows "rev (take (Suc j) xs) = xs ! j # xs ! (j - 1) # rev (take (j - 1) xs)"
proof -
  from assms have "take (Suc j) xs = take (j - 1) xs @ [xs ! (j - 1), xs ! j]"
    by (cases j) (simp_all add: take_Suc_conv_app_nth)
  then show ?thesis by simp
qed

lemma ex_nat_split: "(\<exists>j::nat. P j) \<longleftrightarrow> P 0 \<or> (\<exists>j. P (Suc j))"
  by (metis not0_implies_Suc)

section \<open>Square grids\<close>

text \<open>
  The code's grid is \<open>this.size\<close> rows of \<open>this.size\<close> cells. Shape is a bool-valued
  predicate so that it evaluates on concrete grids.
\<close>

definition grid_ok :: "nat \<Rightarrow> grid \<Rightarrow> bool" where
  "grid_ok n g \<longleftrightarrow> length g = n \<and> list_all (\<lambda>r. length r = n) g"

lemma grid_ok_length [grid_simps]: "grid_ok n g \<Longrightarrow> length g = n"
  by (simp add: grid_ok_def)

lemma grid_ok_row_length [grid_simps]: "grid_ok n g \<Longrightarrow> i < n \<Longrightarrow> length (g ! i) = n"
  by (simp add: grid_ok_def list_all_length)

lemma grid_okI:
  "length g = n \<Longrightarrow> (\<And>i. i < n \<Longrightarrow> length (g ! i) = n) \<Longrightarrow> grid_ok n g"
  by (simp add: grid_ok_def list_all_length)

lemma grid_ok_eqI:
  assumes "grid_ok n g" "grid_ok n h" "\<And>i j. i < n \<Longrightarrow> j < n \<Longrightarrow> g ! i ! j = h ! i ! j"
  shows "g = h"
proof (rule nth_equalityI)
  show "length g = length h" using assms(1,2) by (simp add: grid_simps)
next
  fix i assume "i < length g"
  with assms show "g ! i = h ! i"
    by (intro nth_equalityI) (simp_all add: grid_simps)
qed

text \<open>Column \<open>j\<close> of a grid and the transpose of a square grid.\<close>

definition column :: "grid \<Rightarrow> nat \<Rightarrow> row" where
  "column g j = map (\<lambda>r. r ! j) g"

definition transpose_sq :: "nat \<Rightarrow> grid \<Rightarrow> grid" where
  "transpose_sq n g = map (column g) [0..<n]"

lemma transpose_sq_nth [grid_simps]:
  "i < n \<Longrightarrow> j < length g \<Longrightarrow> transpose_sq n g ! i ! j = g ! j ! i"
  by (simp add: transpose_sq_def column_def)

lemma length_transpose_sq [simp]: "length (transpose_sq n g) = n"
  by (simp add: transpose_sq_def)

lemma grid_ok_transpose_sq [grid_simps]: "grid_ok n g \<Longrightarrow> grid_ok n (transpose_sq n g)"
  by (rule grid_okI) (simp_all add: transpose_sq_def column_def grid_simps)

lemma transpose_sq_involution [grid_simps]:
  "grid_ok n g \<Longrightarrow> transpose_sq n (transpose_sq n g) = g"
  by (rule grid_ok_eqI [of n]) (simp_all add: grid_simps transpose_sq_nth)

lemma grid_ok_map:
  "grid_ok n g \<Longrightarrow> (\<And>r. length r = n \<Longrightarrow> length (f r) = n) \<Longrightarrow> grid_ok n (map f g)"
  by (rule grid_okI) (simp_all add: grid_simps)

section \<open>Powers of two\<close>

text \<open>An executable power-of-two test (no quantifier over the exponent).\<close>

fun is_pow2 :: "nat \<Rightarrow> bool" where
  "is_pow2 v = (if v \<le> 1 then v = 1 else even v \<and> is_pow2 (v div 2))"

declare is_pow2.simps [simp del]

lemma is_pow2_iff: "is_pow2 v \<longleftrightarrow> (\<exists>k. v = 2 ^ k)"
proof (induction v rule: is_pow2.induct)
  case (1 v)
  show ?case
  proof (cases "v \<le> 1")
    case True
    then show ?thesis
    proof (cases "v = 0")
      case False
      with True have v1: "v = 2 ^ 0" by simp
      have "is_pow2 v" using v1 by (subst is_pow2.simps) simp
      with v1 show ?thesis by blast
    next
      case True
      have "\<not> is_pow2 0" by (subst is_pow2.simps) simp
      with True show ?thesis by simp
    qed
  next
    case False
    then have "is_pow2 v \<longleftrightarrow> even v \<and> (\<exists>k. v div 2 = 2 ^ k)"
      using "1.IH" by (simp add: is_pow2.simps [of v])
    also have "\<dots> \<longleftrightarrow> (\<exists>k. v = 2 ^ k)"
    proof
      assume "even v \<and> (\<exists>k. v div 2 = 2 ^ k)"
      then obtain k where "even v" "v div 2 = 2 ^ k" by blast
      then have "v = 2 ^ Suc k" by auto
      then show "\<exists>k. v = 2 ^ k" ..
    next
      assume "\<exists>k. v = 2 ^ k"
      then obtain k where k: "v = 2 ^ k" by blast
      with False obtain k' where "k = Suc k'" by (cases k) auto
      with k show "even v \<and> (\<exists>k. v div 2 = 2 ^ k)" by auto
    qed
    finally show ?thesis .
  qed
qed

lemma is_pow2_double: "is_pow2 v \<Longrightarrow> is_pow2 (v * 2)"
  by (auto simp: is_pow2_iff intro: exI [of _ "Suc _"])

text \<open>A legal cell: empty, or a tile that is a power of two at least 2.\<close>

definition tile_ok :: "cell \<Rightarrow> bool" where
  "tile_ok v \<longleftrightarrow> v = 0 \<or> (2 \<le> v \<and> is_pow2 v)"

lemma tile_ok_double: "tile_ok v \<Longrightarrow> v \<noteq> 0 \<Longrightarrow> tile_ok (v * 2)"
  by (auto simp: tile_ok_def is_pow2_double)

end
