(* ===== verification/Line.thy ===== *)
theory Line
  imports Prelude
begin

text \<open>
  The one-dimensional engine of \<open>Game2048.move\<close> (\<open>src/script.js\<close>, lines 190--299):
  what each branch of the \<open>switch\<close> does to one row or one column. The code compacts the
  line with \<open>filter(val => val !== 0)\<close> (\<open>nonzeros\<close>), merges equal neighbours with an
  index loop that doubles a cell, adds it to \<open>this.score\<close> and deletes its partner with
  \<open>splice\<close> (\<open>merge_left_loop\<close> for left and up, \<open>merge_right_loop\<close> for right and
  down), and pads the line back to \<open>this.size\<close> cells with \<open>push(0)\<close> or \<open>unshift(0)\<close>
  (\<open>push_zeros\<close>, \<open>unshift_zeros\<close>). \<open>left_row\<close> and \<open>right_row\<close> are the
  bodies of the per-line loops. The reference \<open>merge_pairs\<close>/\<open>merge_score\<close>
  states the merge rule of the spec (merge adjacent equal tiles once, from the target
  edge); \<open>slide\<close> is the whole line move. The lemmas prove each loop equal to the
  reference, the right loop the mirror of the left one, and that a move conserves the
  sum of the line, keeps its length and keeps every tile a power of two.
\<close>

section \<open>Definitions\<close>

subsection \<open>Reference: merging a compacted line toward its front\<close>

definition nonzeros :: "row \<Rightarrow> row" where
  "nonzeros r = filter (\<lambda>v. v \<noteq> 0) r"

text \<open>
  Merge rule of the spec: two equal neighbours become one tile of twice the value, and
  the new tile does not merge again in the same move.
\<close>

fun merge_pairs :: "row \<Rightarrow> row" where
  "merge_pairs (x # y # xs) =
     (if x = y then x * 2 # merge_pairs xs else x # merge_pairs (y # xs))"
| "merge_pairs xs = xs"

fun merge_score :: "row \<Rightarrow> nat" where
  "merge_score (x # y # xs) =
     (if x = y then x * 2 + merge_score xs else merge_score (y # xs))"
| "merge_score xs = 0"

fun has_pair :: "row \<Rightarrow> bool" where
  "has_pair (x # y # xs) = (x = y \<or> has_pair (y # xs))"
| "has_pair xs = False"

subsection \<open>The loops of \<open>move\<close>\<close>

text \<open>
  Left (and up), lines 198--204:
  \<^verbatim>\<open>for (let j = 0; j < row.length - 1; j++) {
    if (row[j] === row[j + 1]) {
      row[j] *= 2; this.score += row[j]; row.splice(j + 1, 1); } }\<close>
  The bound \<open>row.length - 1\<close> is read again at every test (it is \<open>-1\<close> on an empty
  row; the guard \<open>Suc j < length row\<close> fails there as \<open>0 < -1\<close> does). The running
  \<open>this.score\<close> is threaded through the loop.
\<close>

function merge_left_loop :: "nat \<Rightarrow> row \<Rightarrow> nat \<Rightarrow> row \<times> nat" where
  "merge_left_loop j row score =
     (if Suc j < length row then
        (if row ! j = row ! Suc j then
           (let row' = row[j := row ! j * 2];
                score' = score + row' ! j
            in merge_left_loop (Suc j) (splice_del (Suc j) row') score')
         else merge_left_loop (Suc j) row score)
      else (row, score))"
  by pat_completeness auto
termination
  by (relation "measure (\<lambda>(j, row, score). length row - j)") auto

text \<open>
  Right (and down), lines 215--222:
  \<^verbatim>\<open>for (let j = row.length - 1; j > 0; j--) {
    if (row[j] === row[j - 1]) {
      row[j] *= 2; this.score += row[j]; row.splice(j - 1, 1); j--; } }\<close>
  After a merge the index drops by two (the \<open>j--\<close> of the body and of the loop). Where
  JavaScript reaches \<open>-1\<close>, the natural-number index stops at \<open>0\<close>; the guard \<open>j > 0\<close>
  fails on both.
\<close>

function merge_right_loop :: "nat \<Rightarrow> row \<Rightarrow> nat \<Rightarrow> row \<times> nat" where
  "merge_right_loop j row score =
     (if 0 < j then
        (if row ! j = row ! (j - 1) then
           (let row' = row[j := row ! j * 2];
                score' = score + row' ! j
            in merge_right_loop (j - 2) (splice_del (j - 1) row') score')
         else merge_right_loop (j - 1) row score)
      else (row, score))"
  by pat_completeness auto
termination
  by (relation "measure (\<lambda>(j, row, score). j)") auto

text \<open>\<open>while (row.length < this.size) row.push(0)\<close>, lines 205--207.\<close>

function push_zeros :: "nat \<Rightarrow> row \<Rightarrow> row" where
  "push_zeros n row = (if length row < n then push_zeros n (row @ [0]) else row)"
  by pat_completeness auto
termination
  by (relation "measure (\<lambda>(n, row). n - length row)") auto

text \<open>\<open>while (row.length < this.size) row.unshift(0)\<close>, lines 223--225.\<close>

function unshift_zeros :: "nat \<Rightarrow> row \<Rightarrow> row" where
  "unshift_zeros n row = (if length row < n then unshift_zeros n (0 # row) else row)"
  by pat_completeness auto
termination
  by (relation "measure (\<lambda>(n, row). n - length row)") auto

declare merge_left_loop.simps [simp del] merge_right_loop.simps [simp del]
  push_zeros.simps [simp del] unshift_zeros.simps [simp del]

text \<open>
  One line of the left branch (lines 197--207) and of the right branch (lines 214--225):
  compact, merge, pad. The up and down branches run the same statements on a column.
\<close>

definition left_row :: "nat \<Rightarrow> row \<Rightarrow> nat \<Rightarrow> row \<times> nat" where
  "left_row n line score =
     (let (row, score') = merge_left_loop 0 (nonzeros line) score
      in (push_zeros n row, score'))"

definition right_row :: "nat \<Rightarrow> row \<Rightarrow> nat \<Rightarrow> row \<times> nat" where
  "right_row n line score =
     (let row = nonzeros line;
          (row', score') = merge_right_loop (length row - 1) row score
      in (unshift_zeros n row', score'))"

subsection \<open>Reference line moves\<close>

definition slide :: "nat \<Rightarrow> row \<Rightarrow> row" where
  "slide n r = (let m = merge_pairs (nonzeros r) in m @ replicate (n - length m) 0)"

definition slide_score :: "row \<Rightarrow> nat" where
  "slide_score r = merge_score (nonzeros r)"

definition rslide :: "nat \<Rightarrow> row \<Rightarrow> row" where
  "rslide n r = rev (slide n (rev r))"

section \<open>Lemmas\<close>

lemma nonzeros_no_zero [simp]: "0 \<notin> set (nonzeros r)"
  by (simp add: nonzeros_def)

lemma length_nonzeros_le: "length (nonzeros r) \<le> length r"
  by (simp add: nonzeros_def)

lemma nonzeros_rev: "nonzeros (rev r) = rev (nonzeros r)"
  by (simp add: nonzeros_def rev_filter)

lemma nonzeros_id: "0 \<notin> set r \<Longrightarrow> nonzeros r = r"
  by (induction r) (auto simp: nonzeros_def)

lemma nonzeros_append_zeros [simp]: "nonzeros (r @ replicate k 0) = nonzeros r"
  by (simp add: nonzeros_def)

lemma nonzeros_zeros_append [simp]: "nonzeros (replicate k 0 @ r) = nonzeros r"
  by (simp add: nonzeros_def)

lemma sum_list_nonzeros: "sum_list (nonzeros r) = sum_list r"
  by (induction r) (simp_all add: nonzeros_def)

lemma nonzeros_Nil_iff: "nonzeros r = [] \<longleftrightarrow> list_all (\<lambda>v. v = 0) r"
  by (induction r) (simp_all add: nonzeros_def)

lemma merge_short: "length xs \<le> 1 \<Longrightarrow> merge_pairs xs = xs \<and> merge_score xs = 0"
  by (cases xs rule: merge_pairs.cases) auto

lemma merge_left_loop_eq:
  "merge_left_loop j row s =
     (take j row @ merge_pairs (drop j row), s + merge_score (drop j row))"
proof (induction j row s rule: merge_left_loop.induct)
  case (1 j row s)
  show ?case
  proof (cases "Suc j < length row")
    case False
    then have "length (drop j row) \<le> 1" by simp
    with False show ?thesis
      using merge_short by (simp add: merge_left_loop.simps [of j row s])
  next
    case True
    note d = drop_nth_pair [OF True]
    show ?thesis
    proof (cases "row ! j = row ! Suc j")
      case eq: True
      let ?R = "take j row @ row ! j * 2 # drop (Suc (Suc j)) row"
      have R: "splice_del (Suc j) (row[j := row ! j * 2]) = ?R"
        using True by (rule splice_del_update)
      have "merge_left_loop j row s = merge_left_loop (Suc j) ?R (s + row ! j * 2)"
        using True eq R by (simp add: merge_left_loop.simps [of j row s] Let_def)
      also have "\<dots> = (take (Suc j) ?R @ merge_pairs (drop (Suc j) ?R),
                       s + row ! j * 2 + merge_score (drop (Suc j) ?R))"
        using "1.IH"(1) [OF True eq refl refl] True R by simp
      finally show ?thesis
        using True eq d by (simp add: min_def)
    next
      case ne: False
      have "merge_left_loop j row s = merge_left_loop (Suc j) row s"
        using True ne by (simp add: merge_left_loop.simps [of j row s])
      also have "\<dots> = (take (Suc j) row @ merge_pairs (drop (Suc j) row),
                       s + merge_score (drop (Suc j) row))"
        using "1.IH"(2) [OF True ne] .
      moreover have "drop (Suc j) row = row ! Suc j # drop (Suc (Suc j)) row"
        using True by (simp add: Cons_nth_drop_Suc)
      then have "merge_pairs (drop j row) = row ! j # merge_pairs (drop (Suc j) row)"
        and "merge_score (drop j row) = merge_score (drop (Suc j) row)"
        using ne d by simp_all
      ultimately show ?thesis
        using True by (simp add: take_Suc_nth)
    qed
  qed
qed

lemma rev_take_j:
  "0 < j \<Longrightarrow> j < length xs \<Longrightarrow> rev (take j xs) = xs ! (j - 1) # rev (take (j - 1) xs)"
  using take_Suc_nth [of "j - 1" xs] by simp

lemma merge_right_loop_eq:
  "j < length row \<Longrightarrow> merge_right_loop j row s =
     (rev (merge_pairs (rev (take (Suc j) row))) @ drop (Suc j) row,
      s + merge_score (rev (take (Suc j) row)))"
proof (induction j row s rule: merge_right_loop.induct)
  case (1 j row s)
  show ?case
  proof (cases "0 < j")
    case False
    then have "j = 0" by simp
    moreover have "length (rev (take (Suc 0) row)) \<le> 1" by simp
    ultimately show ?thesis
      using merge_short by (simp add: merge_right_loop.simps [of 0 row s])
  next
    case pos: True
    note r = rev_take_Suc_Suc [OF pos "1.prems"]
    show ?thesis
    proof (cases "row ! j = row ! (j - 1)")
      case eq: True
      let ?R = "take (j - 1) row @ row ! j * 2 # drop (Suc j) row"
      have R: "splice_del (j - 1) (row[j := row ! j * 2]) = ?R"
        using pos "1.prems" by (rule splice_del_update_prev)
      have "merge_right_loop j row s = merge_right_loop (j - 2) ?R (s + row ! j * 2)"
        using pos eq R "1.prems" by (simp add: merge_right_loop.simps [of j row s] Let_def)
      also have "\<dots> = (rev (merge_pairs (rev (take (Suc (j - 2)) ?R))) @ drop (Suc (j - 2)) ?R,
                       s + row ! j * 2 + merge_score (rev (take (Suc (j - 2)) ?R)))"
        using "1.IH"(1) [OF pos eq refl refl] pos "1.prems" R by simp
      also have "\<dots> = (rev (merge_pairs (rev (take (j - 1) row))) @ row ! j * 2 # drop (Suc j) row,
                       s + row ! j * 2 + merge_score (rev (take (j - 1) row)))"
      proof (cases "j = 1")
        case True
        then show ?thesis by simp
      next
        case False
        with pos have "Suc (j - 2) = j - 1" by simp
        with "1.prems" show ?thesis by (auto simp: min_def)
      qed
      finally show ?thesis
        using eq r by simp
    next
      case ne: False
      have "merge_right_loop j row s = merge_right_loop (j - 1) row s"
        using pos ne by (simp add: merge_right_loop.simps [of j row s])
      also have "\<dots> = (rev (merge_pairs (rev (take j row))) @ drop j row,
                       s + merge_score (rev (take j row)))"
        using "1.IH"(2) [OF pos ne] pos "1.prems" by simp
      finally show ?thesis
        using ne r pos "1.prems"
        by (simp add: rev_take_j Cons_nth_drop_Suc [symmetric])
    qed
  qed
qed

lemma push_zeros_eq: "push_zeros n row = row @ replicate (n - length row) 0"
proof (induction n row rule: push_zeros.induct)
  case (1 n row)
  then show ?case
    by (cases "length row < n")
       (simp_all add: push_zeros.simps [of n row] replicate_app_Cons_same
                      Suc_diff_Suc [symmetric])
qed

lemma unshift_zeros_eq: "unshift_zeros n row = replicate (n - length row) 0 @ row"
proof (induction n row rule: unshift_zeros.induct)
  case (1 n row)
  then show ?case
    by (cases "length row < n")
       (simp_all add: unshift_zeros.simps [of n row] replicate_app_Cons_same
                      Suc_diff_Suc [symmetric])
qed

lemma left_row_slide: "left_row n r s = (slide n r, s + slide_score r)"
  by (simp add: left_row_def merge_left_loop_eq push_zeros_eq slide_def slide_score_def Let_def)

lemma right_row_rslide: "right_row n r s = (rslide n r, s + slide_score (rev r))"
proof (cases "nonzeros r = []")
  case True
  then have "nonzeros (rev r) = []" by (simp add: nonzeros_rev)
  with True show ?thesis
    by (simp add: right_row_def rslide_def slide_def slide_score_def unshift_zeros_eq
                  merge_right_loop.simps [of 0 "[]" s])
next
  case False
  let ?f = "nonzeros r"
  from False have "length ?f - 1 < length ?f" by simp
  then have "merge_right_loop (length ?f - 1) ?f s =
               (rev (merge_pairs (rev ?f)), s + merge_score (rev ?f))"
    using False by (simp add: merge_right_loop_eq)
  then show ?thesis
    by (simp add: right_row_def rslide_def slide_def slide_score_def unshift_zeros_eq
                  nonzeros_rev Let_def)
qed

lemma sum_list_merge_pairs: "sum_list (merge_pairs xs) = sum_list xs"
  by (induction xs rule: merge_pairs.induct) auto

lemma length_merge_pairs_le: "length (merge_pairs xs) \<le> length xs"
  by (induction xs rule: merge_pairs.induct) auto

lemma length_merge_pairs_less: "length (merge_pairs xs) < length xs \<longleftrightarrow> has_pair xs"
proof (induction xs rule: merge_pairs.induct)
  case (1 x y xs)
  then show ?case
    using length_merge_pairs_le [of xs] by auto
qed simp_all

lemma merge_pairs_id: "\<not> has_pair xs \<Longrightarrow> merge_pairs xs = xs"
  by (induction xs rule: merge_pairs.induct) auto

lemma merge_pairs_nonzero: "0 \<notin> set xs \<Longrightarrow> 0 \<notin> set (merge_pairs xs)"
  by (induction xs rule: merge_pairs.induct) auto

lemma merge_pairs_tiles:
  "list_all tile_ok xs \<Longrightarrow> 0 \<notin> set xs \<Longrightarrow> list_all tile_ok (merge_pairs xs)"
  by (induction xs rule: merge_pairs.induct) (auto simp: tile_ok_double)

lemma merge_score_pos: "0 \<notin> set xs \<Longrightarrow> merge_score xs = 0 \<longleftrightarrow> \<not> has_pair xs"
  by (induction xs rule: merge_pairs.induct) auto

lemma length_slide: "length r \<le> n \<Longrightarrow> length (slide n r) = n"
  using length_merge_pairs_le [of "nonzeros r"] length_nonzeros_le [of r]
  by (simp add: slide_def Let_def)

lemma sum_list_slide: "sum_list (slide n r) = sum_list r"
  by (simp add: slide_def Let_def sum_list_merge_pairs sum_list_nonzeros)

lemma filter_slide:
  "nonzeros (slide n r) = merge_pairs (nonzeros r)"
proof -
  have "0 \<notin> set (merge_pairs (nonzeros r))"
    by (rule merge_pairs_nonzero) simp
  then have "nonzeros (merge_pairs (nonzeros r)) = merge_pairs (nonzeros r)"
    by (rule nonzeros_id)
  then show ?thesis by (simp add: slide_def Let_def)
qed

text \<open>A line is left unchanged exactly when its tiles are packed and no two neighbours merge.\<close>

lemma slide_fixed_iff:
  assumes "length r = n"
  shows "slide n r = r \<longleftrightarrow>
    \<not> has_pair (nonzeros r) \<and>
    r = nonzeros r @ replicate (n - length (nonzeros r)) 0"
    (is "_ \<longleftrightarrow> \<not> has_pair ?f \<and> _")
proof
  assume fixed: "slide n r = r"
  have np: "\<not> has_pair ?f"
  proof
    assume "has_pair ?f"
    then have "length (merge_pairs ?f) < length ?f" by (simp add: length_merge_pairs_less)
    moreover have "merge_pairs ?f = ?f"
      using filter_slide [of n r] fixed by simp
    ultimately show False by simp
  qed
  with fixed show "\<not> has_pair ?f \<and> r = ?f @ replicate (n - length ?f) 0"
    by (simp add: slide_def Let_def merge_pairs_id)
next
  assume "\<not> has_pair ?f \<and> r = ?f @ replicate (n - length ?f) 0"
  then show "slide n r = r" by (simp add: slide_def Let_def merge_pairs_id)
qed

lemma slide_score_moves:
  "length r = n \<Longrightarrow> slide_score r \<noteq> 0 \<Longrightarrow> slide n r \<noteq> r"
  by (simp add: slide_fixed_iff slide_score_def merge_score_pos)

lemma nonzeros_tiles: "list_all tile_ok r \<Longrightarrow> list_all tile_ok (nonzeros r)"
  by (simp add: nonzeros_def list_all_iff)

lemma slide_tiles: "list_all tile_ok r \<Longrightarrow> list_all tile_ok (slide n r)"
proof -
  assume "list_all tile_ok r"
  then have "list_all tile_ok (merge_pairs (nonzeros r))"
    by (simp add: merge_pairs_tiles nonzeros_tiles)
  moreover have "list_all tile_ok (replicate k 0)" for k
    by (simp add: list_all_iff tile_ok_def)
  ultimately show ?thesis by (simp add: slide_def Let_def)
qed

lemma has_pair_nth: "has_pair xs \<longleftrightarrow> (\<exists>j. Suc j < length xs \<and> xs ! j = xs ! Suc j)"
proof (induction xs rule: has_pair.induct)
  case (1 x y xs)
  have "(\<exists>j. Suc j < length (x # y # xs) \<and> (x # y # xs) ! j = (x # y # xs) ! Suc j) \<longleftrightarrow>
        x = y \<or> (\<exists>j. Suc j < length (y # xs) \<and> (y # xs) ! j = (y # xs) ! Suc j)"
    by (subst ex_nat_split) simp
  with "1.IH" show ?case by simp
qed simp_all

lemma has_pair_split: "has_pair xs \<longleftrightarrow> (\<exists>ys x zs. xs = ys @ x # x # zs)"
proof (induction xs rule: has_pair.induct)
  case (1 x y xs)
  show ?case
  proof
    assume "has_pair (x # y # xs)"
    then have "x = y \<or> has_pair (y # xs)" by simp
    then show "\<exists>ys v zs. x # y # xs = ys @ v # v # zs"
    proof
      assume "x = y"
      then have "x # y # xs = [] @ x # x # xs" by simp
      then show ?thesis by blast
    next
      assume "has_pair (y # xs)"
      with "1.IH" obtain ys v zs where "y # xs = ys @ v # v # zs" by blast
      then have "x # y # xs = (x # ys) @ v # v # zs" by simp
      then show ?thesis by blast
    qed
  next
    assume "\<exists>ys v zs. x # y # xs = ys @ v # v # zs"
    then obtain ys v zs where e: "x # y # xs = ys @ v # v # zs" by blast
    show "has_pair (x # y # xs)"
    proof (cases ys)
      case Nil
      with e show ?thesis by simp
    next
      case (Cons a ys')
      with e have "y # xs = ys' @ v # v # zs" by simp
      with "1.IH" have "has_pair (y # xs)" by blast
      then show ?thesis by simp
    qed
  qed
qed (auto simp: Cons_eq_append_conv append_eq_Cons_conv)

lemma has_pair_rev: "has_pair (rev xs) \<longleftrightarrow> has_pair xs"
proof -
  have "\<And>xs. has_pair xs \<Longrightarrow> has_pair (rev xs)"
  proof -
    fix xs :: row
    assume "has_pair xs"
    then obtain ys x zs where "xs = ys @ x # x # zs" by (auto simp: has_pair_split)
    then have "rev xs = rev zs @ x # x # rev ys" by simp
    then show "has_pair (rev xs)" by (auto simp: has_pair_split)
  qed
  from this [of xs] this [of "rev xs"] show ?thesis by auto
qed

lemma all_zero_replicate:
  "list_all (\<lambda>v. v = 0) r \<Longrightarrow> r = replicate (length r) (0::nat)"
  by (simp add: list_all_iff replicate_length_same)

lemma slide_all_zero: "list_all (\<lambda>v. v = 0) r \<Longrightarrow> length r = n \<Longrightarrow> slide n r = r"
  using all_zero_replicate [of r]
  by (simp add: slide_def Let_def nonzeros_Nil_iff [THEN iffD2])

lemma slide_full_nopair: "0 \<notin> set r \<Longrightarrow> \<not> has_pair r \<Longrightarrow> length r = n \<Longrightarrow> slide n r = r"
  by (simp add: slide_def Let_def nonzeros_id merge_pairs_id)

text \<open>A line that neither a left nor a right move changes is empty, or full without equal neighbours.\<close>

lemma line_fixed_both:
  assumes len: "length r = n"
  shows "slide n r = r \<and> rslide n r = r \<longleftrightarrow>
           list_all (\<lambda>v. v = 0) r \<or> (0 \<notin> set r \<and> \<not> has_pair r)"
proof
  assume "list_all (\<lambda>v. v = 0) r \<or> (0 \<notin> set r \<and> \<not> has_pair r)"
  then show "slide n r = r \<and> rslide n r = r"
  proof
    assume z: "list_all (\<lambda>v. v = 0) r"
    then have "list_all (\<lambda>v. v = 0) (rev r)" by (simp add: list_all_iff)
    with z len show ?thesis by (simp add: slide_all_zero rslide_def)
  next
    assume f: "0 \<notin> set r \<and> \<not> has_pair r"
    then have "0 \<notin> set (rev r) \<and> \<not> has_pair (rev r)" by (simp add: has_pair_rev)
    with f len show ?thesis by (simp add: slide_full_nopair rslide_def)
  qed
next
  assume fx: "slide n r = r \<and> rslide n r = r"
  define f where "f = nonzeros r"
  define k where "k = n - length f"
  from fx len have np: "\<not> has_pair f" and l: "r = f @ replicate k 0"
    by (simp_all add: slide_fixed_iff f_def k_def)
  from fx have "slide n (rev r) = rev r" by (metis rev_rev_ident rslide_def)
  with len have "rev r = rev f @ replicate k 0"
    by (simp add: slide_fixed_iff nonzeros_rev f_def k_def)
  then have rr: "r = replicate k 0 @ f" by (metis rev_append rev_replicate rev_rev_ident)
  have nz: "0 \<notin> set f" by (simp add: f_def)
  show "list_all (\<lambda>v. v = 0) r \<or> (0 \<notin> set r \<and> \<not> has_pair r)"
  proof (cases "f = []")
    case True
    with rr show ?thesis by (simp add: list_all_iff)
  next
    case False
    have "k = 0"
    proof (rule ccontr)
      assume "k \<noteq> 0"
      then have "r ! 0 = 0" using rr by (simp add: nth_append)
      moreover have "r ! 0 = f ! 0" using l False by (simp add: nth_append)
      moreover have "f ! 0 \<in> set f" using False by simp
      ultimately show False using nz by simp
    qed
    with l np nz show ?thesis by simp
  qed
qed

section \<open>Properties of the line engine\<close>

text \<open>
  C3. The left merge loop, run from index 0 as the code runs it, computes the reference
  merge: the merged line and the score increased by the values of the new tiles.
\<close>

theorem merge_left_loop_correct:
  "merge_left_loop 0 row s = (merge_pairs row, s + merge_score row)"
  by (simp add: merge_left_loop_eq)

text \<open>
  C4. The right merge loop with its double decrement, run from the last index, computes
  the reference merge toward the right end: the mirror image of merging the reversed line.
\<close>

theorem merge_right_loop_correct:
  "merge_right_loop (length row - 1) row s =
     (rev (merge_pairs (rev row)), s + merge_score (rev row))"
proof (cases row)
  case Nil
  then show ?thesis by (simp add: merge_right_loop.simps [of 0 "[]" s])
next
  case (Cons x xs)
  then show ?thesis by (simp add: merge_right_loop_eq)
qed

text \<open>
  C2. Directional symmetry: the right branch's line code gives exactly the mirror image
  of the left branch's line code on the reversed line, with the same score.
\<close>

theorem right_row_mirrors_left_row:
  "right_row n r s = (rev (fst (left_row n (rev r) s)), snd (left_row n (rev r) s))"
  by (simp add: right_row_rslide left_row_slide rslide_def)

text \<open>
  The spec's examples: \<open>[2,2,2,2]\<close> moved left gives \<open>[4,4,0,0]\<close> and 8 points (no
  triple merge), \<open>[0,2,2,4]\<close> left gives \<open>[4,4,0,0]\<close> and 4, the mirrored \<open>[4,2,2,0]\<close>
  right gives \<open>[0,0,4,4]\<close> and 4.
\<close>

theorem line_examples:
  "left_row 4 [2, 2, 2, 2] 0 = ([4, 4, 0, 0], 8) \<and>
   left_row 4 [0, 2, 2, 4] 0 = ([4, 4, 0, 0], 4) \<and>
   right_row 4 [4, 2, 2, 0] 0 = ([0, 0, 4, 4], 4)"
  by code_simp

end
