(* ===== verification/Board.thy ===== *)
theory Board
  imports Line
begin

text \<open>
  The grid-level part of \<open>Game2048\<close> in \<open>src/script.js\<close>: the four branches of \<open>move\<close>
  as the loops over rows and columns the code runs, the \<open>moved\<close> comparison,
  \<open>canMove\<close> and \<open>checkGameStatus\<close>. The reference \<open>spec_move\<close> is the spec's move: every
  row slid toward the target edge, columns through the transpose. The lemmas show that
  the code refines the reference (grid and score), that moves keep the grid square,
  its sum and its tile invariant, that a scoring move always changes the grid, and that
  \<open>canMove\<close> is exactly the existence of a move that changes the grid.
\<close>

section \<open>Definitions\<close>

text \<open>The four values of the \<open>direction\<close> argument of \<open>move\<close> (lines 194--278).\<close>

datatype direction = Up | Down | Left | Right

text \<open>
  \<open>case 'left'\<close> (lines 195--210): for each row index \<open>i\<close>, the line code of \<open>Line\<close>
  on \<open>newGrid[i]\<close>, stored back with \<open>newGrid[i] = row\<close>. \<open>case 'right'\<close> (lines 212--228)
  is the same loop over the right-line code.
\<close>

definition move_left_branch :: "nat \<Rightarrow> grid \<Rightarrow> nat \<Rightarrow> grid \<times> nat" where
  "move_left_branch n grid score =
     fold (\<lambda>i (g, sc). let (row, sc') = left_row n (g ! i) sc in (g[i := row], sc'))
       [0..<n] (grid, score)"

definition move_right_branch :: "nat \<Rightarrow> grid \<Rightarrow> nat \<Rightarrow> grid \<times> nat" where
  "move_right_branch n grid score =
     fold (\<lambda>i (g, sc). let (row, sc') = right_row n (g ! i) sc in (g[i := row], sc'))
       [0..<n] (grid, score)"

text \<open>\<open>for (i = 0; i < this.size; i++) newGrid[i][j] = column[i]\<close> (lines 248--250).\<close>

definition write_column :: "nat \<Rightarrow> nat \<Rightarrow> row \<Rightarrow> grid \<Rightarrow> grid" where
  "write_column n j col grid = fold (\<lambda>i g. g[i := (g ! i)[j := col ! i]]) [0..<n] grid"

text \<open>
  \<open>case 'up'\<close> (lines 230--252): for each column index \<open>j\<close>, collect the column, run the
  left-line code on it, and write it back; \<open>case 'down'\<close> (lines 254--277) runs the
  right-line code. The columns are read from the grid as the earlier columns left it.
\<close>

definition move_up_branch :: "nat \<Rightarrow> grid \<Rightarrow> nat \<Rightarrow> grid \<times> nat" where
  "move_up_branch n grid score =
     fold (\<lambda>j (g, sc). let (col, sc') = left_row n (column g j) sc
                       in (write_column n j col g, sc'))
       [0..<n] (grid, score)"

definition move_down_branch :: "nat \<Rightarrow> grid \<Rightarrow> nat \<Rightarrow> grid \<times> nat" where
  "move_down_branch n grid score =
     fold (\<lambda>j (g, sc). let (col, sc') = right_row n (column g j) sc
                       in (write_column n j col g, sc'))
       [0..<n] (grid, score)"

text \<open>
  The \<open>switch (direction)\<close> of \<open>move\<close>: the new grid and the new \<open>this.score\<close> (the code
  adds to \<open>this.score\<close> while it works on the copy \<open>newGrid\<close>).
\<close>

definition move_grid :: "nat \<Rightarrow> direction \<Rightarrow> grid \<Rightarrow> nat \<Rightarrow> grid \<times> nat" where
  "move_grid n d grid score =
     (case d of
        Left \<Rightarrow> move_left_branch n grid score
      | Right \<Rightarrow> move_right_branch n grid score
      | Up \<Rightarrow> move_up_branch n grid score
      | Down \<Rightarrow> move_down_branch n grid score)"

text \<open>
  Reference moves of the spec: every row (left, right) or every column (up, down) slid
  toward the target edge, the columns as the rows of the transpose.
\<close>

fun spec_move :: "nat \<Rightarrow> direction \<Rightarrow> grid \<Rightarrow> grid" where
  "spec_move n Left g = map (slide n) g"
| "spec_move n Right g = map (rslide n) g"
| "spec_move n Up g = transpose_sq n (map (slide n) (transpose_sq n g))"
| "spec_move n Down g = transpose_sq n (map (rslide n) (transpose_sq n g))"

fun spec_gain :: "nat \<Rightarrow> direction \<Rightarrow> grid \<Rightarrow> nat" where
  "spec_gain n Left g = sum_list (map slide_score g)"
| "spec_gain n Right g = sum_list (map (\<lambda>r. slide_score (rev r)) g)"
| "spec_gain n Up g = sum_list (map slide_score (transpose_sq n g))"
| "spec_gain n Down g = sum_list (map (\<lambda>r. slide_score (rev r)) (transpose_sq n g))"

text \<open>The \<open>moved\<close> test of lines 280--288 (\<open>break\<close> leaves the inner loop only).\<close>

definition grid_changed :: "nat \<Rightarrow> grid \<Rightarrow> grid \<Rightarrow> bool" where
  "grid_changed n grid new_grid =
     list_ex (\<lambda>i. list_ex (\<lambda>j. grid ! i ! j \<noteq> new_grid ! i ! j) [0..<n]) [0..<n]"

text \<open>\<open>canMove\<close> (lines 318--340): an empty cell, or a right or lower neighbour of equal value.\<close>

definition can_move :: "nat \<Rightarrow> grid \<Rightarrow> bool" where
  "can_move n grid =
     (list_ex (\<lambda>i. list_ex (\<lambda>j. grid ! i ! j = 0) [0..<n]) [0..<n] \<or>
      list_ex (\<lambda>i. list_ex (\<lambda>j.
          let current = grid ! i ! j
          in (i < n - 1 \<and> grid ! (i + 1) ! j = current) \<or>
             (j < n - 1 \<and> grid ! i ! (j + 1) = current)) [0..<n]) [0..<n])"

text \<open>
  \<open>checkGameStatus\<close> (lines 301--316): the message it shows, \<open>You Win!\<close> if a cell holds
  2048, else \<open>Game Over!\<close> if no move is possible, else none.
\<close>

datatype game_status = Won | Over

definition has_win_tile :: "nat \<Rightarrow> grid \<Rightarrow> bool" where
  "has_win_tile n grid = list_ex (\<lambda>i. list_ex (\<lambda>j. grid ! i ! j = 2048) [0..<n]) [0..<n]"

definition check_game_status :: "nat \<Rightarrow> grid \<Rightarrow> game_status option" where
  "check_game_status n grid =
     (if has_win_tile n grid then Some Won
      else if \<not> can_move n grid then Some Over
      else None)"

text \<open>The sum of all cells and the tile invariant, for the properties below.\<close>

definition grid_sum :: "grid \<Rightarrow> nat" where
  "grid_sum g = sum_list (map sum_list g)"

definition grid_tiles :: "grid \<Rightarrow> bool" where
  "grid_tiles g \<longleftrightarrow> list_all (list_all tile_ok) g"

text \<open>A line that no move along it changes: empty, or full with no equal neighbours.\<close>

definition line_stuck :: "row \<Rightarrow> bool" where
  "line_stuck r \<longleftrightarrow> list_all (\<lambda>v. v = 0) r \<or> (0 \<notin> set r \<and> \<not> has_pair r)"

section \<open>Lemmas\<close>

lemma fold_rows:
  assumes h: "\<And>r sc. h r sc = (F r, sc + S r)" and k: "k \<le> length g"
  shows "fold (\<lambda>i (g, sc). let (row, sc') = h (g ! i) sc in (g[i := row], sc')) [0..<k] (g, s) =
           (map F (take k g) @ drop k g, s + sum_list (map S (take k g)))"
  using k
proof (induction k)
  case 0
  then show ?case by simp
next
  case (Suc k)
  then have IH: "fold (\<lambda>i (g, sc). let (row, sc') = h (g ! i) sc in (g[i := row], sc')) [0..<k] (g, s) =
           (map F (take k g) @ drop k g, s + sum_list (map S (take k g)))" by simp
  from Suc.prems have k: "k < length g" by simp
  then have d: "drop k g = g ! k # drop (Suc k) g" by (simp add: Cons_nth_drop_Suc)
  show ?case
    using k IH by (simp add: h d nth_append list_update_append take_Suc_nth add.assoc)
qed

lemma length_write_column_fold [simp]:
  "length (fold (\<lambda>i g. g[i := (g ! i)[j := col ! i]]) xs g) = length g"
  by (induction xs arbitrary: g) simp_all

lemma grid_ok_write_column_fold:
  assumes "grid_ok n g"
  shows "k \<le> n \<Longrightarrow> grid_ok n (fold (\<lambda>i g. g[i := (g ! i)[j := col ! i]]) [0..<k] g)"
proof (induction k)
  case 0
  then show ?case using assms by simp
next
  case (Suc k)
  let ?G = "fold (\<lambda>i g. g[i := (g ! i)[j := col ! i]]) [0..<k] g"
  have "length ?G = n" using assms by (simp add: grid_simps)
  with Suc show ?case
    by (intro grid_okI) (auto simp: grid_simps nth_list_update)
qed

lemma write_column_nth:
  assumes "grid_ok n g" "i < n" "j' < n" "k \<le> n"
  shows "fold (\<lambda>i g. g[i := (g ! i)[j := col ! i]]) [0..<k] g ! i ! j' =
           (if i < k \<and> j' = j then col ! i else g ! i ! j')"
  using assms(4)
proof (induction k)
  case 0
  then show ?case by simp
next
  case (Suc k)
  let ?G = "fold (\<lambda>i g. g[i := (g ! i)[j := col ! i]]) [0..<k] g"
  have "grid_ok n ?G" using assms(1) Suc.prems by (simp add: grid_ok_write_column_fold)
  then have len: "length ?G = n" "k < n \<Longrightarrow> length (?G ! k) = n"
    by (simp_all only: grid_simps)
  show ?case
  proof (cases "i = k")
    case True
    with Suc assms(2,3) len show ?thesis by (auto simp: nth_list_update)
  next
    case False
    with Suc assms(2,3) len show ?thesis by (auto simp: nth_list_update)
  qed
qed

lemma write_column_entries:
  assumes "grid_ok n g" "j < n"
  shows "grid_ok n (write_column n j col g)"
    and "\<And>i j'. i < n \<Longrightarrow> j' < n \<Longrightarrow>
           write_column n j col g ! i ! j' = (if j' = j then col ! i else g ! i ! j')"
  using assms grid_ok_write_column_fold [of n g n] write_column_nth [of n g _ _ n]
  by (simp_all add: write_column_def)

lemma column_nth [simp]: "i < length g \<Longrightarrow> column g j ! i = g ! i ! j"
  by (simp add: column_def)

lemma length_column [simp]: "length (column g j) = length g"
  by (simp add: column_def)

lemma fold_columns:
  assumes h: "\<And>c sc. h c sc = (F c, sc + S c)"
    and F: "\<And>c. length c = n \<Longrightarrow> length (F c) = n"
    and ok: "grid_ok n g"
  shows "k \<le> n \<Longrightarrow> \<exists>g'.
    fold (\<lambda>j (g, sc). let (col, sc') = h (column g j) sc in (write_column n j col g, sc'))
      [0..<k] (g, s) = (g', s + sum_list (map (\<lambda>j. S (column g j)) [0..<k])) \<and>
    grid_ok n g' \<and>
    (\<forall>i<n. \<forall>j<n. g' ! i ! j = (if j < k then F (column g j) ! i else g ! i ! j))"
proof (induction k)
  case 0
  then show ?case using ok by simp
next
  case (Suc k)
  then obtain g' where
    eq: "fold (\<lambda>j (g, sc). let (col, sc') = h (column g j) sc in (write_column n j col g, sc'))
           [0..<k] (g, s) = (g', s + sum_list (map (\<lambda>j. S (column g j)) [0..<k]))"
    and ok': "grid_ok n g'"
    and ent: "\<forall>i<n. \<forall>j<n. g' ! i ! j = (if j < k then F (column g j) ! i else g ! i ! j)"
    by auto
  from Suc.prems have k: "k < n" by simp
  have col: "column g' k = column g k"
    using ok ok' ent k by (intro nth_equalityI) (simp_all add: grid_simps)
  have lenF: "length (F (column g k)) = n"
    using ok by (simp add: F grid_simps)
  let ?g'' = "write_column n k (F (column g k)) g'"
  have "fold (\<lambda>j (g, sc). let (col, sc') = h (column g j) sc in (write_column n j col g, sc'))
           [0..<Suc k] (g, s) =
        (?g'', s + sum_list (map (\<lambda>j. S (column g j)) [0..<Suc k]))"
    using eq col by (simp add: h add.assoc)
  moreover have "grid_ok n ?g''"
    using ok' k by (rule write_column_entries(1))
  moreover have "\<forall>i<n. \<forall>j<n. ?g'' ! i ! j = (if j < Suc k then F (column g j) ! i else g ! i ! j)"
    using write_column_entries(2) [OF ok' k] ent by auto
  ultimately show ?case by blast
qed

lemma fold_columns_transpose:
  assumes h: "\<And>c sc. h c sc = (F c, sc + S c)"
    and F: "\<And>c. length c = n \<Longrightarrow> length (F c) = n"
    and ok: "grid_ok n g"
  shows "fold (\<lambda>j (g, sc). let (col, sc') = h (column g j) sc in (write_column n j col g, sc'))
      [0..<n] (g, s) = (transpose_sq n (map F (transpose_sq n g)), s + sum_list (map S (transpose_sq n g)))"
proof -
  obtain g' where
    eq: "fold (\<lambda>j (g, sc). let (col, sc') = h (column g j) sc in (write_column n j col g, sc'))
           [0..<n] (g, s) = (g', s + sum_list (map (\<lambda>j. S (column g j)) [0..<n]))"
    and ok': "grid_ok n g'"
    and ent: "\<forall>i<n. \<forall>j<n. g' ! i ! j = F (column g j) ! i"
    using fold_columns [where h = h and F = F and S = S and k = n and s = s, OF h F ok] by auto
  have okT: "grid_ok n (transpose_sq n (map F (transpose_sq n g)))"
    using ok by (intro grid_ok_transpose_sq grid_ok_map) (simp_all add: F grid_simps)
  have "g' = transpose_sq n (map F (transpose_sq n g))"
    using ok' okT ent by (intro grid_ok_eqI [of n]) (simp_all add: grid_simps transpose_sq_def)
  moreover have "map (\<lambda>j. S (column g j)) [0..<n] = map S (transpose_sq n g)"
    by (simp add: transpose_sq_def)
  ultimately show ?thesis using eq by simp
qed

lemma length_rslide: "length r \<le> n \<Longrightarrow> length (rslide n r) = n"
  by (simp add: rslide_def length_slide)

lemma move_left_branch_spec:
  "grid_ok n g \<Longrightarrow> move_left_branch n g s = (spec_move n Left g, s + spec_gain n Left g)"
  using fold_rows [where h = "left_row n" and F = "slide n" and S = slide_score and k = n]
  by (simp add: move_left_branch_def left_row_slide grid_simps)

lemma move_right_branch_spec:
  "grid_ok n g \<Longrightarrow> move_right_branch n g s = (spec_move n Right g, s + spec_gain n Right g)"
  using fold_rows [where h = "right_row n" and F = "rslide n" and S = "\<lambda>r. slide_score (rev r)" and k = n]
  by (simp add: move_right_branch_def right_row_rslide grid_simps)

lemma move_up_branch_spec:
  "grid_ok n g \<Longrightarrow> move_up_branch n g s = (spec_move n Up g, s + spec_gain n Up g)"
  using fold_columns_transpose [where h = "left_row n" and F = "slide n" and S = slide_score]
  by (simp add: move_up_branch_def left_row_slide length_slide)

lemma move_down_branch_spec:
  "grid_ok n g \<Longrightarrow> move_down_branch n g s = (spec_move n Down g, s + spec_gain n Down g)"
  using fold_columns_transpose [where h = "right_row n" and F = "rslide n"
                                  and S = "\<lambda>r. slide_score (rev r)"]
  by (simp add: move_down_branch_def right_row_rslide length_rslide)

lemmas move_branch_specs =
  move_left_branch_spec move_right_branch_spec move_up_branch_spec move_down_branch_spec

lemma move_grid_fst: "grid_ok n g \<Longrightarrow> fst (move_grid n d g s) = spec_move n d g"
  by (cases d) (simp_all add: move_grid_def move_branch_specs)

lemma move_grid_snd: "grid_ok n g \<Longrightarrow> snd (move_grid n d g s) = s + spec_gain n d g"
  by (cases d) (simp_all add: move_grid_def move_branch_specs)

lemma grid_changed_iff:
  "grid_ok n a \<Longrightarrow> grid_ok n b \<Longrightarrow> grid_changed n a b \<longleftrightarrow> a \<noteq> b"
  by (auto simp: grid_changed_def list_ex_iff intro: grid_ok_eqI [of n])

lemma grid_sum_entries:
  assumes "grid_ok n g"
  shows "grid_sum g = (\<Sum>i = 0..<n. \<Sum>j = 0..<n. g ! i ! j)"
proof -
  have "grid_sum g = (\<Sum>i = 0..<n. sum_list (g ! i))"
    using assms by (simp add: grid_sum_def sum_list_sum_nth [of "map sum_list g"] grid_simps)
  also have "\<dots> = (\<Sum>i = 0..<n. \<Sum>j = 0..<n. g ! i ! j)"
    using assms by (intro sum.cong) (simp_all add: sum_list_sum_nth [of "g ! _"] grid_simps)
  finally show ?thesis .
qed

lemma grid_sum_transpose:
  assumes "grid_ok n g"
  shows "grid_sum (transpose_sq n g) = grid_sum g"
proof -
  have "grid_sum (transpose_sq n g) = (\<Sum>i = 0..<n. \<Sum>j = 0..<n. transpose_sq n g ! i ! j)"
    using grid_ok_transpose_sq [OF assms] by (rule grid_sum_entries)
  also have "\<dots> = (\<Sum>i = 0..<n. \<Sum>j = 0..<n. g ! j ! i)"
    using assms by (intro sum.cong refl) (simp add: grid_simps)
  also have "\<dots> = (\<Sum>j = 0..<n. \<Sum>i = 0..<n. g ! j ! i)"
    by (rule sum.swap)
  also have "\<dots> = grid_sum g"
    using assms by (simp add: grid_sum_entries [of n])
  finally show ?thesis .
qed

lemma grid_sum_map:
  "(\<And>r. r \<in> set g \<Longrightarrow> sum_list (f r) = sum_list r) \<Longrightarrow> grid_sum (map f g) = grid_sum g"
  by (simp add: grid_sum_def cong: map_cong)

lemma grid_tiles_entries:
  "grid_ok n g \<Longrightarrow> grid_tiles g \<longleftrightarrow> (\<forall>i<n. \<forall>j<n. tile_ok (g ! i ! j))"
  by (simp add: grid_tiles_def list_all_length grid_simps)

lemma grid_tiles_transpose:
  assumes "grid_ok n g"
  shows "grid_tiles (transpose_sq n g) \<longleftrightarrow> grid_tiles g"
proof -
  have "grid_tiles (transpose_sq n g) \<longleftrightarrow> (\<forall>i<n. \<forall>j<n. tile_ok (g ! j ! i))"
    using assms by (simp add: grid_tiles_entries [of n] grid_simps)
  also have "\<dots> \<longleftrightarrow> grid_tiles g"
    using assms by (auto simp: grid_tiles_entries [of n])
  finally show ?thesis .
qed

lemma map_fixed_iff: "map f xs = xs \<longleftrightarrow> (\<forall>x\<in>set xs. f x = x)"
  by (induction xs) auto

lemma transpose_fixed_iff:
  assumes "grid_ok n g" "grid_ok n m"
  shows "transpose_sq n m = g \<longleftrightarrow> m = transpose_sq n g"
  using assms by (auto simp: grid_simps)

lemma grid_ok_slide_rows: "grid_ok n g \<Longrightarrow> grid_ok n (map (slide n) g)"
  by (rule grid_ok_map) (simp_all add: length_slide)

lemma grid_ok_rslide_rows: "grid_ok n g \<Longrightarrow> grid_ok n (map (rslide n) g)"
  by (rule grid_ok_map) (simp_all add: length_rslide)

lemma spec_move_ok: "grid_ok n g \<Longrightarrow> grid_ok n (spec_move n d g)"
  by (cases d) (simp_all add: grid_ok_slide_rows grid_ok_rslide_rows grid_simps)

lemma sum_list_rslide: "sum_list (rslide n r) = sum_list r"
  by (simp add: rslide_def sum_list_slide)

lemma rslide_tiles: "list_all tile_ok r \<Longrightarrow> list_all tile_ok (rslide n r)"
  by (simp add: rslide_def slide_tiles)

lemma spec_move_sum: "grid_ok n g \<Longrightarrow> grid_sum (spec_move n d g) = grid_sum g"
  by (cases d)
     (simp_all add: grid_sum_map sum_list_slide sum_list_rslide grid_sum_transpose
                    grid_ok_slide_rows grid_ok_rslide_rows grid_simps)

lemma grid_tiles_map:
  "(\<And>r. list_all tile_ok r \<Longrightarrow> list_all tile_ok (f r)) \<Longrightarrow> grid_tiles g \<Longrightarrow> grid_tiles (map f g)"
  by (simp add: grid_tiles_def list_all_iff) blast

lemma spec_move_tiles: "grid_ok n g \<Longrightarrow> grid_tiles g \<Longrightarrow> grid_tiles (spec_move n d g)"
  by (cases d)
     (simp_all add: grid_tiles_map slide_tiles rslide_tiles grid_tiles_transpose
                    grid_ok_slide_rows grid_ok_rslide_rows grid_simps)

lemma transpose_slide_fixed:
  "grid_ok n g \<Longrightarrow>
     transpose_sq n (map (slide n) (transpose_sq n g)) = g \<longleftrightarrow>
     (\<forall>c\<in>set (transpose_sq n g). slide n c = c)"
  by (simp add: transpose_fixed_iff grid_ok_slide_rows map_fixed_iff grid_simps)

lemma transpose_rslide_fixed:
  "grid_ok n g \<Longrightarrow>
     transpose_sq n (map (rslide n) (transpose_sq n g)) = g \<longleftrightarrow>
     (\<forall>c\<in>set (transpose_sq n g). rslide n c = c)"
  by (simp add: transpose_fixed_iff grid_ok_rslide_rows map_fixed_iff grid_simps)

lemmas spec_move_fixed = map_fixed_iff transpose_slide_fixed transpose_rslide_fixed

lemma row_length_in: "grid_ok n g \<Longrightarrow> r \<in> set g \<Longrightarrow> length r = n"
  by (simp add: grid_ok_def list_all_iff)

lemma spec_gain_moves:
  assumes ok: "grid_ok n g" and gain: "spec_gain n d g \<noteq> 0"
  shows "spec_move n d g \<noteq> g"
proof -
  have okT: "grid_ok n (transpose_sq n g)" using ok by (simp add: grid_simps)
  have slide_mv: "\<And>h r. grid_ok n h \<Longrightarrow> r \<in> set h \<Longrightarrow> slide_score r \<noteq> 0 \<Longrightarrow> slide n r \<noteq> r"
    by (rule slide_score_moves) (simp_all add: row_length_in)
  have rslide_mv: "\<And>h r. grid_ok n h \<Longrightarrow> r \<in> set h \<Longrightarrow> slide_score (rev r) \<noteq> 0 \<Longrightarrow> rslide n r \<noteq> r"
  proof -
    fix h r assume "grid_ok n h" "r \<in> set h" "slide_score (rev r) \<noteq> 0"
    then have "slide n (rev r) \<noteq> rev r"
      by (intro slide_score_moves) (simp_all add: row_length_in)
    then show "rslide n r \<noteq> r" by (metis rev_rev_ident rslide_def)
  qed
  show ?thesis
    using gain ok okT slide_mv [OF ok] slide_mv [OF okT] rslide_mv [OF ok] rslide_mv [OF okT]
    by (cases d) (auto simp: spec_move_fixed, blast)
qed

subsection \<open>\<open>canMove\<close> against the moves\<close>

lemma all_directions: "(\<forall>d. P d) \<longleftrightarrow> P Up \<and> P Down \<and> P Left \<and> P Right"
  by (metis direction.exhaust)

lemma rows_fixed_both:
  "grid_ok n g \<Longrightarrow>
     (\<forall>r\<in>set g. slide n r = r) \<and> (\<forall>r\<in>set g. rslide n r = r) \<longleftrightarrow> (\<forall>r\<in>set g. line_stuck r)"
proof -
  assume ok: "grid_ok n g"
  have "\<And>r. r \<in> set g \<Longrightarrow> (slide n r = r \<and> rslide n r = r) \<longleftrightarrow> line_stuck r"
    using line_fixed_both [OF row_length_in [OF ok]] by (simp add: line_stuck_def)
  then show ?thesis by blast
qed

lemma all_moves_fixed:
  assumes ok: "grid_ok n g"
  shows "(\<forall>d. spec_move n d g = g) \<longleftrightarrow>
           (\<forall>r\<in>set g. line_stuck r) \<and> (\<forall>c\<in>set (transpose_sq n g). line_stuck c)"
proof -
  have okT: "grid_ok n (transpose_sq n g)" using ok by (simp add: grid_simps)
  show ?thesis
    using rows_fixed_both [OF ok] rows_fixed_both [OF okT] ok
    by (simp add: all_directions spec_move_fixed) blast
qed

lemma stuck_row_nth:
  assumes "length r = n"
  shows "line_stuck r \<longleftrightarrow> (\<forall>j<n. r ! j = 0) \<or>
            ((\<forall>j<n. r ! j \<noteq> 0) \<and> \<not> (\<exists>j. Suc j < n \<and> r ! j = r ! Suc j))"
  using assms by (auto simp: line_stuck_def list_all_length has_pair_nth in_set_conv_nth)

lemma can_move_nth:
  "can_move n g \<longleftrightarrow> (\<exists>i<n. \<exists>j<n. g ! i ! j = 0) \<or>
     (\<exists>i<n. \<exists>j<n. (Suc i < n \<and> g ! Suc i ! j = g ! i ! j) \<or>
                  (Suc j < n \<and> g ! i ! Suc j = g ! i ! j))"
proof -
  have e: "\<And>P. list_ex P [0..<n] \<longleftrightarrow> (\<exists>i<n. P i)" by (auto simp: list_ex_iff)
  show ?thesis by (simp only: can_move_def e Let_def less_diff_conv Suc_eq_plus1)
qed

lemma set_grid_all:
  "grid_ok n g \<Longrightarrow> (\<forall>r\<in>set g. P r) \<longleftrightarrow> (\<forall>i<n. P (g ! i))"
  by (simp add: all_set_conv_all_nth grid_simps)

lemma rows_stuck_nth:
  assumes ok: "grid_ok n g"
  shows "(\<forall>r\<in>set g. line_stuck r) \<longleftrightarrow>
      (\<forall>i<n. (\<forall>j<n. g ! i ! j = 0) \<or>
        ((\<forall>j<n. g ! i ! j \<noteq> 0) \<and> \<not> (\<exists>j. Suc j < n \<and> g ! i ! j = g ! i ! Suc j)))"
proof -
  have "\<And>i. i < n \<Longrightarrow> line_stuck (g ! i) \<longleftrightarrow> (\<forall>j<n. g ! i ! j = 0) \<or>
        ((\<forall>j<n. g ! i ! j \<noteq> 0) \<and> \<not> (\<exists>j. Suc j < n \<and> g ! i ! j = g ! i ! Suc j))"
    using ok by (intro stuck_row_nth) (simp add: grid_simps)
  then show ?thesis by (simp add: set_grid_all [OF ok])
qed

lemma cols_stuck_nth:
  assumes ok: "grid_ok n g"
  shows "(\<forall>c\<in>set (transpose_sq n g). line_stuck c) \<longleftrightarrow>
      (\<forall>j<n. (\<forall>i<n. g ! i ! j = 0) \<or>
        ((\<forall>i<n. g ! i ! j \<noteq> 0) \<and> \<not> (\<exists>i. Suc i < n \<and> g ! i ! j = g ! Suc i ! j)))"
proof -
  have okT: "grid_ok n (transpose_sq n g)" using ok by (simp add: grid_simps)
  have T: "\<And>i j. i < n \<Longrightarrow> j < n \<Longrightarrow> transpose_sq n g ! j ! i = g ! i ! j"
    using ok by (simp add: grid_simps)
  have "\<And>j. j < n \<Longrightarrow> (\<forall>i<n. transpose_sq n g ! j ! i = 0) \<longleftrightarrow> (\<forall>i<n. g ! i ! j = 0)"
    and "\<And>j. j < n \<Longrightarrow> (\<forall>i<n. transpose_sq n g ! j ! i \<noteq> 0) \<longleftrightarrow> (\<forall>i<n. g ! i ! j \<noteq> 0)"
    and "\<And>j. j < n \<Longrightarrow> (\<exists>i. Suc i < n \<and> transpose_sq n g ! j ! i = transpose_sq n g ! j ! Suc i)
           \<longleftrightarrow> (\<exists>i. Suc i < n \<and> g ! i ! j = g ! Suc i ! j)"
    using T by auto
  with rows_stuck_nth [OF okT] show ?thesis by simp
qed

lemma can_move_full:
  assumes nz: "\<forall>i<n. \<forall>j<n. g ! i ! j \<noteq> 0"
  shows "can_move n g \<longleftrightarrow> (\<exists>i<n. \<exists>j. Suc j < n \<and> g ! i ! j = g ! i ! Suc j) \<or>
                          (\<exists>j<n. \<exists>i. Suc i < n \<and> g ! i ! j = g ! Suc i ! j)"
proof
  assume cm: "can_move n g"
  have "\<not> (\<exists>i<n. \<exists>j<n. g ! i ! j = 0)" using nz by blast
  with cm have "\<exists>i<n. \<exists>j<n. (Suc i < n \<and> g ! Suc i ! j = g ! i ! j) \<or>
                               (Suc j < n \<and> g ! i ! Suc j = g ! i ! j)"
    unfolding can_move_nth by blast
  then obtain i j where ij: "i < n" "j < n"
    and "(Suc i < n \<and> g ! Suc i ! j = g ! i ! j) \<or> (Suc j < n \<and> g ! i ! Suc j = g ! i ! j)"
    by blast
  then show "(\<exists>i<n. \<exists>j. Suc j < n \<and> g ! i ! j = g ! i ! Suc j) \<or>
             (\<exists>j<n. \<exists>i. Suc i < n \<and> g ! i ! j = g ! Suc i ! j)"
    by (metis)
next
  assume "(\<exists>i<n. \<exists>j. Suc j < n \<and> g ! i ! j = g ! i ! Suc j) \<or>
          (\<exists>j<n. \<exists>i. Suc i < n \<and> g ! i ! j = g ! Suc i ! j)"
  then show "can_move n g"
  proof
    assume "\<exists>i<n. \<exists>j. Suc j < n \<and> g ! i ! j = g ! i ! Suc j"
    then obtain i j where "i < n" "Suc j < n" "g ! i ! Suc j = g ! i ! j" by metis
    then show ?thesis unfolding can_move_nth by (metis Suc_lessD)
  next
    assume "\<exists>j<n. \<exists>i. Suc i < n \<and> g ! i ! j = g ! Suc i ! j"
    then obtain i j where "j < n" "Suc i < n" "g ! Suc i ! j = g ! i ! j" by metis
    then show ?thesis unfolding can_move_nth by (metis Suc_lessD)
  qed
qed

lemma can_move_iff_not_stuck:
  assumes ok: "grid_ok n g" and tile: "\<exists>i<n. \<exists>j<n. g ! i ! j \<noteq> 0"
  shows "can_move n g \<longleftrightarrow>
           \<not> ((\<forall>r\<in>set g. line_stuck r) \<and> (\<forall>c\<in>set (transpose_sq n g). line_stuck c))"
proof (cases "\<exists>i<n. \<exists>j<n. g ! i ! j = 0")
  case True
  then obtain i0 j0 where z: "i0 < n" "j0 < n" "g ! i0 ! j0 = 0" by blast
  from tile obtain i1 j1 where nz: "i1 < n" "j1 < n" "g ! i1 ! j1 \<noteq> 0" by blast
  have "\<not> ((\<forall>r\<in>set g. line_stuck r) \<and> (\<forall>c\<in>set (transpose_sq n g). line_stuck c))"
  proof
    assume st: "(\<forall>r\<in>set g. line_stuck r) \<and> (\<forall>c\<in>set (transpose_sq n g). line_stuck c)"
    then have R: "\<forall>i<n. (\<forall>j<n. g ! i ! j = 0) \<or>
        ((\<forall>j<n. g ! i ! j \<noteq> 0) \<and> \<not> (\<exists>j. Suc j < n \<and> g ! i ! j = g ! i ! Suc j))"
      using conjunct1 [OF st] by (simp only: rows_stuck_nth [OF ok])
    from st have C: "\<forall>j<n. (\<forall>i<n. g ! i ! j = 0) \<or>
        ((\<forall>i<n. g ! i ! j \<noteq> 0) \<and> \<not> (\<exists>i. Suc i < n \<and> g ! i ! j = g ! Suc i ! j))"
      using conjunct2 [OF st] by (simp only: cols_stuck_nth [OF ok])
    have D1: "(\<forall>j<n. g ! i0 ! j = 0) \<or> (\<forall>j<n. g ! i0 ! j \<noteq> 0)"
      using R [rule_format, OF z(1)] by blast
    have N1: "\<not> (\<forall>j<n. g ! i0 ! j \<noteq> 0)" using z(2,3) by blast
    from D1 N1 have "\<forall>j<n. g ! i0 ! j = 0" by (metis (no_types))
    then have row0: "g ! i0 ! j1 = 0" using nz(2) by simp
    have D2: "(\<forall>i<n. g ! i ! j1 = 0) \<or> (\<forall>i<n. g ! i ! j1 \<noteq> 0)"
      using C [rule_format, OF nz(2)] by blast
    have N2: "\<not> (\<forall>i<n. g ! i ! j1 = 0)"
    proof
      assume "\<forall>i<n. g ! i ! j1 = 0"
      with nz(1) have "g ! i1 ! j1 = 0" by simp
      with nz(3) show False by simp
    qed
    from D2 N2 have "\<forall>i<n. g ! i ! j1 \<noteq> 0" by (metis (no_types))
    then have "g ! i0 ! j1 \<noteq> 0" using z(1) by simp
    with row0 show False by simp
  qed
  moreover have "can_move n g" using z unfolding can_move_nth by blast
  ultimately show ?thesis by blast
next
  case False
  then have nz: "\<forall>i<n. \<forall>j<n. g ! i ! j \<noteq> 0" by simp
  from tile have pos: "0 < n" by (auto simp: gr0I)
  then have nn: "(\<forall>j::nat. \<not> j < n) \<longleftrightarrow> False" by blast
  have "(\<forall>r\<in>set g. line_stuck r) \<longleftrightarrow> (\<forall>i<n. \<not> (\<exists>j. Suc j < n \<and> g ! i ! j = g ! i ! Suc j))"
    using rows_stuck_nth [OF ok] nz by (simp add: nn)
  moreover have "(\<forall>c\<in>set (transpose_sq n g). line_stuck c) \<longleftrightarrow>
                 (\<forall>j<n. \<not> (\<exists>i. Suc i < n \<and> g ! i ! j = g ! Suc i ! j))"
    using cols_stuck_nth [OF ok] nz by (simp add: nn)
  ultimately show ?thesis using can_move_full [OF nz] by blast
qed

section \<open>Properties of the moves\<close>

text \<open>
  C1. Refinement: on a square grid, \<open>move\<close>'s \<open>switch\<close> computes the reference move of the
  spec for every direction, and adds to the score exactly the reference gain (the sum
  of the values of the merged tiles).
\<close>

theorem move_grid_refines:
  "grid_ok n g \<Longrightarrow> move_grid n d g s = (spec_move n d g, s + spec_gain n d g)"
  by (cases d) (simp_all add: move_grid_def move_branch_specs)

theorem move_grid_refines_witness:
  "grid_ok 4 [[2, 2, 0, 4], [0, 0, 0, 0], [4, 0, 4, 8], [2, 4, 8, 16]] \<and>
   move_grid 4 Up [[2, 2, 0, 4], [0, 0, 0, 0], [4, 0, 4, 8], [2, 4, 8, 16]] 0 =
     (spec_move 4 Up [[2, 2, 0, 4], [0, 0, 0, 0], [4, 0, 4, 8], [2, 4, 8, 16]],
      0 + spec_gain 4 Up [[2, 2, 0, 4], [0, 0, 0, 0], [4, 0, 4, 8], [2, 4, 8, 16]])"
proof -
  have ok: "grid_ok 4 [[2, 2, 0, 4], [0, 0, 0, 0], [4, 0, 4, 8], [2, 4, 8, 16::nat]]"
    by (simp add: grid_ok_def)
  show ?thesis using ok move_grid_refines [OF ok] by simp
qed

text \<open>
  C5. Merge conservation: a move never changes the sum of the values on the board.
\<close>

theorem move_grid_conserves_sum:
  "grid_ok n g \<Longrightarrow> grid_sum (fst (move_grid n d g s)) = grid_sum g"
  by (simp add: move_grid_fst spec_move_sum)

theorem move_grid_conserves_sum_witness:
  "grid_ok 4 [[2, 2, 0, 4], [0, 0, 0, 0], [4, 0, 4, 8], [2, 4, 8, 16]] \<and>
   grid_sum (fst (move_grid 4 Right [[2, 2, 0, 4], [0, 0, 0, 0], [4, 0, 4, 8], [2, 4, 8, 16]] 0)) =
   grid_sum [[2, 2, 0, 4], [0, 0, 0, 0], [4, 0, 4, 8], [2, 4, 8, 16]]"
proof -
  have ok: "grid_ok 4 [[2, 2, 0, 4], [0, 0, 0, 0], [4, 0, 4, 8], [2, 4, 8, 16::nat]]"
    by (simp add: grid_ok_def)
  show ?thesis using ok move_grid_conserves_sum [OF ok] by simp
qed

text \<open>
  C6. A move keeps the grid \<open>this.size\<close> by \<open>this.size\<close>: padding restores every row and
  column to full length.
\<close>

theorem move_grid_keeps_shape:
  "grid_ok n g \<Longrightarrow> grid_ok n (fst (move_grid n d g s))"
  by (simp add: move_grid_fst spec_move_ok)

theorem move_grid_keeps_shape_witness:
  "grid_ok 4 [[2, 2, 0, 4], [0, 0, 0, 0], [4, 0, 4, 8], [2, 4, 8, 16]] \<and>
   grid_ok 4 (fst (move_grid 4 Down [[2, 2, 0, 4], [0, 0, 0, 0], [4, 0, 4, 8], [2, 4, 8, 16]] 0))"
proof -
  have ok: "grid_ok 4 [[2, 2, 0, 4], [0, 0, 0, 0], [4, 0, 4, 8], [2, 4, 8, 16::nat]]"
    by (simp add: grid_ok_def)
  show ?thesis using ok move_grid_keeps_shape [OF ok] by simp
qed

text \<open>
  C7. Tile invariant: if every cell is empty or a power of two at least 2, it still is
  after any move.
\<close>

theorem move_grid_keeps_tiles:
  "grid_ok n g \<Longrightarrow> grid_tiles g \<Longrightarrow> grid_tiles (fst (move_grid n d g s))"
  by (simp add: move_grid_fst spec_move_tiles)

theorem move_grid_keeps_tiles_witness:
  "grid_ok 4 [[2, 2, 0, 4], [0, 0, 0, 0], [4, 0, 4, 8], [2, 4, 8, 16]] \<and>
   grid_tiles [[2, 2, 0, 4], [0, 0, 0, 0], [4, 0, 4, 8], [2, 4, 8, 16]] \<and>
   grid_tiles (fst (move_grid 4 Left [[2, 2, 0, 4], [0, 0, 0, 0], [4, 0, 4, 8], [2, 4, 8, 16]] 0))"
proof -
  have ok: "grid_ok 4 [[2, 2, 0, 4], [0, 0, 0, 0], [4, 0, 4, 8], [2, 4, 8, 16::nat]]"
    by (simp add: grid_ok_def)
  have t: "grid_tiles [[2, 2, 0, 4], [0, 0, 0, 0], [4, 0, 4, 8], [2, 4, 8, 16::nat]]"
    by code_simp
  show ?thesis using ok t move_grid_keeps_tiles [OF ok t] by simp
qed

text \<open>
  C8. A move that scores changes the board: the code adds to \<open>this.score\<close> before it
  knows whether the move is accepted, and this shows the score can only grow on an
  accepted move.
\<close>

theorem move_score_implies_moved:
  assumes "grid_ok n g" and "snd (move_grid n d g s) \<noteq> s"
  shows "grid_changed n g (fst (move_grid n d g s))"
proof -
  from assms have "spec_gain n d g \<noteq> 0" by (simp add: move_grid_snd)
  with assms(1) have "spec_move n d g \<noteq> g" by (rule spec_gain_moves)
  with assms(1) show ?thesis
    by (simp add: move_grid_fst grid_changed_iff spec_move_ok)
qed

theorem move_score_implies_moved_witness:
  "grid_ok 4 [[2, 2, 0, 4], [0, 0, 0, 0], [4, 0, 4, 8], [2, 4, 8, 16]] \<and>
   snd (move_grid 4 Left [[2, 2, 0, 4], [0, 0, 0, 0], [4, 0, 4, 8], [2, 4, 8, 16]] 0) \<noteq> 0 \<and>
   grid_changed 4 [[2, 2, 0, 4], [0, 0, 0, 0], [4, 0, 4, 8], [2, 4, 8, 16]]
     (fst (move_grid 4 Left [[2, 2, 0, 4], [0, 0, 0, 0], [4, 0, 4, 8], [2, 4, 8, 16]] 0))"
proof -
  have ok: "grid_ok 4 [[2, 2, 0, 4], [0, 0, 0, 0], [4, 0, 4, 8], [2, 4, 8, 16::nat]]"
    by (simp add: grid_ok_def)
  have sc: "snd (move_grid 4 Left [[2, 2, 0, 4], [0, 0, 0, 0], [4, 0, 4, 8], [2, 4, 8, 16]] 0) \<noteq> 0"
    by code_simp
  show ?thesis using ok sc move_score_implies_moved [OF ok sc] by simp
qed

text \<open>
  C9. The \<open>moved\<close> flag of \<open>move\<close> is true exactly when the reference move changes the
  board: a move is accepted (grid replaced, tile spawned) exactly when it does something.
\<close>

theorem moved_flag_correct:
  "grid_ok n g \<Longrightarrow> grid_changed n g (fst (move_grid n d g s)) \<longleftrightarrow> spec_move n d g \<noteq> g"
  by (auto simp: move_grid_fst grid_changed_iff spec_move_ok)

theorem moved_flag_correct_witness:
  "grid_ok 4 [[2, 4, 8, 16], [0, 0, 0, 0], [0, 0, 0, 0], [0, 0, 0, 0]] \<and>
   (grid_changed 4 [[2, 4, 8, 16], [0, 0, 0, 0], [0, 0, 0, 0], [0, 0, 0, 0]]
      (fst (move_grid 4 Up [[2, 4, 8, 16], [0, 0, 0, 0], [0, 0, 0, 0], [0, 0, 0, 0]] 0)) \<longleftrightarrow>
    spec_move 4 Up [[2, 4, 8, 16], [0, 0, 0, 0], [0, 0, 0, 0], [0, 0, 0, 0]] \<noteq>
      [[2, 4, 8, 16], [0, 0, 0, 0], [0, 0, 0, 0], [0, 0, 0, 0]])"
proof -
  have ok: "grid_ok 4 [[2, 4, 8, 16], [0, 0, 0, 0], [0, 0, 0, 0], [0, 0, 0, 0::nat]]"
    by (simp add: grid_ok_def)
  show ?thesis using ok moved_flag_correct [OF ok] by simp
qed

text \<open>
  C10. The up branch (a loop over columns) is the left branch applied to the transposed
  grid, transposed back, with the same score: the two code paths agree on tie-breaking.
\<close>

theorem up_is_left_transposed:
  "grid_ok n g \<Longrightarrow>
   move_grid n Up g s =
     (transpose_sq n (fst (move_grid n Left (transpose_sq n g) s)),
      snd (move_grid n Left (transpose_sq n g) s))"
  by (simp add: move_grid_def move_branch_specs grid_simps)

theorem up_is_left_transposed_witness:
  "grid_ok 4 [[2, 2, 0, 4], [0, 0, 0, 0], [4, 0, 4, 8], [2, 4, 8, 16]] \<and>
   move_grid 4 Up [[2, 2, 0, 4], [0, 0, 0, 0], [4, 0, 4, 8], [2, 4, 8, 16]] 0 =
     (transpose_sq 4 (fst (move_grid 4 Left
        (transpose_sq 4 [[2, 2, 0, 4], [0, 0, 0, 0], [4, 0, 4, 8], [2, 4, 8, 16]]) 0)),
      snd (move_grid 4 Left (transpose_sq 4 [[2, 2, 0, 4], [0, 0, 0, 0], [4, 0, 4, 8], [2, 4, 8, 16]]) 0))"
proof -
  have ok: "grid_ok 4 [[2, 2, 0, 4], [0, 0, 0, 0], [4, 0, 4, 8], [2, 4, 8, 16::nat]]"
    by (simp add: grid_ok_def)
  show ?thesis using ok up_is_left_transposed [OF ok] by simp
qed

text \<open>
  \<open>checkGameStatus\<close> on the spec's examples: a full checkerboard of 2 and 4 is lost;
  a full board with no move left that holds a 2048 tile is won (the win test comes first).
\<close>

theorem check_game_status_examples:
  "check_game_status 4 [[2, 4, 2, 4], [4, 2, 4, 2], [2, 4, 2, 4], [4, 2, 4, 2]] = Some Over \<and>
   check_game_status 4 [[2048, 4, 2, 4], [4, 2, 4, 2], [2, 4, 2, 4], [4, 2, 4, 2]] = Some Won \<and>
   check_game_status 4 [[2, 2, 0, 4], [0, 0, 0, 0], [4, 0, 4, 8], [2, 4, 8, 16]] = None"
  by code_simp

text \<open>
  C11. \<open>canMove\<close> is exact on every board that holds a tile: it reports a possible move
  exactly when some direction's move changes the board. (On the all-empty board, which
  no run of the game reaches, it reports a move although none changes anything.)
\<close>

theorem can_move_iff_some_move:
  assumes "grid_ok n g" and "\<exists>i<n. \<exists>j<n. g ! i ! j \<noteq> 0"
  shows "can_move n g \<longleftrightarrow> (\<exists>d. grid_changed n g (fst (move_grid n d g s)))"
proof -
  have "(\<exists>d. grid_changed n g (fst (move_grid n d g s))) \<longleftrightarrow> \<not> (\<forall>d. spec_move n d g = g)"
    using assms(1) by (simp add: move_grid_fst grid_changed_iff spec_move_ok) metis
  also have "\<dots> \<longleftrightarrow> can_move n g"
    using all_moves_fixed [OF assms(1)] can_move_iff_not_stuck [OF assms] by simp
  finally show ?thesis by simp
qed

theorem can_move_iff_some_move_witness:
  "grid_ok 4 [[2, 4, 2, 4], [4, 2, 4, 2], [2, 4, 2, 4], [4, 2, 4, 4]] \<and>
   (\<exists>i<4. \<exists>j<4. [[2, 4, 2, 4], [4, 2, 4, 2], [2, 4, 2, 4], [4, 2, 4, 4::nat]] ! i ! j \<noteq> 0) \<and>
   (can_move 4 [[2, 4, 2, 4], [4, 2, 4, 2], [2, 4, 2, 4], [4, 2, 4, 4]] \<longleftrightarrow>
    (\<exists>d. grid_changed 4 [[2, 4, 2, 4], [4, 2, 4, 2], [2, 4, 2, 4], [4, 2, 4, 4]]
          (fst (move_grid 4 d [[2, 4, 2, 4], [4, 2, 4, 2], [2, 4, 2, 4], [4, 2, 4, 4]] 0))))"
proof -
  have ok: "grid_ok 4 [[2, 4, 2, 4], [4, 2, 4, 2], [2, 4, 2, 4], [4, 2, 4, 4::nat]]"
    by (simp add: grid_ok_def)
  have t: "\<exists>i<4. \<exists>j<4. [[2, 4, 2, 4], [4, 2, 4, 2], [2, 4, 2, 4], [4, 2, 4, 4::nat]] ! i ! j \<noteq> 0"
    by (rule exI [of _ 0], simp, rule exI [of _ 0], simp)
  show ?thesis using ok t can_move_iff_some_move [OF ok t] by simp
qed

text \<open>
  The one board where \<open>canMove\<close> and the moves disagree: on the empty board
  \<open>canMove\<close> is true, yet no direction changes the board.
\<close>

theorem can_move_empty_board:
  "can_move 4 (replicate 4 (replicate 4 0)) \<and>
   (\<forall>d. \<not> grid_changed 4 (replicate 4 (replicate 4 0))
          (fst (move_grid 4 d (replicate 4 (replicate 4 0)) 0)))"
  by (simp add: all_directions) code_simp

end
