(* ===== verification/Spawn.thy ===== *)
theory Spawn
  imports Board Complex_Main
begin

text \<open>
  \<open>addRandomTile\<close> and the grid of \<open>init\<close> (\<open>src/script.js\<close>, lines 19--38 and 124--142).
  The two \<open>Math.random()\<close> draws are inputs (\<open>r1\<close> picks the cell, \<open>r2\<close> the value), so
  the randomness is injected as the spec asks; \<open>rand_ok\<close> says a draw lies in
  \<open>[0, 1)\<close>, as \<open>Math.random()\<close> guarantees. The lemmas show that the picked index is in
  range and that every empty cell is picked on an interval of draws of width \<open>1/len\<close>,
  that a spawn fills exactly one empty cell with 2 or 4 (and does nothing on a full
  board), and that \<open>init\<close> leaves exactly two tiles.
\<close>

section \<open>Definitions\<close>

definition empty_cells :: "nat \<Rightarrow> grid \<Rightarrow> (nat \<times> nat) list" where
  "empty_cells n grid =
     concat (map (\<lambda>i. concat (map (\<lambda>j. if grid ! i ! j = 0 then [(i, j)] else []) [0..<n])) [0..<n])"

text \<open>\<open>Math.floor(Math.random() * emptyCells.length)\<close> (line 136) for a draw \<open>r\<close>.\<close>

definition random_index :: "real \<Rightarrow> nat \<Rightarrow> nat" where
  "random_index r len = nat \<lfloor>r * real len\<rfloor>"

text \<open>\<open>Math.random() < 0.9 ? 2 : 4\<close> (line 137).\<close>

definition random_value :: "real \<Rightarrow> nat" where
  "random_value r = (if r < 0.9 then 2 else 4)"

text \<open>
  \<open>addRandomTile\<close> (lines 124--142) with its two \<open>Math.random()\<close> draws \<open>r1\<close>, \<open>r2\<close> as inputs;
  \<open>createTile\<close> only draws the tile.
\<close>

definition add_random_tile :: "nat \<Rightarrow> real \<Rightarrow> real \<Rightarrow> grid \<Rightarrow> grid" where
  "add_random_tile n r1 r2 grid =
     (let cells = empty_cells n grid
      in if 0 < length cells then
           (let (x, y) = cells ! random_index r1 (length cells)
            in grid[x := (grid ! x)[y := random_value r2]])
         else grid)"

text \<open>The grid-clearing loops of \<open>init\<close> (lines 21--27).\<close>

definition empty_grid :: "nat \<Rightarrow> grid" where
  "empty_grid n = map (\<lambda>i. map (\<lambda>j. 0) [0..<n]) [0..<n]"

text \<open>\<open>init\<close>'s grid (lines 19--38): cleared, then two \<open>addRandomTile\<close> calls.\<close>

definition init_grid :: "nat \<Rightarrow> real \<Rightarrow> real \<Rightarrow> real \<Rightarrow> real \<Rightarrow> grid" where
  "init_grid n a1 a2 b1 b2 = add_random_tile n b1 b2 (add_random_tile n a1 a2 (empty_grid n))"

text \<open>A value \<open>Math.random()\<close> can return, and the number of tiles on a grid.\<close>

definition rand_ok :: "real \<Rightarrow> bool" where
  "rand_ok r \<longleftrightarrow> 0 \<le> r \<and> r < 1"

definition tile_count :: "grid \<Rightarrow> nat" where
  "tile_count g = sum_list (map (\<lambda>r. length (nonzeros r)) g)"

section \<open>Lemmas\<close>

lemma set_empty_cells:
  "set (empty_cells n g) = {(i, j). i < n \<and> j < n \<and> g ! i ! j = 0}"
  by (auto simp: empty_cells_def split: if_splits)

lemma random_index_bound:
  assumes "rand_ok r" and "0 < len"
  shows "random_index r len < len"
proof -
  from assms have "r * real len < real len" by (simp add: rand_ok_def)
  moreover from assms have "0 \<le> r * real len" by (simp add: rand_ok_def)
  ultimately show ?thesis
    by (simp add: random_index_def nat_less_iff floor_less_iff)
qed

lemma random_index_eq:
  assumes "rand_ok r" and "k < len"
  shows "random_index r len = k \<longleftrightarrow> real k / real len \<le> r \<and> r < (real k + 1) / real len"
proof -
  from assms have pos: "0 < real len" by simp
  from assms have nn: "0 \<le> r * real len" by (simp add: rand_ok_def)
  have "random_index r len = k \<longleftrightarrow> \<lfloor>r * real len\<rfloor> = int k"
    using nn by (auto simp: random_index_def)
  also have "\<dots> \<longleftrightarrow> real k \<le> r * real len \<and> r * real len < real k + 1"
    by (simp add: floor_eq_iff)
  also have "\<dots> \<longleftrightarrow> real k / real len \<le> r \<and> r < (real k + 1) / real len"
    using pos by (simp add: divide_le_eq less_divide_eq mult.commute)
  finally show ?thesis .
qed

lemma sum_list_update_add:
  "k < length xs \<Longrightarrow> sum_list (xs[k := xs ! k + d]) = sum_list xs + (d::nat)"
  by (induction xs arbitrary: k) (auto split: nat.splits)

lemma spawn_cell:
  assumes "rand_ok r1" and "empty_cells n g \<noteq> []"
  obtains i j where "i < n" "j < n" "g ! i ! j = 0"
    and "add_random_tile n r1 r2 g = g[i := (g ! i)[j := random_value r2]]"
proof -
  let ?cells = "empty_cells n g"
  have k: "random_index r1 (length ?cells) < length ?cells"
    using assms by (simp add: random_index_bound)
  obtain i j where ij: "?cells ! random_index r1 (length ?cells) = (i, j)" by fastforce
  then have "(i, j) \<in> set ?cells" using k by (metis nth_mem)
  then have "i < n" "j < n" "g ! i ! j = 0" by (simp_all add: set_empty_cells)
  moreover have "add_random_tile n r1 r2 g = g[i := (g ! i)[j := random_value r2]]"
    using assms ij by (simp add: add_random_tile_def Let_def)
  ultimately show ?thesis using that by blast
qed

lemma full_no_spawn: "empty_cells n g = [] \<Longrightarrow> add_random_tile n r1 r2 g = g"
  by (simp add: add_random_tile_def)

lemma grid_ok_set_cell:
  "grid_ok n g \<Longrightarrow> i < n \<Longrightarrow> grid_ok n (g[i := (g ! i)[j := v]])"
  by (rule grid_okI) (simp_all add: grid_simps nth_list_update)

lemma set_cell_nth:
  "grid_ok n g \<Longrightarrow> i < n \<Longrightarrow> j < n \<Longrightarrow> a < n \<Longrightarrow> b < n \<Longrightarrow>
     g[i := (g ! i)[j := v]] ! a ! b = (if a = i \<and> b = j then v else g ! a ! b)"
  by (simp add: nth_list_update grid_simps)

lemma grid_sum_set_cell:
  assumes "grid_ok n g" "i < n" "j < n" "g ! i ! j = 0"
  shows "grid_sum (g[i := (g ! i)[j := v]]) = grid_sum g + v"
proof -
  have li: "i < length g" and lj: "j < length (g ! i)" using assms by (simp_all add: grid_simps)
  have "sum_list ((g ! i)[j := v]) = sum_list (g ! i) + v"
    using sum_list_update_add [OF lj, of v] assms(4) by simp
  then have "map sum_list (g[i := (g ! i)[j := v]]) =
             (map sum_list g)[i := map sum_list g ! i + v]"
    using li by (simp add: map_update)
  then show ?thesis
    using sum_list_update_add [of i "map sum_list g" v] li by (simp add: grid_sum_def)
qed

lemma length_nonzeros_set:
  assumes "j < length r" "r ! j = 0" "v \<noteq> 0"
  shows "length (nonzeros (r[j := v])) = length (nonzeros r) + 1"
  using assms
proof (induction r arbitrary: j)
  case Nil
  then show ?case by simp
next
  case (Cons a r)
  then show ?case by (cases j) (auto simp: nonzeros_def)
qed

lemma tile_count_set_cell:
  assumes "grid_ok n g" "i < n" "j < n" "g ! i ! j = 0" "v \<noteq> 0"
  shows "tile_count (g[i := (g ! i)[j := v]]) = tile_count g + 1"
proof -
  have li: "i < length g" and lj: "j < length (g ! i)" using assms by (simp_all add: grid_simps)
  let ?c = "\<lambda>r. length (nonzeros r)"
  have "map ?c (g[i := (g ! i)[j := v]]) = (map ?c g)[i := map ?c g ! i + 1]"
    using li length_nonzeros_set [OF lj assms(4,5)] by (simp add: map_update)
  then show ?thesis
    using sum_list_update_add [of i "map ?c g" 1] li by (simp add: tile_count_def)
qed

lemma grid_tiles_set_cell:
  assumes "grid_ok n g" "i < n" "j < n" "grid_tiles g" "tile_ok v"
  shows "grid_tiles (g[i := (g ! i)[j := v]])"
proof -
  have "\<forall>a<n. \<forall>b<n. tile_ok (g ! a ! b)" using assms by (simp add: grid_tiles_entries)
  then have "\<forall>a<n. \<forall>b<n. tile_ok (g[i := (g ! i)[j := v]] ! a ! b)"
    using assms by (simp add: set_cell_nth)
  then show ?thesis
    using assms by (simp add: grid_tiles_entries [of n] grid_ok_set_cell)
qed

lemma random_value_cases: "random_value r = 2 \<or> random_value r = 4"
  by (simp add: random_value_def)

lemma tile_ok_random_value: "tile_ok (random_value r)"
  by (auto simp: random_value_def tile_ok_def is_pow2.simps)

lemma random_value_pos: "random_value r \<noteq> 0"
  by (simp add: random_value_def)

lemma spawn_effects:
  assumes ok: "grid_ok n g" and r: "rand_ok r1" and ne: "empty_cells n g \<noteq> []"
  shows "grid_ok n (add_random_tile n r1 r2 g)"
    and "grid_sum (add_random_tile n r1 r2 g) = grid_sum g + random_value r2"
    and "tile_count (add_random_tile n r1 r2 g) = tile_count g + 1"
    and "grid_tiles g \<Longrightarrow> grid_tiles (add_random_tile n r1 r2 g)"
proof -
  obtain i j where ij: "i < n" "j < n" "g ! i ! j = 0"
    and eq: "add_random_tile n r1 r2 g = g[i := (g ! i)[j := random_value r2]]"
    using spawn_cell [OF r ne] by blast
  show "grid_ok n (add_random_tile n r1 r2 g)"
    using ok ij by (simp add: eq grid_ok_set_cell)
  show "grid_sum (add_random_tile n r1 r2 g) = grid_sum g + random_value r2"
    using ok ij by (simp add: eq grid_sum_set_cell)
  show "tile_count (add_random_tile n r1 r2 g) = tile_count g + 1"
    using ok ij by (simp add: eq tile_count_set_cell random_value_pos)
  show "grid_tiles g \<Longrightarrow> grid_tiles (add_random_tile n r1 r2 g)"
    using ok ij by (simp add: eq grid_tiles_set_cell tile_ok_random_value)
qed

lemma empty_grid_facts:
  shows "grid_ok n (empty_grid n)"
    and "i < n \<Longrightarrow> j < n \<Longrightarrow> empty_grid n ! i ! j = 0"
    and "tile_count (empty_grid n) = 0"
  by (auto simp: empty_grid_def grid_ok_def list_all_length tile_count_def nonzeros_def
           intro!: sum_list_eq_0_iff [THEN iffD2])

lemma spawn_on_cells:
  assumes ok: "grid_ok n g" and r: "rand_ok r1"
    and z: "a < n" "b < n" "g ! a ! b = 0"
  obtains i j where "i < n" "j < n" "g ! i ! j = 0"
    and "add_random_tile n r1 r2 g = g[i := (g ! i)[j := random_value r2]]"
proof -
  have "(a, b) \<in> set (empty_cells n g)" using z by (simp add: set_empty_cells)
  then have "empty_cells n g \<noteq> []" by auto
  from spawn_cell [OF r this] that show ?thesis by blast
qed

lemma init_grid_two_tiles:
  assumes n: "2 \<le> n" and r: "rand_ok a1" "rand_ok b1"
  shows "grid_ok n (init_grid n a1 a2 b1 b2)"
    and "tile_count (init_grid n a1 a2 b1 b2) = 2"
    and "\<forall>i<n. \<forall>j<n. init_grid n a1 a2 b1 b2 ! i ! j \<in> {0, 2, 4}"
proof -
  let ?e = "empty_grid n"
  note E = empty_grid_facts [where n = n]
  from n have pos: "0 < n" by simp
  then have z: "?e ! 0 ! 0 = 0" using E(2) [where i = 0 and j = 0] by blast
  obtain i j where ij: "i < n" "j < n" "?e ! i ! j = 0"
    and g1: "add_random_tile n a1 a2 ?e = ?e[i := (?e ! i)[j := random_value a2]]"
    by (rule spawn_on_cells [OF E(1) r(1) pos pos z])
  let ?g1 = "?e[i := (?e ! i)[j := random_value a2]]"
  have ok1: "grid_ok n ?g1" using E(1) ij by (simp add: grid_ok_set_cell)
  define i' :: nat where "i' = (if i = 0 then 1 else 0)"
  have i': "i' < n" "i' \<noteq> i" using n by (auto simp: i'_def)
  have "?g1 ! i' ! j = 0" using E ij i' by (simp add: set_cell_nth)
  then obtain k l where kl: "k < n" "l < n" "?g1 ! k ! l = 0"
    and g2: "add_random_tile n b1 b2 ?g1 = ?g1[k := (?g1 ! k)[l := random_value b2]]"
    by (rule spawn_on_cells [OF ok1 r(2) i'(1) ij(2)])
  have init: "init_grid n a1 a2 b1 b2 = ?g1[k := (?g1 ! k)[l := random_value b2]]"
    by (simp add: init_grid_def g1 g2)
  show "grid_ok n (init_grid n a1 a2 b1 b2)"
    using ok1 kl by (simp add: init grid_ok_set_cell)
  have "tile_count ?g1 = 1"
    using E ij by (simp add: tile_count_set_cell random_value_pos)
  then show "tile_count (init_grid n a1 a2 b1 b2) = 2"
    using ok1 kl by (simp add: init tile_count_set_cell random_value_pos)
  show "\<forall>i<n. \<forall>j<n. init_grid n a1 a2 b1 b2 ! i ! j \<in> {0, 2, 4}"
  proof (intro allI impI)
    fix a b assume ab: "a < n" "b < n"
    have "?g1 ! a ! b = (if a = i \<and> b = j then random_value a2 else 0)"
      using E ij ab by (simp add: set_cell_nth)
    then have "?g1 ! a ! b \<in> {0, 2, 4}" using random_value_cases [of a2] by auto
    moreover have "init_grid n a1 a2 b1 b2 ! a ! b =
        (if a = k \<and> b = l then random_value b2 else ?g1 ! a ! b)"
      using ok1 kl ab by (simp only: init set_cell_nth)
    ultimately show "init_grid n a1 a2 b1 b2 ! a ! b \<in> {0, 2, 4}"
      using random_value_cases [of b2] by auto
  qed
qed

section \<open>Properties of spawning\<close>

text \<open>
  C12. \<open>addRandomTile\<close> on a board with an empty cell writes 2 or 4 into exactly one
  cell that was empty, and changes nothing else: it never overwrites a tile.
\<close>

theorem spawn_fills_one_empty_cell:
  assumes "grid_ok n g" and "rand_ok r1" and "empty_cells n g \<noteq> []"
  shows "\<exists>i<n. \<exists>j<n. g ! i ! j = 0 \<and>
           add_random_tile n r1 r2 g = g[i := (g ! i)[j := random_value r2]] \<and>
           random_value r2 \<in> {2, 4}"
proof -
  obtain i j where "i < n" "j < n" "g ! i ! j = 0"
    and "add_random_tile n r1 r2 g = g[i := (g ! i)[j := random_value r2]]"
    using spawn_cell [OF assms(2,3)] by blast
  then show ?thesis using random_value_cases [of r2] by blast
qed

theorem spawn_fills_one_empty_cell_witness:
  "grid_ok 4 [[2, 0, 4, 0], [0, 0, 0, 0], [4, 2, 8, 16], [2, 2, 2, 2]] \<and> rand_ok (1/2) \<and> empty_cells 4 [[2, 0, 4, 0], [0, 0, 0, 0], [4, 2, 8, 16], [2, 2, 2, 2]] \<noteq> [] \<and>
   (\<exists>i<4. \<exists>j<4. [[2, 0, 4, 0], [0, 0, 0, 0], [4, 2, 8, 16], [2, 2, 2, 2::nat]] ! i ! j = 0 \<and>
      add_random_tile 4 (1/2) (95/100) [[2, 0, 4, 0], [0, 0, 0, 0], [4, 2, 8, 16], [2, 2, 2, 2]] = [[2, 0, 4, 0], [0, 0, 0, 0], [4, 2, 8, 16], [2, 2, 2, 2]][i := ([[2, 0, 4, 0], [0, 0, 0, 0], [4, 2, 8, 16], [2, 2, 2, 2]] ! i)[j := random_value (95/100)]] \<and>
      random_value (95/100) \<in> {2, 4})"
proof -
  have ok: "grid_ok 4 [[2, 0, 4, 0], [0, 0, 0, 0], [4, 2, 8, 16], [2, 2, 2, 2::nat]]" by (simp add: grid_ok_def)
  have r: "rand_ok (1/2)" by (simp add: rand_ok_def)
  have ne: "empty_cells 4 [[2, 0, 4, 0], [0, 0, 0, 0], [4, 2, 8, 16], [2, 2, 2, 2]] \<noteq> []" by code_simp
  show ?thesis
    by (rule conjI [OF ok conjI [OF r conjI [OF ne spawn_fills_one_empty_cell [OF ok r ne]]]])
qed

text \<open>
  C13. The cell choice is uniform: for \<open>len\<close> empty cells, the \<open>k\<close>-th is picked exactly
  for the draws in \<open>[k/len, (k+1)/len)\<close>, an interval of width \<open>1/len\<close>; in particular the
  index \<open>Math.floor(Math.random() * len)\<close> is always in range.
\<close>

theorem spawn_choice_uniform:
  assumes "rand_ok r" and "k < len"
  shows "random_index r len = k \<longleftrightarrow> real k / real len \<le> r \<and> r < (real k + 1) / real len"
  using assms by (rule random_index_eq)

theorem spawn_choice_uniform_witness:
  "rand_ok (1/2) \<and> (2::nat) < 4 \<and>
   (random_index (1/2) 4 = 2 \<longleftrightarrow> real 2 / real 4 \<le> (1/2::real) \<and> (1/2::real) < (real 2 + 1) / real 4)"
proof -
  have r: "rand_ok (1/2)" by (simp add: rand_ok_def)
  have k: "(2::nat) < 4" by simp
  show ?thesis using r k spawn_choice_uniform [OF r k] by simp
qed

text \<open>
  C14. Spawning adds mass only by the new tile: on a board with an empty cell the sum
  grows by the spawned value (2 or 4) and the number of tiles by one; on a full board
  \<open>addRandomTile\<close> is a no-op.
\<close>

theorem spawn_adds_one_tile:
  assumes "grid_ok n g" and "rand_ok r1"
  shows "(empty_cells n g \<noteq> [] \<longrightarrow>
            grid_sum (add_random_tile n r1 r2 g) = grid_sum g + random_value r2 \<and>
            tile_count (add_random_tile n r1 r2 g) = tile_count g + 1) \<and>
         (empty_cells n g = [] \<longrightarrow> add_random_tile n r1 r2 g = g)"
  using spawn_effects(2,3) [OF assms] full_no_spawn by blast

theorem spawn_adds_one_tile_witness:
  "grid_ok 4 [[2, 0, 4, 0], [0, 0, 0, 0], [4, 2, 8, 16], [2, 2, 2, 2]] \<and> rand_ok (1/2) \<and>
   grid_sum (add_random_tile 4 (1/2) (1/2) [[2, 0, 4, 0], [0, 0, 0, 0], [4, 2, 8, 16], [2, 2, 2, 2]]) = grid_sum [[2, 0, 4, 0], [0, 0, 0, 0], [4, 2, 8, 16], [2, 2, 2, 2]] + 2 \<and>
   tile_count (add_random_tile 4 (1/2) (1/2) [[2, 0, 4, 0], [0, 0, 0, 0], [4, 2, 8, 16], [2, 2, 2, 2]]) = tile_count [[2, 0, 4, 0], [0, 0, 0, 0], [4, 2, 8, 16], [2, 2, 2, 2]] + 1"
proof -
  have ok: "grid_ok 4 [[2, 0, 4, 0], [0, 0, 0, 0], [4, 2, 8, 16], [2, 2, 2, 2::nat]]" by (simp add: grid_ok_def)
  have r: "rand_ok (1/2)" by (simp add: rand_ok_def)
  have ne: "empty_cells 4 [[2, 0, 4, 0], [0, 0, 0, 0], [4, 2, 8, 16], [2, 2, 2, 2]] \<noteq> []" by code_simp
  have v: "random_value (1/2) = 2" by (simp add: random_value_def)
  show ?thesis using ok r ne v spawn_adds_one_tile [OF ok r, of "1/2"] by simp
qed

text \<open>
  C15. Seeding: after \<open>init\<close> on a board of size at least 2, with any two pairs of draws,
  the grid is square and holds exactly two tiles, each 2 or 4.
\<close>

theorem init_two_tiles:
  assumes "2 \<le> n" and "rand_ok a1" and "rand_ok b1"
  shows "grid_ok n (init_grid n a1 a2 b1 b2) \<and> tile_count (init_grid n a1 a2 b1 b2) = 2 \<and>
         (\<forall>i<n. \<forall>j<n. init_grid n a1 a2 b1 b2 ! i ! j \<in> {0, 2, 4})"
  using init_grid_two_tiles [OF assms] by blast

theorem init_two_tiles_witness:
  "2 \<le> (4::nat) \<and> rand_ok 0 \<and> rand_ok (99/100) \<and>
   tile_count (init_grid 4 0 (1/2) (99/100) (95/100)) = 2"
proof -
  have n: "2 \<le> (4::nat)" by simp
  have a: "rand_ok 0" and b: "rand_ok (99/100)" by (simp_all add: rand_ok_def)
  show ?thesis using n a b init_two_tiles [OF n a b, of "1/2" "95/100"] by simp
qed

end
