(* ===== verification/Input.thy ===== *)
theory Input
  imports Board Complex_Main
begin

text \<open>
  The input decoders of \<open>src/script.js\<close>: the game's \<open>keydown\<close> listener (lines 42--78),
  the CloudFone back-key listener of \<open>optimizeForCloudFone\<close> (lines 418--425) and the
  touch listeners (lines 96--121). A keydown runs every registered listener in
  registration order, so a key press decodes to a list of game actions;
  \<open>optimizeForCloudFone\<close> runs before \<open>new Game2048()\<close> (lines 447--450), so its listener
  comes first. A touch gesture is a \<open>touchstart\<close> that records the start point in the
  closure variables \<open>startX\<close>, \<open>startY\<close>, and a \<open>touchend\<close> that classifies the swipe.
\<close>

section \<open>Definitions\<close>

text \<open>What a listener asks the game to do: \<open>move(d)\<close>, \<open>newGame()\<close> or \<open>exitGame()\<close>.\<close>

datatype action = Move_Act direction | New_Game_Act | Exit_Act

text \<open>The \<open>switch (e.key)\<close> of the game's keydown listener (lines 43--77).\<close>

definition game_key :: "string \<Rightarrow> action option" where
  "game_key k =
     (if k = ''ArrowUp'' then Some (Move_Act Up)
      else if k = ''ArrowDown'' then Some (Move_Act Down)
      else if k = ''ArrowLeft'' then Some (Move_Act Left)
      else if k = ''ArrowRight'' then Some (Move_Act Right)
      else if k = ''Escape'' then Some Exit_Act
      else if k = ''F1'' \<or> k = ''SoftLeft'' then Some New_Game_Act
      else if k = ''F2'' \<or> k = ''SoftRight'' \<or> k = ''Backspace'' then Some Exit_Act
      else None)"

text \<open>The condition of the CloudFone back-key listener (line 419).\<close>

definition cloudfone_key :: "string \<Rightarrow> nat \<Rightarrow> bool" where
  "cloudfone_key k code \<longleftrightarrow> k = ''EndCall'' \<or> code = 27"

text \<open>
  All actions of one keydown event with \<open>e.key = k\<close> and \<open>e.keyCode = code\<close>; \<open>cf\<close> says
  whether the user agent contains \<open>Cloud Phone\<close> (line 402), which is when the back-key
  listener is registered.
\<close>

definition keydown_actions :: "bool \<Rightarrow> string \<Rightarrow> nat \<Rightarrow> action list" where
  "keydown_actions cf k code =
     (if cf \<and> cloudfone_key k code then [Exit_Act] else []) @
     (case game_key k of Some a \<Rightarrow> [a] | None \<Rightarrow> [])"

text \<open>
  The closure variables \<open>startX\<close>, \<open>startY\<close> (line 96): \<open>None\<close> stands for \<open>undefined\<close>
  and \<open>null\<close>. Touch coordinates (\<open>clientX\<close>, \<open>clientY\<close>) are reals.
\<close>

record touch_state =
  start_x :: "real option"
  start_y :: "real option"

definition touch_init :: touch_state where
  "touch_init = \<lparr>start_x = None, start_y = None\<rparr>"

text \<open>JavaScript's \<open>!v\<close> for these variables: \<open>undefined\<close>, \<open>null\<close> and \<open>0\<close> are falsy.\<close>

definition js_falsy :: "real option \<Rightarrow> bool" where
  "js_falsy v = (case v of None \<Rightarrow> True | Some x \<Rightarrow> x = 0)"

text \<open>The \<open>touchstart\<close> listener (lines 97--100).\<close>

definition touch_start :: "real \<Rightarrow> real \<Rightarrow> touch_state \<Rightarrow> touch_state" where
  "touch_start x y t = t\<lparr>start_x := Some x, start_y := Some y\<rparr>"

text \<open>The swipe classification of lines 108--117, on \<open>diffX = startX - endX\<close>, \<open>diffY\<close>.\<close>

definition swipe_direction :: "real \<Rightarrow> real \<Rightarrow> direction" where
  "swipe_direction dx dy =
     (if \<bar>dx\<bar> > \<bar>dy\<bar> then (if dx > 0 then Left else Right)
      else (if dy > 0 then Up else Down))"

text \<open>
  The \<open>touchend\<close> listener (lines 102--121): the early return of line 103 keeps the
  start point; otherwise the swipe's direction is returned and the start is reset.
\<close>

definition touch_end :: "real \<Rightarrow> real \<Rightarrow> touch_state \<Rightarrow> direction option \<times> touch_state" where
  "touch_end ex ey t =
     (if js_falsy (start_x t) \<or> js_falsy (start_y t) then (None, t)
      else (let sx = the (start_x t); sy = the (start_y t);
                diffX = sx - ex; diffY = sy - ey
            in (Some (swipe_direction diffX diffY), t\<lparr>start_x := None, start_y := None\<rparr>)))"

text \<open>The \<open>e.key\<close> value of the arrow key of each direction (the case labels of lines 44--59).\<close>

definition arrow_key :: "direction \<Rightarrow> string" where
  "arrow_key d = (case d of Up \<Rightarrow> ''ArrowUp'' | Down \<Rightarrow> ''ArrowDown''
                          | Left \<Rightarrow> ''ArrowLeft'' | Right \<Rightarrow> ''ArrowRight'')"

text \<open>The opposite direction, to state that opposite swipes give opposite moves.\<close>

definition opposite :: "direction \<Rightarrow> direction" where
  "opposite d = (case d of Up \<Rightarrow> Down | Down \<Rightarrow> Up | Left \<Rightarrow> Right | Right \<Rightarrow> Left)"

section \<open>Lemmas\<close>

lemma game_key_arrows:
  "game_key ''ArrowUp'' = Some (Move_Act Up)" "game_key ''ArrowDown'' = Some (Move_Act Down)"
  "game_key ''ArrowLeft'' = Some (Move_Act Left)" "game_key ''ArrowRight'' = Some (Move_Act Right)"
  by (simp_all add: game_key_def)

lemma swipe_horizontal:
  "swipe_direction dx dy \<in> {Left, Right} \<longleftrightarrow> \<bar>dy\<bar> < \<bar>dx\<bar>"
  by (simp add: swipe_direction_def)

lemma touch_end_started:
  assumes "sx \<noteq> 0" and "sy \<noteq> 0"
  shows "touch_end ex ey (touch_start sx sy t) =
           (Some (swipe_direction (sx - ex) (sy - ey)), t\<lparr>start_x := None, start_y := None\<rparr>)"
  using assms by (simp add: touch_end_def touch_start_def js_falsy_def)

lemma touch_end_unstarted:
  "js_falsy (start_x t) \<or> js_falsy (start_y t) \<Longrightarrow> touch_end ex ey t = (None, t)"
  by (simp add: touch_end_def)

lemma game_key_move_iff: "game_key k = Some (Move_Act d) \<longleftrightarrow> k = arrow_key d"
  by (cases d) (auto simp: game_key_def arrow_key_def)

lemma arrow_not_endcall: "arrow_key d \<noteq> ''EndCall''"
  by (cases d) (simp_all add: arrow_key_def)

section \<open>Properties of the input decoders\<close>

text \<open>
  C26. Key dispatch: a keydown decodes to exactly the move in direction \<open>d\<close> if and only
  if the key is \<open>d\<close>'s arrow key and the CloudFone back-key listener does not also fire
  (which it does, on CloudFone, for any key whose \<open>keyCode\<close> is 27).
\<close>

theorem keydown_move_iff:
  "keydown_actions cf k code = [Move_Act d] \<longleftrightarrow> k = arrow_key d \<and> \<not> (cf \<and> code = 27)"
proof (cases "game_key k")
  case None
  then show ?thesis using game_key_move_iff [of k d] by (auto simp: keydown_actions_def)
next
  case (Some a)
  then show ?thesis
    using game_key_move_iff [of k d] arrow_not_endcall [of d]
    by (auto simp: keydown_actions_def cloudfone_key_def)
qed

text \<open>
  Swipe symmetry: reversing a swipe that moved at all reverses the move, so the
  four directions are decoded consistently from the displacement.
\<close>

theorem swipe_opposite:
  "(dx, dy) \<noteq> (0, 0) \<Longrightarrow> swipe_direction (- dx) (- dy) = opposite (swipe_direction dx dy)"
  by (auto simp: swipe_direction_def opposite_def)

theorem swipe_opposite_witness:
  "((3::real), (-1::real)) \<noteq> (0, 0) \<and>
   swipe_direction (- 3) (- (-1)) = opposite (swipe_direction 3 (-1)) \<and>
   swipe_direction 3 (-1) = Left"
proof -
  have h: "((3::real), (-1::real)) \<noteq> (0, 0)" by simp
  show ?thesis using h swipe_opposite [OF h] by (simp add: swipe_direction_def)
qed

text \<open>
  C27. A tap is a move: a touch that ends where it started (with a start point off the
  screen's top and left edges) is decoded as a swipe down, since \<open>|0| > |0|\<close> fails and
  \<open>0 > 0\<close> fails.
\<close>

theorem tap_moves_down:
  "sx \<noteq> 0 \<Longrightarrow> sy \<noteq> 0 \<Longrightarrow> fst (touch_end sx sy (touch_start sx sy t)) = Some Down"
  by (simp add: touch_end_started swipe_direction_def)

theorem tap_moves_down_witness:
  "(40::real) \<noteq> 0 \<and> (60::real) \<noteq> 0 \<and> fst (touch_end 40 60 (touch_start 40 60 touch_init)) = Some Down"
proof -
  have a: "(40::real) \<noteq> 0" and b: "(60::real) \<noteq> 0" by simp_all
  show ?thesis using a b tap_moves_down [OF a b, of touch_init] by simp
qed

text \<open>
  C28. A swipe that starts on the top or left edge (\<open>clientX\<close> or \<open>clientY\<close> equal to 0) is
  ignored: \<open>!startX\<close> treats the coordinate 0 like a missing start, so \<open>touchend\<close>
  returns early, keeps the start point and no move happens, whatever the swipe.
\<close>

theorem edge_swipe_ignored:
  "sx = 0 \<or> sy = 0 \<Longrightarrow> touch_end ex ey (touch_start sx sy t) = (None, touch_start sx sy t)"
  by (rule touch_end_unstarted) (auto simp: touch_start_def js_falsy_def)

theorem edge_swipe_ignored_witness:
  "((0::real) = 0 \<or> (120::real) = 0) \<and>
   touch_end 200 120 (touch_start 0 120 touch_init) = (None, touch_start 0 120 touch_init)"
proof -
  have h: "(0::real) = 0 \<or> (120::real) = 0" by simp
  show ?thesis using h edge_swipe_ignored [OF h, of 200 120 touch_init] by simp
qed

end
