(* ===== verification/Store.thy ===== *)
theory Store
  imports Prelude
begin

text \<open>
  The best score of \<open>src/script.js\<close>: it lives in \<open>localStorage\<close> under \<open>best2048\<close> as a
  string, is read back with \<open>parseInt(localStorage.getItem('best2048') || '0')\<close>
  (lines 182 and 394) and written with \<open>best.toString()\<close> (line 185) when the score
  beats it (lines 182--187 of \<open>updateDisplay\<close>). JavaScript's \<open>parseInt\<close> without a
  radix is modelled on 8-bit strings: leading white space, an optional sign, a \<open>0x\<close>
  prefix for hexadecimal, then the longest digit prefix; no digit gives \<open>NaN\<close>, here
  \<open>None\<close>. \<open>Number.prototype.toString\<close> on a natural number gives its decimal digits.
\<close>

section \<open>Definitions\<close>

definition is_js_space :: "char \<Rightarrow> bool" where
  "is_js_space c \<longleftrightarrow> of_char c \<in> {9, 10, 11, 12, 13, 32 :: nat}"

definition is_dec_digit :: "char \<Rightarrow> bool" where
  "is_dec_digit c \<longleftrightarrow> 48 \<le> (of_char c :: nat) \<and> (of_char c :: nat) \<le> 57"

definition is_hex_digit :: "char \<Rightarrow> bool" where
  "is_hex_digit c \<longleftrightarrow> is_dec_digit c \<or>
     (97 \<le> (of_char c :: nat) \<and> (of_char c :: nat) \<le> 102) \<or>
     (65 \<le> (of_char c :: nat) \<and> (of_char c :: nat) \<le> 70)"

definition digit_value :: "char \<Rightarrow> nat" where
  "digit_value c = (if is_dec_digit c then of_char c - 48
                    else if 97 \<le> (of_char c :: nat) then of_char c - 87 else of_char c - 55)"

definition digits_value :: "nat \<Rightarrow> char list \<Rightarrow> nat" where
  "digits_value b ds = foldl (\<lambda>acc c. acc * b + digit_value c) 0 ds"

text \<open>\<open>parseInt(s)\<close> with no radix argument; \<open>None\<close> is \<open>NaN\<close>.\<close>

definition js_parse_int :: "string \<Rightarrow> int option" where
  "js_parse_int s =
     (let t = dropWhile is_js_space s;
          (sgn, u) = (case t of
                        [] \<Rightarrow> (1 :: int, t)
                      | c # u \<Rightarrow> if c = CHR ''-'' then (-1, u)
                                 else if c = CHR ''+'' then (1, u) else (1, t))
      in if take 2 u = ''0x'' \<or> take 2 u = ''0X'' then
           (let ds = takeWhile is_hex_digit (drop 2 u)
            in if ds = [] then None else Some (sgn * int (digits_value 16 ds)))
         else
           (let ds = takeWhile is_dec_digit u
            in if ds = [] then None else Some (sgn * int (digits_value 10 ds))))"

text \<open>\<open>n.toString()\<close> for a natural number \<open>n\<close>.\<close>

definition digit_char :: "nat \<Rightarrow> char" where
  "digit_char d = char_of (48 + d)"

fun nat_to_string :: "nat \<Rightarrow> string" where
  "nat_to_string n =
     (if n < 10 then [digit_char n] else nat_to_string (n div 10) @ [digit_char (n mod 10)])"

declare nat_to_string.simps [simp del]

text \<open>
  \<open>parseInt(localStorage.getItem('best2048') || '0')\<close> (lines 182, 394): a missing key
  (\<open>null\<close>) and the empty string are falsy and read as \<open>'0'\<close>.
\<close>

definition local_best :: "string option \<Rightarrow> int option" where
  "local_best v = js_parse_int (case v of None \<Rightarrow> ''0'' | Some x \<Rightarrow> if x = [] then ''0'' else x)"

text \<open>
  Lines 182--187 of \<open>updateDisplay\<close> for score \<open>sc\<close> and stored value \<open>stored\<close>: the new
  stored value and the number shown in \<open>bestDisplay\<close> (\<open>None\<close>: \<open>NaN\<close>, against which
  \<open>this.score > best\<close> is false).
\<close>

definition update_best :: "nat \<Rightarrow> string option \<Rightarrow> string option \<times> int option" where
  "update_best sc stored =
     (case local_best stored of
        None \<Rightarrow> (stored, None)
      | Some best \<Rightarrow> if int sc > best then (Some (nat_to_string sc), Some (int sc))
                     else (stored, Some best))"

section \<open>Lemmas\<close>

lemma of_char_digit: "d < 10 \<Longrightarrow> (of_char (digit_char d) :: nat) = 48 + d"
  by (simp add: digit_char_def)

lemma digit_char_props:
  assumes "d < 10"
  shows "is_dec_digit (digit_char d)" "digit_value (digit_char d) = d"
    "\<not> is_js_space (digit_char d)" "digit_char d \<noteq> CHR ''-''" "digit_char d \<noteq> CHR ''+''"
proof -
  have o: "(of_char (digit_char d) :: nat) = 48 + d" using assms by (rule of_char_digit)
  show "is_dec_digit (digit_char d)" "digit_value (digit_char d) = d" "\<not> is_js_space (digit_char d)"
    using assms o by (simp_all add: is_dec_digit_def digit_value_def is_js_space_def)
  show "digit_char d \<noteq> CHR ''-''" "digit_char d \<noteq> CHR ''+''"
    using o by (auto dest: arg_cong [where f = "of_char :: char \<Rightarrow> nat"])
qed

lemma nat_to_string_digits: "c \<in> set (nat_to_string n) \<Longrightarrow> is_dec_digit c"
proof (induction n rule: nat_to_string.induct)
  case (1 n)
  then show ?case
    by (cases "n < 10") (auto simp: nat_to_string.simps [of n] digit_char_props)
qed

lemma nat_to_string_hd: "\<exists>d<10. \<exists>cs. nat_to_string n = digit_char d # cs"
proof (induction n rule: nat_to_string.induct)
  case (1 n)
  then show ?case
    by (cases "n < 10") (auto simp: nat_to_string.simps [of n])
qed

lemma nat_to_string_value: "digits_value 10 (nat_to_string n) = n"
proof (induction n rule: nat_to_string.induct)
  case (1 n)
  show ?case
  proof (cases "n < 10")
    case True
    then show ?thesis by (simp add: nat_to_string.simps [of n] digits_value_def digit_char_props)
  next
    case False
    then have "digits_value 10 (nat_to_string n) = digits_value 10 (nat_to_string (n div 10)) * 10 + n mod 10"
      by (simp add: nat_to_string.simps [of n] digits_value_def digit_char_props)
    with "1.IH" False show ?thesis by simp
  qed
qed

lemma take_2_digits: "set cs \<subseteq> Collect is_dec_digit \<Longrightarrow> take 2 cs \<noteq> ''0x'' \<and> take 2 cs \<noteq> ''0X''"
  by (cases cs rule: remdups_adj.cases) (auto simp: is_dec_digit_def)

lemma js_parse_int_plain:
  assumes "u \<noteq> []" "\<not> is_js_space (hd u)" "hd u \<noteq> CHR ''-''" "hd u \<noteq> CHR ''+''"
    and "take 2 u \<noteq> ''0x''" "take 2 u \<noteq> ''0X''"
  shows "js_parse_int u =
           (let ds = takeWhile is_dec_digit u
            in if ds = [] then None else Some (int (digits_value 10 ds)))"
proof -
  obtain c cs where u: "u = c # cs" using assms(1) by (cases u) auto
  have dw: "dropWhile is_js_space u = u" using assms(2) u by simp
  have sg: "(case u of [] \<Rightarrow> (1 :: int, u) | c # u' \<Rightarrow> if c = CHR ''-'' then (-1, u')
              else if c = CHR ''+'' then (1, u') else (1, u)) = (1, u)"
    using assms(3,4) u by simp
  show ?thesis
    unfolding js_parse_int_def Let_def dw sg prod.case
    by (simp only: assms(5,6) simp_thms if_False mult_1)
qed

lemma local_best_some: "local_best (Some x) = js_parse_int (if x = [] then ''0'' else x)"
  by (simp add: local_best_def)

lemma parse_int_to_string:
  "js_parse_int (nat_to_string n) = Some (int n)"
proof -
  obtain d cs where d: "d < 10" and e: "nat_to_string n = digit_char d # cs"
    using nat_to_string_hd by blast
  have dig: "set (nat_to_string n) \<subseteq> Collect is_dec_digit"
    using nat_to_string_digits by blast
  have tw: "takeWhile is_dec_digit (nat_to_string n) = nat_to_string n"
    using dig by (simp add: subset_iff)
  have "nat_to_string n \<noteq> []" "\<not> is_js_space (hd (nat_to_string n))"
    "hd (nat_to_string n) \<noteq> CHR ''-''" "hd (nat_to_string n) \<noteq> CHR ''+''"
    using d e by (simp_all add: digit_char_props)
  then show ?thesis
    using take_2_digits [OF dig]
    by (simp add: js_parse_int_plain tw nat_to_string_value)
qed

lemma nat_to_string_nonempty: "nat_to_string n \<noteq> []"
  using nat_to_string_hd [of n] by auto

lemma update_best_ok:
  assumes "update_best sc stored = (stored', b)"
  shows "b = local_best stored'" and "\<forall>x. b = Some x \<longrightarrow> int sc \<le> x"
  using assms nat_to_string_nonempty [of sc]
  by (auto simp: update_best_def local_best_some parse_int_to_string split: option.splits if_splits)

lemma update_best_nan: "local_best stored = None \<Longrightarrow> update_best sc stored = (stored, None)"
  by (simp add: update_best_def)

section \<open>Properties of the stored best score\<close>

text \<open>
  C16. Round trip of the best-score storage: a best score \<open>n\<close> written with
  \<open>best.toString()\<close> (line 185) reads back through \<open>localStorage.getItem(...) || '0'\<close> and
  \<open>parseInt\<close> (lines 182 and 394) as exactly \<open>n\<close>, for every natural number \<open>n\<close>.
\<close>

theorem stored_best_roundtrip: "local_best (Some (nat_to_string n)) = Some (int n)"
  using nat_to_string_nonempty [of n] by (simp add: local_best_some parse_int_to_string)

end
