(* ===== verification/Potential.thy ===== *)
theory Potential
  imports Board
begin

text \<open>
  What the score of \<open>src/script.js\<close> measures. A tile's potential is the score that
  building it by merges alone earns: nothing for a 2, and for a tile \<open>2a\<close> twice the
  potential of \<open>a\<close> plus the \<open>2a\<close> its last merge adds to \<open>this.score\<close> (lines 201 and
  218). The potential of a board is the sum over its cells. The lemmas show that
  every move of \<open>move\<close> raises the board's potential by exactly the points it adds
  to the score; a spawn adds potential (4 for a spawned 4) and no score.
\<close>

section \<open>Definitions\<close>

fun tile_potential :: "cell \<Rightarrow> nat" where
  "tile_potential v = (if v \<le> 2 then 0 else 2 * tile_potential (v div 2) + v)"

declare tile_potential.simps [simp del]

definition grid_potential :: "grid \<Rightarrow> nat" where
  "grid_potential g = grid_sum (map (map tile_potential) g)"

section \<open>Lemmas\<close>

lemma tile_potential_small [simp]: "v \<le> 2 \<Longrightarrow> tile_potential v = 0"
  by (simp add: tile_potential.simps)

lemma tile_potential_double: "2 \<le> a \<Longrightarrow> tile_potential (a * 2) = 2 * tile_potential a + a * 2"
  by (subst tile_potential.simps) simp

lemma tile_ok_ge2: "tile_ok v \<Longrightarrow> v \<noteq> 0 \<Longrightarrow> 2 \<le> v"
  by (simp add: tile_ok_def)

lemma merge_potential:
  "list_all (\<lambda>v. 2 \<le> v) xs \<Longrightarrow>
     sum_list (map tile_potential (merge_pairs xs)) = sum_list (map tile_potential xs) + merge_score xs"
  by (induction xs rule: merge_pairs.induct) (auto simp: tile_potential_double)

lemma potential_nonzeros:
  "sum_list (map tile_potential (nonzeros r)) = sum_list (map tile_potential r)"
  by (induction r) (simp_all add: nonzeros_def)

lemma slide_potential:
  assumes "list_all tile_ok r"
  shows "sum_list (map tile_potential (slide n r)) = sum_list (map tile_potential r) + slide_score r"
proof -
  have "list_all (\<lambda>v. 2 \<le> v) (nonzeros r)"
    using assms by (auto simp: nonzeros_def list_all_iff tile_ok_ge2)
  then show ?thesis
    by (simp add: slide_def Let_def slide_score_def merge_potential potential_nonzeros)
qed

lemma rslide_potential:
  assumes "list_all tile_ok r"
  shows "sum_list (map tile_potential (rslide n r)) = sum_list (map tile_potential r) + slide_score (rev r)"
proof -
  have "list_all tile_ok (rev r)" using assms by (simp add: list_all_iff)
  then show ?thesis by (simp add: rslide_def rev_map [symmetric] slide_potential)
qed

lemma potential_map:
  assumes "grid_tiles g" and "\<And>r. list_all tile_ok r \<Longrightarrow>
             sum_list (map tile_potential (f r)) = sum_list (map tile_potential r) + h r"
  shows "grid_potential (map f g) = grid_potential g + sum_list (map h g)"
proof -
  have "\<forall>r\<in>set g. list_all tile_ok r" using assms(1) by (simp add: grid_tiles_def list_all_iff)
  then have "(\<Sum>r\<leftarrow>g. sum_list (map tile_potential (f r))) =
               (\<Sum>r\<leftarrow>g. sum_list (map tile_potential r) + h r)"
    using assms(2) by (intro arg_cong [where f = sum_list] map_cong) simp_all
  then show ?thesis by (simp add: grid_potential_def grid_sum_def comp_def sum_list_addf)
qed

lemma potential_transpose:
  assumes ok: "grid_ok n g"
  shows "grid_potential (transpose_sq n g) = grid_potential g"
proof -
  have okm: "grid_ok n (map (map tile_potential) g)" using ok by (rule grid_ok_map) simp
  have "map (map tile_potential) (transpose_sq n g) = transpose_sq n (map (map tile_potential) g)"
    using ok by (auto simp: transpose_sq_def column_def grid_ok_def list_all_iff)
  then show ?thesis using grid_sum_transpose [OF okm] by (simp add: grid_potential_def)
qed

lemma spec_move_potential:
  assumes ok: "grid_ok n g" and tl: "grid_tiles g"
  shows "grid_potential (spec_move n d g) = grid_potential g + spec_gain n d g"
proof -
  have okT: "grid_ok n (transpose_sq n g)" using ok by (simp add: grid_simps)
  have tlT: "grid_tiles (transpose_sq n g)" using ok tl by (simp add: grid_tiles_transpose)
  have okS: "grid_ok n (map (slide n) (transpose_sq n g))" using okT by (rule grid_ok_slide_rows)
  have okR: "grid_ok n (map (rslide n) (transpose_sq n g))" using okT by (rule grid_ok_rslide_rows)
  show ?thesis
  proof (cases d)
    case Left
    then show ?thesis using potential_map [OF tl slide_potential] by simp
  next
    case Right
    then show ?thesis using potential_map [OF tl rslide_potential] by simp
  next
    case Up
    then show ?thesis
      using potential_map [OF tlT slide_potential] potential_transpose [OF okS] potential_transpose [OF ok]
      by simp
  next
    case Down
    then show ?thesis
      using potential_map [OF tlT rslide_potential] potential_transpose [OF okR] potential_transpose [OF ok]
      by simp
  qed
qed

section \<open>Properties of the score\<close>

text \<open>
  C31. The score counts exactly the merges: on a square board of legal tiles, the
  points \<open>move\<close> adds to \<open>this.score\<close> in any direction equal the rise of the board's
  potential, so the score earned by moves is a function of the boards alone.
\<close>

theorem move_score_is_potential_gain:
  assumes "grid_ok n g" and "grid_tiles g"
  shows "grid_potential (fst (move_grid n d g s)) = grid_potential g + (snd (move_grid n d g s) - s)"
  using assms by (simp add: move_grid_fst move_grid_snd spec_move_potential)

theorem move_score_is_potential_gain_witness:
  "grid_ok 4 [[2, 2, 4, 4], [0, 0, 0, 0], [8, 8, 8, 0], [2, 4, 8, 16]] \<and>
   grid_tiles [[2, 2, 4, 4], [0, 0, 0, 0], [8, 8, 8, 0], [2, 4, 8, 16]] \<and>
   grid_potential (fst (move_grid 4 Left [[2, 2, 4, 4], [0, 0, 0, 0], [8, 8, 8, 0], [2, 4, 8, 16]] 0)) =
     grid_potential [[2, 2, 4, 4], [0, 0, 0, 0], [8, 8, 8, 0], [2, 4, 8, 16]] +
     (snd (move_grid 4 Left [[2, 2, 4, 4], [0, 0, 0, 0], [8, 8, 8, 0], [2, 4, 8, 16]] 0) - 0) \<and>
   snd (move_grid 4 Left [[2, 2, 4, 4], [0, 0, 0, 0], [8, 8, 8, 0], [2, 4, 8, 16]] 0) = 28"
proof -
  have ok: "grid_ok 4 [[2, 2, 4, 4], [0, 0, 0, 0], [8, 8, 8, 0], [2, 4, 8, 16::nat]]"
    by (simp add: grid_ok_def)
  have tl: "grid_tiles [[2, 2, 4, 4], [0, 0, 0, 0], [8, 8, 8, 0], [2, 4, 8, 16::nat]]"
    by code_simp
  have sc: "snd (move_grid 4 Left [[2, 2, 4, 4], [0, 0, 0, 0], [8, 8, 8, 0], [2, 4, 8, 16]] 0) = 28"
    by code_simp
  show ?thesis using ok tl sc move_score_is_potential_gain [OF ok tl, of Left 0] by blast
qed

end
