(* ===== verification/Game.thy ===== *)
theory Game
  imports Spawn Input Store Potential
begin

text \<open>
  The event-driven game of \<open>src/script.js\<close>: the fields of \<open>Game2048\<close> that the game's
  behaviour depends on, as one state record, and every listener and timer callback
  as an operation on it. Besides \<open>this.grid\<close> and \<open>this.score\<close>, the state holds the
  \<open>localStorage\<close> entry \<open>best2048\<close> and the number shown in \<open>#best\<close>, the message box
  (visible or not, its text, the classes on \<open>body\<close>), the number of 150 ms spawn
  timers that \<open>move\<close> has scheduled and that have not fired, the touch start point,
  and the values \<open>Math.random()\<close> and \<open>confirm()\<close> return, as sequences indexed by the
  number of calls made so far (the random source is injected, as the spec asks). \<open>game_step\<close> dispatches one browser event;
  \<open>reachable\<close> is every state some sequence of events leads to from the constructor.
\<close>

section \<open>Definitions\<close>

text \<open>\<open>this.size = 4\<close> (line 8).\<close>

definition game_size :: nat where
  "game_size = 4"

text \<open>The texts and \<open>body\<close> classes of \<open>showMessage\<close> (lines 306, 314, 366).\<close>

datatype message = Win_Msg | Over_Msg | Thanks_Msg

datatype body_class = Game_Won_Class | Game_Over_Class

record game =
  grid :: grid
  score :: nat
  best_store :: "string option"
  best_shown :: "int option"
  msg_shown :: bool
  msg_text :: "message option"
  body_classes :: "body_class set"
  pending :: nat
  touch :: touch_state
  rand :: "nat \<Rightarrow> real"
  draws :: nat
  answers :: "nat \<Rightarrow> bool"
  asked :: nat
  close_calls :: nat
  exit_timer :: bool
  tiles :: "(nat \<times> nat \<times> cell) list"
  score_shown :: nat

text \<open>
  What the platform decides: whether the user agent contains \<open>Cloud Phone\<close> (line 402)
  and whether \<open>window.close\<close> is defined (line 362).
\<close>

record platform =
  cloudfone :: bool
  has_window_close :: bool

text \<open>One call of \<open>Math.random()\<close> and one of \<open>confirm(...)\<close> (line 360).\<close>

definition math_random :: "game \<Rightarrow> real \<times> game" where
  "math_random s = (rand s (draws s), s\<lparr>draws := Suc (draws s)\<rparr>)"

definition confirm :: "game \<Rightarrow> bool \<times> game" where
  "confirm s = (answers s (asked s), s\<lparr>asked := Suc (asked s)\<rparr>)"

text \<open>
  \<open>createTile(x, y, value)\<close> (lines 144--163): a tile element for cell \<open>(x, y)\<close> with
  \<open>value\<close> is appended to \<open>#tile-container\<close>; its CSS classes (value, position, and
  \<open>tile-new\<close> for 200 ms) only style it, so an element is the triple \<open>(x, y, value)\<close>.
\<close>

definition create_tile :: "nat \<Rightarrow> nat \<Rightarrow> cell \<Rightarrow> game \<Rightarrow> game" where
  "create_tile x y v s = s\<lparr>tiles := tiles s @ [(x, y, v)]\<rparr>"

text \<open>The cell and value \<open>addRandomTile\<close> picks with its two draws (lines 136--137).\<close>

definition spawned_tile :: "nat \<Rightarrow> real \<Rightarrow> real \<Rightarrow> grid \<Rightarrow> nat \<times> nat \<times> cell" where
  "spawned_tile n r1 r2 g =
     (let cells = empty_cells n g; (x, y) = cells ! random_index r1 (length cells)
      in (x, y, random_value r2))"

text \<open>
  \<open>addRandomTile\<close> (lines 124--142) on the state: the two draws happen only when there
  is an empty cell; the new tile is written to the grid and drawn with \<open>createTile\<close>.
\<close>

definition game_add_random_tile :: "game \<Rightarrow> game" where
  "game_add_random_tile s =
     (if 0 < length (empty_cells game_size (grid s)) then
        (let (r1, s1) = math_random s; (r2, s2) = math_random s1;
             (x, y, value) = spawned_tile game_size r1 r2 (grid s)
         in create_tile x y value (s2\<lparr>grid := (grid s)[x := (grid s ! x)[y := value]]\<rparr>))
      else s)"

text \<open>The tile elements the loops of \<open>updateDisplay\<close> draw (lines 170--176), row by row.\<close>

definition render_tiles :: "nat \<Rightarrow> grid \<Rightarrow> (nat \<times> nat \<times> cell) list" where
  "render_tiles n g =
     concat (map (\<lambda>i. concat (map (\<lambda>j. if g ! i ! j \<noteq> 0 then [(i, j, g ! i ! j)] else [])
                                  [0..<n])) [0..<n])"

text \<open>
  \<open>updateDisplay\<close> (lines 165--188): the container is cleared and a tile drawn for every
  non-empty cell, the score is shown, and the best score updated (lines 182--187).
\<close>

definition update_display :: "game \<Rightarrow> game" where
  "update_display s =
     (let (stored, best) = update_best (score s) (best_store s)
      in s\<lparr>tiles := render_tiles game_size (grid s), score_shown := score s,
           best_store := stored, best_shown := best\<rparr>)"

text \<open>\<open>showMessage\<close> (lines 342--346) and \<open>hideMessage\<close> (lines 348--351).\<close>

definition show_message :: "message \<Rightarrow> body_class \<Rightarrow> game \<Rightarrow> game" where
  "show_message m c s =
     s\<lparr>msg_text := Some m, msg_shown := True, body_classes := insert c (body_classes s)\<rparr>"

definition hide_message :: "game \<Rightarrow> game" where
  "hide_message s =
     s\<lparr>msg_shown := False, body_classes := body_classes s - {Game_Won_Class, Game_Over_Class}\<rparr>"

text \<open>\<open>checkGameStatus\<close> (lines 301--316) on the state.\<close>

definition check_status :: "game \<Rightarrow> game" where
  "check_status s =
     (case check_game_status game_size (grid s) of
        Some Won \<Rightarrow> show_message Win_Msg Game_Won_Class s
      | Some Over \<Rightarrow> show_message Over_Msg Game_Over_Class s
      | None \<Rightarrow> s)"

text \<open>\<open>init\<close> (lines 19--38): clear the grid and the tile container, two spawns, \<open>updateDisplay\<close>.\<close>

definition game_init :: "game \<Rightarrow> game" where
  "game_init s =
     update_display (game_add_random_tile (game_add_random_tile
       (s\<lparr>grid := empty_grid game_size, tiles := []\<rparr>)))"

text \<open>
  \<open>move(direction)\<close> (lines 190--299): the score is updated by the merges in any case;
  when the grid changed it is replaced, \<open>updateDisplay\<close> runs and a spawn timer is
  scheduled.
\<close>

definition game_move :: "direction \<Rightarrow> game \<Rightarrow> game" where
  "game_move d s =
     (let (new_grid, sc) = move_grid game_size d (grid s) (score s);
          s1 = s\<lparr>score := sc\<rparr>
      in if grid_changed game_size (grid s) new_grid then
           (let s2 = update_display (s1\<lparr>grid := new_grid\<rparr>) in s2\<lparr>pending := pending s2 + 1\<rparr>)
         else s1)"

text \<open>The callback of the 150 ms timer (lines 294--297).\<close>

definition spawn_timer :: "game \<Rightarrow> game" where
  "spawn_timer s =
     (if pending s = 0 then s
      else check_status (game_add_random_tile (s\<lparr>pending := pending s - 1\<rparr>)))"

text \<open>\<open>newGame\<close> (lines 353--357). It does not cancel the pending spawn timers.\<close>

definition new_game :: "game \<Rightarrow> game" where
  "new_game s = game_init ((hide_message s)\<lparr>score := 0\<rparr>)"

text \<open>
  \<open>exitGame\<close> (lines 359--380): after a confirmed dialog, \<open>window.close()\<close> when it exists,
  otherwise the farewell message and a 2 s timer that leaves the page.
\<close>

definition exit_game :: "platform \<Rightarrow> game \<Rightarrow> game" where
  "exit_game pf s =
     (let (ok, s1) = confirm s
      in if \<not> ok then s1
         else if has_window_close pf then s1\<lparr>close_calls := close_calls s1 + 1\<rparr>
         else (show_message Thanks_Msg Game_Over_Class s1)\<lparr>exit_timer := True\<rparr>)"

text \<open>\<open>loadBestScore\<close> (lines 393--396).\<close>

definition load_best_score :: "game \<Rightarrow> game" where
  "load_best_score s = s\<lparr>best_shown := local_best (best_store s)\<rparr>"

text \<open>
  The constructor (lines 5--17) with the random and \<open>confirm\<close> sequences and the stored
  value of \<open>best2048\<close>; \<open>setupEventListeners\<close> is the dispatch of \<open>game_step\<close>.
\<close>

definition game_new :: "(nat \<Rightarrow> real) \<Rightarrow> (nat \<Rightarrow> bool) \<Rightarrow> string option \<Rightarrow> game" where
  "game_new rs cs stored =
     load_best_score (game_init
       \<lparr>grid = [], score = 0, best_store = stored, best_shown = None, msg_shown = False,
        msg_text = None, body_classes = {}, pending = 0, touch = touch_init, rand = rs, draws = 0,
        answers = cs, asked = 0, close_calls = 0, exit_timer = False, tiles = [], score_shown = 0\<rparr>)"

text \<open>A decoded action of a key listener (lines 46--75, 422).\<close>

fun do_action :: "platform \<Rightarrow> action \<Rightarrow> game \<Rightarrow> game" where
  "do_action pf (Move_Act d) s = game_move d s"
| "do_action pf New_Game_Act s = new_game s"
| "do_action pf Exit_Act s = exit_game pf s"

text \<open>The browser events the game listens to, and the firing of a spawn timer.\<close>

datatype event =
    Key_Down string nat
  | Soft_Left_Click
  | Soft_Right_Click
  | Retry_Click
  | Touch_Start real real
  | Touch_End real real
  | Spawn_Timer

text \<open>
  One event (lines 40--122 and 418--425): a keydown runs every listener's actions in
  registration order; the soft-key and retry buttons (lines 81--93); the touch
  listeners; and the callback of a pending spawn timer (a timer fires only when one
  is pending).
\<close>

fun game_step :: "platform \<Rightarrow> event \<Rightarrow> game \<Rightarrow> game" where
  "game_step pf (Key_Down k code) s = fold (do_action pf) (keydown_actions (cloudfone pf) k code) s"
| "game_step pf Soft_Left_Click s = new_game s"
| "game_step pf Soft_Right_Click s = exit_game pf s"
| "game_step pf Retry_Click s = new_game s"
| "game_step pf (Touch_Start x y) s = s\<lparr>touch := touch_start x y (touch s)\<rparr>"
| "game_step pf (Touch_End x y) s =
     (case touch_end x y (touch s) of
        (None, t) \<Rightarrow> s\<lparr>touch := t\<rparr>
      | (Some d, t) \<Rightarrow> (game_move d s)\<lparr>touch := t\<rparr>)"
| "game_step pf Spawn_Timer s = spawn_timer s"

text \<open>
  The states a run reaches: the constructor with any stored best value and any
  \<open>confirm\<close> answers, and random values in \<open>[0, 1)\<close>, then any events.
\<close>

inductive reachable :: "platform \<Rightarrow> game \<Rightarrow> bool" for pf where
  start: "\<forall>k. rand_ok (rs k) \<Longrightarrow> reachable pf (game_new rs cs stored)"
| step: "reachable pf s \<Longrightarrow> reachable pf (game_step pf e s)"

subsection \<open>An example run\<close>

text \<open>
  A run of 20 accepted moves, each followed by its spawn timer, on a CloudFone device
  with \<open>window.close\<close>, from the constructor with no stored best score: the random draws
  are listed, and after the last spawn the board is stuck and \<open>Game Over!\<close> is shown.
  The witnesses of the properties about stuck boards evaluate it.
\<close>

abbreviation list_rand :: "real list \<Rightarrow> nat \<Rightarrow> real" where
  "list_rand L \<equiv> (\<lambda>k. if k < length L then L ! k else 0)"

abbreviation cloudfone_device :: platform where
  "cloudfone_device \<equiv> \<lparr>cloudfone = True, has_window_close = True\<rparr>"

abbreviation over_draws :: "real list" where
  "over_draws \<equiv>
      [0, 95/100, 0, 0, 99/100, 0, 0, 95/100, 0, 95/100, 99/100, 95/100, 0,
       95/100, 99/100, 95/100, 0, 0, 0, 95/100, 0, 95/100, 99/100, 0, 99/100, 0,
       0, 0, 0, 0, 99/100, 0, 0, 95/100, 99/100, 95/100, 0, 0, 0, 95/100,
       99/100, 95/100, 99/100, 0]"

abbreviation over_run :: game where
  "over_run \<equiv> fold (game_step cloudfone_device)
     [Key_Down ''ArrowRight'' 39, Spawn_Timer,
      Key_Down ''ArrowDown'' 40, Spawn_Timer,
      Key_Down ''ArrowRight'' 39, Spawn_Timer,
      Key_Down ''ArrowRight'' 39, Spawn_Timer,
      Key_Down ''ArrowLeft'' 37, Spawn_Timer,
      Key_Down ''ArrowDown'' 40, Spawn_Timer,
      Key_Down ''ArrowUp'' 38, Spawn_Timer,
      Key_Down ''ArrowRight'' 39, Spawn_Timer,
      Key_Down ''ArrowDown'' 40, Spawn_Timer,
      Key_Down ''ArrowUp'' 38, Spawn_Timer,
      Key_Down ''ArrowUp'' 38, Spawn_Timer,
      Key_Down ''ArrowDown'' 40, Spawn_Timer,
      Key_Down ''ArrowUp'' 38, Spawn_Timer,
      Key_Down ''ArrowLeft'' 37, Spawn_Timer,
      Key_Down ''ArrowLeft'' 37, Spawn_Timer,
      Key_Down ''ArrowUp'' 38, Spawn_Timer,
      Key_Down ''ArrowDown'' 40, Spawn_Timer,
      Key_Down ''ArrowLeft'' 37, Spawn_Timer,
      Key_Down ''ArrowDown'' 40, Spawn_Timer,
      Key_Down ''ArrowLeft'' 37, Spawn_Timer]
     (game_new (list_rand over_draws) (\<lambda>_. True) None)"

text \<open>A fresh game on such a device, with every draw \<open>1/2\<close>, and one with a corrupted store.\<close>

abbreviation fresh_game :: game where
  "fresh_game \<equiv> game_new (\<lambda>_. 1/2) (\<lambda>_. True) None"

abbreviation corrupted_game :: game where
  "corrupted_game \<equiv> game_new (\<lambda>_. 1/2) (\<lambda>_. True) (Some ''abc'')"

subsection \<open>Invariants of the game state\<close>

text \<open>A legal board of the game: \<open>game_size\<close> square, every cell empty or a tile.\<close>

definition board_ok :: "grid \<Rightarrow> bool" where
  "board_ok g \<longleftrightarrow> grid_ok game_size g \<and> grid_tiles g"

definition tape_ok :: "game \<Rightarrow> bool" where
  "tape_ok s \<longleftrightarrow> (\<forall>k. rand_ok (rand s k))"

text \<open>The best score shown is the stored one read back, and never below the score.\<close>

definition best_ok :: "game \<Rightarrow> bool" where
  "best_ok s \<longleftrightarrow> best_shown s = local_best (best_store s) \<and>
                 (\<forall>b. best_shown s = Some b \<longrightarrow> int (score s) \<le> b)"

text \<open>
  A stuck board is reported or about to be (a spawn timer is pending), and the
  \<open>Game Over!\<close> message is only visible on a stuck board.
\<close>

definition status_ok :: "game \<Rightarrow> bool" where
  "status_ok s \<longleftrightarrow>
     (\<not> can_move game_size (grid s) \<longrightarrow> 0 < pending s \<or> msg_shown s) \<and>
     (msg_shown s \<and> msg_text s = Some Over_Msg \<longrightarrow> \<not> can_move game_size (grid s))"

text \<open>
  The page shows the game: the tile elements are exactly the non-empty cells, one per
  position, and the score display shows the score.
\<close>

definition tile_pos :: "nat \<times> nat \<times> cell \<Rightarrow> nat \<times> nat" where
  "tile_pos t = (fst t, fst (snd t))"

definition display_ok :: "game \<Rightarrow> bool" where
  "display_ok s \<longleftrightarrow> set (tiles s) = set (render_tiles game_size (grid s)) \<and>
                    distinct (map tile_pos (tiles s)) \<and> score_shown s = score s"

text \<open>The score never exceeds what merges alone could have earned on the board.\<close>

definition score_ok :: "game \<Rightarrow> bool" where
  "score_ok s \<longleftrightarrow> score s \<le> grid_potential (grid s)"

definition game_inv :: "game \<Rightarrow> bool" where
  "game_inv s \<longleftrightarrow> board_ok (grid s) \<and> 0 < grid_sum (grid s) \<and> tape_ok s \<and> best_ok s \<and> status_ok s"

section \<open>Lemmas\<close>

subsection \<open>Board facts used by the game\<close>

lemma slide_changed_zero:
  assumes len: "length r = n" and ch: "slide n r \<noteq> r"
  shows "0 \<in> set (slide n r)"
proof (rule ccontr)
  assume nz: "0 \<notin> set (slide n r)"
  let ?m = "merge_pairs (nonzeros r)"
  have sl: "slide n r = ?m @ replicate (n - length ?m) 0" by (simp add: slide_def Let_def)
  with nz have "n \<le> length ?m" by (cases "n - length ?m") auto
  moreover have "length ?m \<le> length (nonzeros r)" by (rule length_merge_pairs_le)
  moreover have "length (nonzeros r) \<le> length r" by (rule length_nonzeros_le)
  ultimately have l1: "length ?m = length (nonzeros r)" and l2: "length (nonzeros r) = length r"
    using len by simp_all
  from l2 have "nonzeros r = r"
    by (metis length_filter_less less_irrefl nonzeros_def filter_True)
  moreover from l1 have "?m = nonzeros r"
    using length_merge_pairs_less [of "nonzeros r"] merge_pairs_id by fastforce
  ultimately have "slide n r = r" using sl len by simp
  with ch show False by simp
qed

lemma rslide_changed_zero:
  assumes "length r = n" and "rslide n r \<noteq> r"
  shows "0 \<in> set (rslide n r)"
proof -
  have "slide n (rev r) \<noteq> rev r" using assms(2) by (auto simp: rslide_def)
  then have "0 \<in> set (slide n (rev r))" using assms(1) by (intro slide_changed_zero) simp_all
  then show ?thesis by (simp add: rslide_def)
qed

lemma map_changed_zero:
  assumes ok: "grid_ok n g" and f: "\<And>r. length r = n \<Longrightarrow> length (f r) = n"
    and z: "\<And>r. length r = n \<Longrightarrow> f r \<noteq> r \<Longrightarrow> 0 \<in> set (f r)"
    and ch: "map f g \<noteq> g"
  shows "\<exists>i<n. \<exists>j<n. map f g ! i ! j = 0"
proof -
  have "\<exists>x\<in>set g. f x \<noteq> x" using ch by (auto intro: map_idI)
  then obtain i where i0: "i < length g" and fi: "f (g ! i) \<noteq> g ! i"
    by (auto simp: in_set_conv_nth)
  have i: "i < n" using i0 ok by (simp add: grid_simps)
  have li: "length (g ! i) = n" using ok i by (simp add: grid_simps)
  then obtain j where "j < n" "f (g ! i) ! j = 0"
    using z [OF li fi] f [OF li] by (metis in_set_conv_nth)
  then have "map f g ! i ! j = 0" using i0 by simp
  with i \<open>j < n\<close> show ?thesis by blast
qed

lemma transpose_changed_zero:
  assumes ok: "grid_ok n g" and f: "\<And>r. length r = n \<Longrightarrow> length (f r) = n"
    and z: "\<And>r. length r = n \<Longrightarrow> f r \<noteq> r \<Longrightarrow> 0 \<in> set (f r)"
    and ch: "transpose_sq n (map f (transpose_sq n g)) \<noteq> g"
  shows "\<exists>i<n. \<exists>j<n. transpose_sq n (map f (transpose_sq n g)) ! i ! j = 0"
proof -
  have okT: "grid_ok n (transpose_sq n g)" using ok by (simp add: grid_simps)
  have chT: "map f (transpose_sq n g) \<noteq> transpose_sq n g"
    using ch ok by (auto simp: grid_simps)
  obtain i j where ij: "i < n" "j < n" "map f (transpose_sq n g) ! i ! j = 0"
    using map_changed_zero [OF okT f z chT] by blast
  have "length (map f (transpose_sq n g)) = n" using okT by (simp add: grid_simps)
  then have "transpose_sq n (map f (transpose_sq n g)) ! j ! i = 0"
    using ij by (simp add: transpose_sq_nth)
  then show ?thesis using ij by blast
qed

text \<open>A move that changes the board leaves an empty cell, so the spawn after it succeeds.\<close>

lemma moved_has_zero:
  assumes ok: "grid_ok n g" and ch: "spec_move n d g \<noteq> g"
  shows "\<exists>i<n. \<exists>j<n. spec_move n d g ! i ! j = 0"
proof -
  have ls: "\<And>r. length r = n \<Longrightarrow> length (slide n r) = n" by (simp add: length_slide)
  have lr: "\<And>r. length r = n \<Longrightarrow> length (rslide n r) = n" by (simp add: length_rslide)
  note zs = slide_changed_zero and zr = rslide_changed_zero
  show ?thesis
  proof (cases d)
    case Left
    then show ?thesis using map_changed_zero [OF ok ls zs] ch by simp
  next
    case Right
    then show ?thesis using map_changed_zero [OF ok lr zr] ch by simp
  next
    case Up
    then show ?thesis using transpose_changed_zero [OF ok ls zs] ch by simp
  next
    case Down
    then show ?thesis using transpose_changed_zero [OF ok lr zr] ch by simp
  qed
qed

lemma zero_cell_can_move: "i < n \<Longrightarrow> j < n \<Longrightarrow> g ! i ! j = 0 \<Longrightarrow> can_move n g"
  by (auto simp: can_move_nth)

lemma zero_cell_empty_cells: "i < n \<Longrightarrow> j < n \<Longrightarrow> g ! i ! j = 0 \<Longrightarrow> empty_cells n g \<noteq> []"
  using set_empty_cells [of n g] by (metis (mono_tags, lifting) case_prodI empty_iff empty_set mem_Collect_eq)

lemma stuck_no_zero: "\<not> can_move n g \<Longrightarrow> i < n \<Longrightarrow> j < n \<Longrightarrow> g ! i ! j \<noteq> 0"
  using zero_cell_can_move by blast

lemma stuck_no_empty_cells:
  assumes "\<not> can_move n g"
  shows "empty_cells n g = []"
proof -
  have "set (empty_cells n g) = {}"
    using stuck_no_zero [OF assms] by (auto simp: set_empty_cells)
  then show ?thesis by simp
qed

text \<open>On a stuck board no direction changes anything.\<close>

lemma stuck_fixed:
  assumes ok: "grid_ok n g" and st: "\<not> can_move n g"
  shows "spec_move n d g = g"
proof (cases "n = 0")
  case True
  then have "g = []" using ok by (simp add: grid_ok_def)
  with True show ?thesis by (cases d) (simp_all add: transpose_sq_def)
next
  case False
  then have "\<exists>i<n. \<exists>j<n. g ! i ! j \<noteq> 0" using stuck_no_zero [OF st] by blast
  then show ?thesis
    using all_moves_fixed [OF ok] can_move_iff_not_stuck [OF ok] st by blast
qed

lemma fixed_no_gain: "grid_ok n g \<Longrightarrow> spec_move n d g = g \<Longrightarrow> spec_gain n d g = 0"
  using spec_gain_moves by blast

lemma full_tile_count:
  assumes ok: "grid_ok n g" and full: "\<forall>i<n. \<forall>j<n. g ! i ! j \<noteq> 0"
  shows "tile_count g = n * n"
proof -
  have "map (\<lambda>r. length (nonzeros r)) g = replicate n n"
  proof (rule nth_equalityI)
    fix i assume "i < length (map (\<lambda>r. length (nonzeros r)) g)"
    then have i: "i < n" using ok by (simp add: grid_simps)
    then have "0 \<notin> set (g ! i)" using full ok by (auto simp: in_set_conv_nth grid_simps)
    then show "map (\<lambda>r. length (nonzeros r)) g ! i = replicate n n ! i"
      using i ok by (simp add: nonzeros_id grid_simps)
  qed (simp add: ok grid_simps)
  then show ?thesis by (simp add: tile_count_def sum_list_replicate)
qed

lemma init_has_zero:
  assumes n: "2 \<le> n" and r: "rand_ok a1" "rand_ok b1"
  shows "\<exists>i<n. \<exists>j<n. init_grid n a1 a2 b1 b2 ! i ! j = 0"
proof (rule ccontr)
  assume "\<not> ?thesis"
  then have full: "\<forall>i<n. \<forall>j<n. init_grid n a1 a2 b1 b2 ! i ! j \<noteq> 0" by simp
  have "tile_count (init_grid n a1 a2 b1 b2) = n * n"
    by (rule full_tile_count [OF init_grid_two_tiles(1) [OF assms] full])
  moreover have "4 \<le> n * n" using n mult_le_mono [OF n n] by simp
  ultimately show False using init_grid_two_tiles(2) [OF assms] by simp
qed

lemma tile_count_pos_sum:
  assumes "0 < tile_count g"
  shows "0 < grid_sum g"
proof (rule ccontr)
  assume "\<not> 0 < grid_sum g"
  then have "\<forall>r\<in>set g. \<forall>v\<in>set r. v = 0" by (simp add: grid_sum_def sum_list_eq_0_iff)
  then have "\<forall>r\<in>set g. nonzeros r = []" by (simp add: nonzeros_Nil_iff list_all_iff)
  then have "tile_count g = 0" by (simp add: tile_count_def sum_list_eq_0_iff)
  with assms show False by simp
qed

lemma init_board_ok:
  assumes "rand_ok a1" "rand_ok b1"
  shows "board_ok (init_grid game_size a1 a2 b1 b2)" and "0 < grid_sum (init_grid game_size a1 a2 b1 b2)"
    and "can_move game_size (init_grid game_size a1 a2 b1 b2)"
proof -
  have n: "2 \<le> game_size" by (simp add: game_size_def)
  note I = init_grid_two_tiles [OF n assms, of a2 b2]
  have "\<forall>v\<in>{0, 2, 4 :: nat}. tile_ok v" by (simp add: tile_ok_def is_pow2.simps)
  then have "\<forall>i<game_size. \<forall>j<game_size. tile_ok (init_grid game_size a1 a2 b1 b2 ! i ! j)"
    using I(3) by blast
  then show "board_ok (init_grid game_size a1 a2 b1 b2)"
    using I(1) by (simp add: board_ok_def grid_tiles_entries [of game_size])
  show "0 < grid_sum (init_grid game_size a1 a2 b1 b2)"
    using I(2) by (simp add: tile_count_pos_sum)
  show "can_move game_size (init_grid game_size a1 a2 b1 b2)"
    using init_has_zero [OF n assms] zero_cell_can_move by blast
qed

subsection \<open>The operations on the state\<close>

lemma update_display_eq:
  "update_display s = s\<lparr>tiles := render_tiles game_size (grid s), score_shown := score s,
                        best_store := fst (update_best (score s) (best_store s)),
                        best_shown := snd (update_best (score s) (best_store s))\<rparr>"
  by (simp add: update_display_def case_prod_beta)

lemma best_ok_update_display: "best_ok (update_display s)"
proof -
  obtain st b where e: "update_best (score s) (best_store s) = (st, b)" by fastforce
  show ?thesis using update_best_ok [OF e] e by (simp add: best_ok_def update_display_eq)
qed

lemma add_random_tile_spawned:
  "empty_cells n g \<noteq> [] \<Longrightarrow>
     add_random_tile n r1 r2 g = (case spawned_tile n r1 r2 g of (x, y, v) \<Rightarrow> g[x := (g ! x)[y := v]])"
  by (simp add: add_random_tile_def spawned_tile_def Let_def case_prod_beta)

lemma game_add_random_tile_eq:
  "game_add_random_tile s =
     s\<lparr>grid := add_random_tile game_size (rand s (draws s)) (rand s (Suc (draws s))) (grid s),
       draws := (if empty_cells game_size (grid s) = [] then draws s else Suc (Suc (draws s))),
       tiles := (if empty_cells game_size (grid s) = [] then tiles s
                 else tiles s @ [spawned_tile game_size (rand s (draws s)) (rand s (Suc (draws s))) (grid s)])\<rparr>"
proof (cases "empty_cells game_size (grid s) = []")
  case True
  then show ?thesis by (simp add: game_add_random_tile_def full_no_spawn)
next
  case False
  then show ?thesis
    by (simp add: game_add_random_tile_def math_random_def create_tile_def add_random_tile_spawned
             split: prod.splits)
qed

lemma tape_ok_at: "tape_ok s \<Longrightarrow> rand_ok (rand s k)"
  by (simp add: tape_ok_def)

lemma tape_ok_add_random_tile: "tape_ok s \<Longrightarrow> tape_ok (game_add_random_tile s)"
  by (simp add: tape_ok_def game_add_random_tile_eq)

lemma game_move_eq:
  assumes ok: "grid_ok game_size (grid s)"
  shows "game_move d s =
           (if spec_move game_size d (grid s) = grid s then s
            else (update_display (s\<lparr>score := score s + spec_gain game_size d (grid s),
                                    grid := spec_move game_size d (grid s)\<rparr>))
                   \<lparr>pending := pending s + 1\<rparr>)"
proof -
  have mg: "move_grid game_size d (grid s) (score s) =
              (spec_move game_size d (grid s), score s + spec_gain game_size d (grid s))"
    using move_grid_fst [OF ok] move_grid_snd [OF ok] by (metis prod.collapse)
  have gc: "grid_changed game_size (grid s) (spec_move game_size d (grid s)) \<longleftrightarrow>
              grid s \<noteq> spec_move game_size d (grid s)"
    by (rule grid_changed_iff [OF ok spec_move_ok [OF ok]])
  show ?thesis
    using fixed_no_gain [OF ok] by (auto simp: game_move_def mg gc update_display_eq)
qed

lemma check_status_eq:
  "check_status s =
     (if has_win_tile game_size (grid s) then show_message Win_Msg Game_Won_Class s
      else if \<not> can_move game_size (grid s) then show_message Over_Msg Game_Over_Class s
      else s)"
  by (simp add: check_status_def check_game_status_def)

lemma empty_grid_cells: "empty_cells game_size (empty_grid game_size) \<noteq> []"
  using empty_grid_facts(2) [of 0 game_size 0] zero_cell_empty_cells [of 0 game_size 0]
  by (simp add: game_size_def)

lemma game_init_eq:
  "\<exists>D T. game_init s =
     update_display (s\<lparr>grid := init_grid game_size (rand s (draws s)) (rand s (Suc (draws s)))
                                  (rand s (Suc (Suc (draws s)))) (rand s (Suc (Suc (Suc (draws s))))),
                       draws := D, tiles := T\<rparr>)"
  using empty_grid_cells by (simp add: game_init_def game_add_random_tile_eq init_grid_def) blast

lemma check_status_fields [simp]:
  "grid (check_status s) = grid s" "score (check_status s) = score s"
  "best_store (check_status s) = best_store s" "best_shown (check_status s) = best_shown s"
  "rand (check_status s) = rand s" "pending (check_status s) = pending s"
  "tiles (check_status s) = tiles s" "score_shown (check_status s) = score_shown s"
  by (simp_all add: check_status_eq show_message_def)

lemma check_status_reports:
  "\<not> can_move game_size (grid s) \<Longrightarrow> msg_shown (check_status s)"
  by (simp add: check_status_eq show_message_def)

lemma check_status_over:
  "msg_shown (check_status s) \<and> msg_text (check_status s) = Some Over_Msg \<Longrightarrow>
     \<not> can_move game_size (grid s) \<or> (msg_shown s \<and> msg_text s = Some Over_Msg)"
  by (auto simp: check_status_eq show_message_def split: if_splits)

subsection \<open>The invariant is preserved by every operation\<close>

lemma inv_game_init:
  assumes tp: "tape_ok s" and nm: "\<not> msg_shown s"
  shows "game_inv (game_init s)"
proof -
  obtain D T where e:
    "game_init s = update_display (s\<lparr>grid := init_grid game_size (rand s (draws s)) (rand s (Suc (draws s)))
                      (rand s (Suc (Suc (draws s)))) (rand s (Suc (Suc (Suc (draws s))))), draws := D, tiles := T\<rparr>)"
    using game_init_eq by blast
  note B = init_board_ok [of "rand s (draws s)" "rand s (Suc (Suc (draws s)))"
      "rand s (Suc (draws s))" "rand s (Suc (Suc (Suc (draws s))))",
      OF tape_ok_at [OF tp] tape_ok_at [OF tp]]
  have "best_ok (game_init s)" unfolding e by (rule best_ok_update_display)
  moreover have "tape_ok (game_init s)" using tp by (simp add: e update_display_eq tape_ok_def)
  ultimately show ?thesis
    using B nm by (simp add: game_inv_def status_ok_def e update_display_eq)
qed

lemma inv_new_game: "game_inv s \<Longrightarrow> game_inv (new_game s)"
  unfolding new_game_def
  by (rule inv_game_init) (simp_all add: game_inv_def tape_ok_def hide_message_def)

lemma inv_spawn_timer:
  assumes inv: "game_inv s"
  shows "game_inv (spawn_timer s)"
proof (cases "pending s = 0")
  case True
  then show ?thesis using inv by (simp add: spawn_timer_def)
next
  case False
  let ?s1 = "game_add_random_tile (s\<lparr>pending := pending s - 1\<rparr>)"
  have ok: "grid_ok game_size (grid s)" and tl: "grid_tiles (grid s)"
    and sum: "0 < grid_sum (grid s)" and tp: "tape_ok s" and bo: "best_ok s"
    and st: "status_ok s"
    using inv by (simp_all add: game_inv_def board_ok_def)
  have r: "rand_ok (rand s (draws s))" using tp by (rule tape_ok_at)
  have g1: "grid ?s1 = add_random_tile game_size (rand s (draws s)) (rand s (Suc (draws s))) (grid s)"
    by (simp add: game_add_random_tile_eq)
  have b1: "board_ok (grid ?s1) \<and> 0 < grid_sum (grid ?s1)"
  proof (cases "empty_cells game_size (grid s) = []")
    case True
    then show ?thesis using ok tl sum g1 by (simp add: board_ok_def full_no_spawn)
  next
    case False
    then show ?thesis using spawn_effects [OF ok r False] tl sum g1 by (simp add: board_ok_def)
  qed
  have t1: "tape_ok ?s1"
    using tape_ok_add_random_tile [of "s\<lparr>pending := pending s - 1\<rparr>"] tp by (simp add: tape_ok_def)
  have bo1: "best_ok ?s1" using bo by (simp add: best_ok_def game_add_random_tile_eq)
  have over: "msg_shown ?s1 \<and> msg_text ?s1 = Some Over_Msg \<Longrightarrow> \<not> can_move game_size (grid ?s1)"
  proof -
    assume "msg_shown ?s1 \<and> msg_text ?s1 = Some Over_Msg"
    then have "\<not> can_move game_size (grid s)"
      using st by (simp add: status_ok_def game_add_random_tile_eq)
    moreover then have "grid ?s1 = grid s"
      using g1 stuck_no_empty_cells full_no_spawn by metis
    ultimately show ?thesis by simp
  qed
  have "status_ok (check_status ?s1)"
    unfolding status_ok_def check_status_fields
  proof (intro conjI impI)
    assume "\<not> can_move game_size (grid ?s1)"
    then show "0 < pending ?s1 \<or> msg_shown (check_status ?s1)"
      using check_status_reports by blast
  next
    assume "msg_shown (check_status ?s1) \<and> msg_text (check_status ?s1) = Some Over_Msg"
    then show "\<not> can_move game_size (grid ?s1)"
      using check_status_over over by blast
  qed
  then show ?thesis
    using False b1 t1 bo1 by (simp add: spawn_timer_def game_inv_def tape_ok_def best_ok_def)
qed

lemma inv_game_move:
  assumes inv: "game_inv s"
  shows "game_inv (game_move d s)"
proof -
  have ok: "grid_ok game_size (grid s)" and tl: "grid_tiles (grid s)"
    and sum: "0 < grid_sum (grid s)" and tp: "tape_ok s" and st: "status_ok s"
    using inv by (simp_all add: game_inv_def board_ok_def)
  show ?thesis
  proof (cases "spec_move game_size d (grid s) = grid s")
    case True
    then show ?thesis using inv by (simp add: game_move_eq [OF ok])
  next
    case False
    let ?g = "spec_move game_size d (grid s)"
    let ?s2 = "update_display (s\<lparr>score := score s + spec_gain game_size d (grid s), grid := ?g\<rparr>)"
    have b: "board_ok ?g \<and> 0 < grid_sum ?g"
      using spec_move_ok [OF ok] spec_move_tiles [OF ok tl] spec_move_sum [OF ok] sum
      by (simp add: board_ok_def)
    have cm: "can_move game_size ?g"
      using moved_has_zero [OF ok False] zero_cell_can_move by blast
    have nov: "\<not> (msg_shown s \<and> msg_text s = Some Over_Msg)"
      using st stuck_fixed [OF ok] False by (auto simp: status_ok_def)
    have "best_ok ?s2" by (rule best_ok_update_display)
    then show ?thesis
      using False b cm tp nov
      by (simp add: game_move_eq [OF ok] game_inv_def status_ok_def tape_ok_def best_ok_def
                    update_display_eq)
  qed
qed

lemma inv_exit_game: "game_inv s \<Longrightarrow> game_inv (exit_game pf s)"
  by (simp add: exit_game_def confirm_def show_message_def game_inv_def tape_ok_def best_ok_def
                status_ok_def)

lemma game_inv_touch [simp]: "game_inv (s\<lparr>touch := t\<rparr>) = game_inv s"
  by (simp add: game_inv_def tape_ok_def best_ok_def status_ok_def)

lemma inv_do_action: "game_inv s \<Longrightarrow> game_inv (do_action pf a s)"
  by (cases a) (simp_all add: inv_game_move inv_new_game inv_exit_game)

lemma inv_fold_actions: "game_inv s \<Longrightarrow> game_inv (fold (do_action pf) as s)"
  by (induction as arbitrary: s) (simp_all add: inv_do_action)

lemma inv_game_step: "game_inv s \<Longrightarrow> game_inv (game_step pf e s)"
  by (cases e)
     (auto simp: inv_fold_actions inv_new_game inv_exit_game inv_spawn_timer inv_game_move
           split: option.splits prod.splits)

lemma load_best_score_id: "best_ok s \<Longrightarrow> load_best_score s = s"
  by (simp add: best_ok_def load_best_score_def)

lemma inv_game_new:
  assumes "\<forall>k. rand_ok (rs k)"
  shows "game_inv (game_new rs cs stored)"
proof -
  let ?s0 = "\<lparr>grid = [], score = 0, best_store = stored, best_shown = None, msg_shown = False,
              msg_text = None, body_classes = {}, pending = 0, touch = touch_init, rand = rs,
              draws = 0, answers = cs, asked = 0, close_calls = 0, exit_timer = False,
              tiles = [], score_shown = 0\<rparr>"
  have "game_inv (game_init ?s0)" using assms by (intro inv_game_init) (simp_all add: tape_ok_def)
  then show ?thesis by (simp add: game_new_def load_best_score_id game_inv_def)
qed

lemma reachable_inv: "reachable pf s \<Longrightarrow> game_inv s"
  by (induction rule: reachable.induct) (simp_all add: inv_game_new inv_game_step)

subsection \<open>The display follows the state\<close>

lemma set_render_tiles:
  "set (render_tiles n g) = {(i, j, v). i < n \<and> j < n \<and> v = g ! i ! j \<and> v \<noteq> 0}"
  by (auto simp: render_tiles_def split: if_splits)

lemma render_row_pos:
  "map tile_pos (concat (map (\<lambda>j. if P i j then [(i, j, f i j)] else []) ys)) =
     filter (\<lambda>(a, b). P a b) (map (Pair i) ys)"
  by (induction ys) (simp_all add: tile_pos_def)

lemma render_pos:
  "map tile_pos (concat (map (\<lambda>i. concat (map (\<lambda>j. if P i j then [(i, j, f i j)] else []) ys)) xs)) =
     filter (\<lambda>(a, b). P a b) (List.product xs ys)"
  by (induction xs) (simp_all add: render_row_pos)

lemma distinct_render: "distinct (map tile_pos (render_tiles n g))"
  unfolding render_tiles_def render_pos by (simp add: distinct_product)

lemma display_ok_update_display: "display_ok (update_display s)"
  by (simp add: display_ok_def update_display_eq distinct_render)

lemma display_ok_fields [simp]:
  "display_ok (s\<lparr>pending := p\<rparr>) = display_ok s" "display_ok (s\<lparr>touch := t\<rparr>) = display_ok s"
  "display_ok (s\<lparr>draws := k\<rparr>) = display_ok s" "display_ok (check_status s) = display_ok s"
  by (simp_all add: display_ok_def)

lemma spawned_cell:
  assumes r: "rand_ok r1" and ne: "empty_cells n g \<noteq> []"
  obtains x y where "spawned_tile n r1 r2 g = (x, y, random_value r2)" "x < n" "y < n" "g ! x ! y = 0"
proof -
  let ?c = "empty_cells n g"
  have k: "random_index r1 (length ?c) < length ?c" using r ne by (simp add: random_index_bound)
  obtain x y where xy: "?c ! random_index r1 (length ?c) = (x, y)" by fastforce
  have "(x, y) \<in> set ?c" using k xy by (metis nth_mem)
  then have "x < n" "y < n" "g ! x ! y = 0" by (simp_all add: set_empty_cells)
  moreover have "spawned_tile n r1 r2 g = (x, y, random_value r2)" using xy by (simp add: spawned_tile_def)
  ultimately show ?thesis using that by blast
qed

lemma render_set_cell:
  assumes "grid_ok n g" "x < n" "y < n" "g ! x ! y = 0" "v \<noteq> 0"
  shows "set (render_tiles n (g[x := (g ! x)[y := v]])) = insert (x, y, v) (set (render_tiles n g))"
  using assms by (auto simp: set_render_tiles set_cell_nth)

lemma display_add_random_tile:
  assumes d: "display_ok s" and ok: "grid_ok game_size (grid s)" and tp: "tape_ok s"
  shows "display_ok (game_add_random_tile s)"
proof (cases "empty_cells game_size (grid s) = []")
  case True
  then show ?thesis using d by (simp add: game_add_random_tile_eq full_no_spawn display_ok_def)
next
  case False
  obtain x y where sp: "spawned_tile game_size (rand s (draws s)) (rand s (Suc (draws s))) (grid s) =
      (x, y, random_value (rand s (Suc (draws s))))" and xy: "x < game_size" "y < game_size" "grid s ! x ! y = 0"
    using spawned_cell [OF tape_ok_at [OF tp] False] by blast
  let ?v = "random_value (rand s (Suc (draws s)))"
  have g: "add_random_tile game_size (rand s (draws s)) (rand s (Suc (draws s))) (grid s) =
             (grid s)[x := (grid s ! x)[y := ?v]]"
    using sp by (simp add: add_random_tile_spawned [OF False])
  have "(x, y) \<notin> set (map tile_pos (tiles s))"
  proof
    assume "(x, y) \<in> set (map tile_pos (tiles s))"
    then obtain t where t: "t \<in> set (tiles s)" "tile_pos t = (x, y)" by auto
    then have "t \<in> set (render_tiles game_size (grid s))" using d by (simp add: display_ok_def)
    then have "grid s ! x ! y \<noteq> 0" using t(2) by (auto simp: set_render_tiles tile_pos_def)
    with xy(3) show False by simp
  qed
  then show ?thesis
    using d False sp g render_set_cell [OF ok xy random_value_pos]
    by (simp add: game_add_random_tile_eq display_ok_def tile_pos_def)
qed

lemma display_game_init: "display_ok (game_init s)"
  by (simp add: game_init_def display_ok_update_display)

lemma display_game_move:
  assumes "game_inv s" and "display_ok s"
  shows "display_ok (game_move d s)"
proof -
  have ok: "grid_ok game_size (grid s)" using assms(1) by (simp add: game_inv_def board_ok_def)
  show ?thesis using assms(2) by (simp add: game_move_eq [OF ok] display_ok_update_display)
qed

lemma display_spawn_timer:
  assumes "game_inv s" and "display_ok s"
  shows "display_ok (spawn_timer s)"
proof -
  have ok: "grid_ok game_size (grid s)" and tp: "tape_ok s"
    using assms(1) by (simp_all add: game_inv_def board_ok_def)
  have "display_ok (game_add_random_tile (s\<lparr>pending := pending s - 1\<rparr>))"
    using assms(2) ok tp by (intro display_add_random_tile) (simp_all add: tape_ok_def)
  then show ?thesis using assms(2) by (simp add: spawn_timer_def)
qed

lemma display_exit_game: "display_ok s \<Longrightarrow> display_ok (exit_game pf s)"
  by (simp add: exit_game_def confirm_def show_message_def display_ok_def)

lemma display_fold_actions:
  "game_inv s \<Longrightarrow> display_ok s \<Longrightarrow> display_ok (fold (do_action pf) as s)"
proof (induction as arbitrary: s)
  case Nil
  then show ?case by simp
next
  case (Cons a as)
  have "display_ok (do_action pf a s)"
    using Cons.prems
    by (cases a) (simp_all add: display_game_move new_game_def display_game_init display_exit_game)
  moreover have "game_inv (do_action pf a s)" using Cons.prems(1) by (rule inv_do_action)
  ultimately show ?case using Cons.IH by simp
qed

lemma display_step: "game_inv s \<Longrightarrow> display_ok s \<Longrightarrow> display_ok (game_step pf e s)"
  by (cases e)
     (auto simp: display_fold_actions new_game_def display_game_init display_exit_game
                 display_spawn_timer display_game_move split: option.splits prod.splits)

lemma reachable_display: "reachable pf s \<Longrightarrow> display_ok s"
proof (induction rule: reachable.induct)
  case (start rs cs stored)
  then show ?case
    using display_game_init by (simp add: game_new_def load_best_score_def display_ok_def)
next
  case (step s e)
  then show ?case using reachable_inv display_step by blast
qed


subsection \<open>The score is bounded by the board\<close>

lemma potential_set_cell:
  assumes "grid_ok n g" "i < n" "j < n" "g ! i ! j = 0"
  shows "grid_potential (g[i := (g ! i)[j := v]]) = grid_potential g + tile_potential v"
proof -
  let ?m = "map (map tile_potential) g"
  have okm: "grid_ok n ?m" using assms(1) by (rule grid_ok_map) simp
  have li: "i < length g" and lj: "j < length (g ! i)" using assms by (simp_all add: grid_simps)
  have "map (map tile_potential) (g[i := (g ! i)[j := v]]) = ?m[i := (?m ! i)[j := tile_potential v]]"
    using li lj by (simp add: map_update)
  moreover have "?m ! i ! j = 0" using li lj assms(4) by simp
  ultimately show ?thesis
    using grid_sum_set_cell [OF okm assms(2,3)] by (simp add: grid_potential_def)
qed

lemma potential_add_random_tile:
  assumes ok: "grid_ok n g" and r: "rand_ok r1"
  shows "grid_potential g \<le> grid_potential (add_random_tile n r1 r2 g)"
proof (cases "empty_cells n g = []")
  case True
  then show ?thesis by (simp add: full_no_spawn)
next
  case False
  then obtain i j where "i < n" "j < n" "g ! i ! j = 0"
    and "add_random_tile n r1 r2 g = g[i := (g ! i)[j := random_value r2]]"
    using spawn_cell [OF r] by blast
  then show ?thesis using potential_set_cell [OF ok] by simp
qed

lemma score_ok_step:
  assumes inv: "game_inv s" and sc: "score_ok s"
  shows "score_ok (game_step pf e s)"
proof -
  have ok: "grid_ok game_size (grid s)" and tl: "grid_tiles (grid s)" and tp: "tape_ok s"
    using inv by (simp_all add: game_inv_def board_ok_def)
  have mv: "\<And>t. game_inv t \<Longrightarrow> score_ok t \<Longrightarrow> score_ok (game_move d t)" for d
  proof -
    fix t assume it: "game_inv t" and st: "score_ok t"
    have okt: "grid_ok game_size (grid t)" and tlt: "grid_tiles (grid t)"
      using it by (simp_all add: game_inv_def board_ok_def)
    show "score_ok (game_move d t)"
      using st spec_move_potential [OF okt tlt, of d]
      by (simp add: game_move_eq [OF okt] score_ok_def update_display_eq)
  qed
  have ng: "\<And>t. score_ok (new_game t)"
    by (simp add: new_game_def game_init_def score_ok_def update_display_eq game_add_random_tile_eq
                  hide_message_def)
  have ex: "\<And>t. score_ok t \<Longrightarrow> score_ok (exit_game pf t)"
    by (simp add: exit_game_def confirm_def show_message_def score_ok_def)
  have fo: "\<And>as t. game_inv t \<Longrightarrow> score_ok t \<Longrightarrow> score_ok (fold (do_action pf) as t)"
  proof -
    fix as t show "game_inv t \<Longrightarrow> score_ok t \<Longrightarrow> score_ok (fold (do_action pf) as t)"
    proof (induction as arbitrary: t)
      case Nil
      then show ?case by simp
    next
      case (Cons a as)
      have "score_ok (do_action pf a t)" using Cons.prems mv ng ex by (cases a) simp_all
      moreover have "game_inv (do_action pf a t)" using Cons.prems(1) by (rule inv_do_action)
      ultimately show ?case using Cons.IH by simp
    qed
  qed
  have tm: "score_ok (spawn_timer s)"
    using sc potential_add_random_tile [OF ok tape_ok_at [OF tp, of "draws s"], of "rand s (Suc (draws s))"]
    by (simp add: spawn_timer_def game_add_random_tile_eq score_ok_def)
  show ?thesis
    using inv sc mv ng ex fo tm
    by (cases e) (simp_all add: score_ok_def split: option.splits prod.splits)
qed

lemma reachable_score_ok: "reachable pf s \<Longrightarrow> score_ok s"
proof (induction rule: reachable.induct)
  case (start rs cs stored)
  then show ?case by (simp add: game_new_def load_best_score_def game_init_def score_ok_def
                                update_display_eq game_add_random_tile_eq)
next
  case (step s e)
  then show ?case using reachable_inv score_ok_step by blast
qed

subsection \<open>Runs, stuck boards and the stored best score\<close>

lemma reachable_fold: "reachable pf s \<Longrightarrow> reachable pf (fold (game_step pf) es s)"
  by (induction es arbitrary: s) (simp_all add: reachable.step)

lemma list_rand_ok: "list_all rand_ok L \<Longrightarrow> \<forall>k. rand_ok (list_rand L k)"
  by (auto simp: list_all_length rand_ok_def)

lemma spawn_timer_stuck:
  assumes st: "\<not> can_move game_size (grid s)" and p: "0 < pending s"
  shows "grid (spawn_timer s) = grid s \<and> pending (spawn_timer s) = pending s - 1 \<and>
         msg_shown (spawn_timer s)"
proof -
  have e: "empty_cells game_size (grid s) = []" using st by (rule stuck_no_empty_cells)
  let ?s1 = "game_add_random_tile (s\<lparr>pending := pending s - 1\<rparr>)"
  have g: "grid ?s1 = grid s" and q: "pending ?s1 = pending s - 1"
    using e by (simp_all add: game_add_random_tile_eq full_no_spawn)
  have "msg_shown (check_status ?s1)" using st g check_status_reports [of ?s1] by simp
  then show ?thesis using p g q by (simp add: spawn_timer_def)
qed

lemma stuck_timers:
  assumes st: "\<not> can_move game_size (grid s)"
  shows "k \<le> pending s \<Longrightarrow> grid ((spawn_timer ^^ k) s) = grid s \<and>
           pending ((spawn_timer ^^ k) s) = pending s - k \<and> (0 < k \<longrightarrow> msg_shown ((spawn_timer ^^ k) s))"
proof (induction k)
  case 0
  then show ?case by simp
next
  case (Suc k)
  let ?t = "(spawn_timer ^^ k) s"
  have ih: "grid ?t = grid s" "pending ?t = pending s - k" using Suc by simp_all
  have "\<not> can_move game_size (grid ?t)" "0 < pending ?t" using ih st Suc.prems by simp_all
  from spawn_timer_stuck [OF this] ih show ?case by simp
qed

lemma nan_ops:
  assumes "local_best (best_store s) = None"
  shows "best_store (game_move d s) = best_store s" and "best_store (new_game s) = best_store s"
    and "best_store (exit_game pf s) = best_store s" and "best_store (spawn_timer s) = best_store s"
  using assms
  by (simp_all add: game_move_def update_display_eq update_best_nan case_prod_beta Let_def
                    new_game_def game_init_def game_add_random_tile_eq hide_message_def
                    exit_game_def confirm_def show_message_def spawn_timer_def)

lemma nan_fold:
  "local_best (best_store s) = None \<Longrightarrow> best_store (fold (do_action pf) as s) = best_store s"
proof (induction as arbitrary: s)
  case Nil
  then show ?case by simp
next
  case (Cons a as)
  have "best_store (do_action pf a s) = best_store s"
    using Cons.prems nan_ops [of s] by (cases a) simp_all
  with Cons show ?case by simp
qed

lemma nan_step:
  "local_best (best_store s) = None \<Longrightarrow> best_store (game_step pf e s) = best_store s"
  by (cases e) (simp_all add: nan_fold nan_ops split: option.splits prod.splits)

lemma over_run_facts:
  "reachable cloudfone_device over_run \<and> msg_shown over_run \<and> msg_text over_run = Some Over_Msg \<and>
   pending over_run = 0 \<and> grid over_run = [[2, 4, 2, 4], [4, 2, 8, 2], [8, 4, 2, 8], [4, 2, 8, 4]]"
proof -
  have "list_all rand_ok over_draws" by (simp add: rand_ok_def)
  then have "reachable cloudfone_device over_run"
    by (intro reachable_fold reachable.start list_rand_ok)
  moreover have "let s = over_run in msg_shown s \<and> msg_text s = Some Over_Msg \<and> pending s = 0 \<and>
     grid s = [[2, 4, 2, 4], [4, 2, 8, 2], [8, 4, 2, 8], [4, 2, 8, 4]]"
    by code_simp
  ultimately show ?thesis by (simp only: Let_def)
qed

lemma half_rand_ok: "\<forall>k. rand_ok ((\<lambda>_. 1/2) k)"
  by (simp add: rand_ok_def)

section \<open>Properties of the game\<close>

text \<open>
  C17. Board invariant of every run: the grid stays a 4 by 4 square of legal cells
  (empty or a power of two at least 2), and it is never empty, whatever the events,
  their order and the random draws.
\<close>

theorem reachable_board_ok:
  "reachable pf s \<Longrightarrow> grid_ok game_size (grid s) \<and> grid_tiles (grid s) \<and> 0 < grid_sum (grid s)"
  by (drule reachable_inv) (simp add: game_inv_def board_ok_def)

theorem reachable_board_ok_witness:
  "reachable cloudfone_device over_run \<and> grid_ok game_size (grid over_run) \<and>
   grid_tiles (grid over_run) \<and> 0 < grid_sum (grid over_run)"
  using over_run_facts reachable_board_ok [of cloudfone_device over_run] by blast

text \<open>
  C18. Best-score invariant: the number shown as best is always the stored
  \<open>best2048\<close> read back with \<open>parseInt\<close>, and whenever it is a number it is at least the
  current score.
\<close>

theorem reachable_best_score:
  "reachable pf s \<Longrightarrow> best_shown s = local_best (best_store s) \<and>
     (\<forall>b. best_shown s = Some b \<longrightarrow> int (score s) \<le> b)"
  by (drule reachable_inv) (simp add: game_inv_def best_ok_def)

theorem reachable_best_score_witness:
  "reachable cloudfone_device fresh_game \<and>
   best_shown fresh_game = local_best (best_store fresh_game) \<and>
   best_shown fresh_game = Some 0 \<and> int (score fresh_game) \<le> 0"
proof -
  have r: "reachable cloudfone_device fresh_game" using half_rand_ok by (rule reachable.start)
  have b: "best_shown fresh_game = Some 0" by code_simp
  show ?thesis using r b reachable_best_score [OF r] by blast
qed

text \<open>
  C19. Safety of the loss report: whenever \<open>Game Over!\<close> is visible, the board is
  stuck, and then no move changes anything at all: the state (grid, score, timers) is
  exactly as before.
\<close>

theorem game_over_only_when_stuck:
  assumes "reachable pf s" and "msg_shown s" and "msg_text s = Some Over_Msg"
  shows "\<not> can_move game_size (grid s) \<and> (\<forall>d. game_move d s = s)"
proof -
  have inv: "game_inv s" using assms(1) by (rule reachable_inv)
  then have ok: "grid_ok game_size (grid s)" by (simp add: game_inv_def board_ok_def)
  have st: "\<not> can_move game_size (grid s)"
    using inv assms(2,3) by (simp add: game_inv_def status_ok_def)
  then show ?thesis using stuck_fixed [OF ok st] by (simp add: game_move_eq [OF ok])
qed

theorem game_over_only_when_stuck_witness:
  "reachable cloudfone_device over_run \<and> msg_shown over_run \<and> msg_text over_run = Some Over_Msg \<and>
   \<not> can_move game_size (grid over_run) \<and> (\<forall>d. game_move d over_run = over_run)"
proof -
  have r: "reachable cloudfone_device over_run" and m: "msg_shown over_run"
    and t: "msg_text over_run = Some Over_Msg"
    using over_run_facts by blast+
  show ?thesis using r m t game_over_only_when_stuck [OF r m t] by blast
qed

text \<open>
  C20. The end of the game is always reported: on every reachable stuck board, once
  the pending spawn timers have fired, the message box is visible (\<open>Game Over!\<close>, or
  \<open>You Win!\<close> when a 2048 tile is on the board).
\<close>

theorem stuck_board_reported:
  assumes "reachable pf s" and "\<not> can_move game_size (grid s)"
  shows "msg_shown ((spawn_timer ^^ pending s) s)"
proof (cases "pending s = 0")
  case True
  have "status_ok s" using reachable_inv [OF assms(1)] by (simp add: game_inv_def)
  with True assms(2) show ?thesis by (simp add: status_ok_def)
next
  case False
  then show ?thesis using stuck_timers [OF assms(2), of "pending s"] by simp
qed

theorem stuck_board_reported_witness:
  "reachable cloudfone_device over_run \<and> \<not> can_move game_size (grid over_run) \<and>
   msg_shown ((spawn_timer ^^ pending over_run) over_run)"
proof -
  have r: "reachable cloudfone_device over_run"
    and g: "grid over_run = [[2, 4, 2, 4], [4, 2, 8, 2], [8, 4, 2, 8], [4, 2, 8, 4]]"
    using over_run_facts by blast+
  have "\<not> can_move game_size [[2, 4, 2, 4], [4, 2, 8, 2], [8, 4, 2, 8], [4, 2, 8, 4]]"
    by code_simp
  then have st: "\<not> can_move game_size (grid over_run)" using g by simp
  show ?thesis using r st stuck_board_reported [OF r st] by blast
qed

text \<open>
  C21. A rejected move is a no-op, as the spec requires: when the switch of \<open>move\<close>
  leaves the grid as it was, the whole state is unchanged: no score, no display
  update, no spawn timer.
\<close>

theorem noop_move_identity:
  assumes "reachable pf s" and "fst (move_grid game_size d (grid s) (score s)) = grid s"
  shows "game_move d s = s"
proof -
  have ok: "grid_ok game_size (grid s)"
    using reachable_inv [OF assms(1)] by (simp add: game_inv_def board_ok_def)
  show ?thesis using assms(2) by (simp add: game_move_eq [OF ok] move_grid_fst [OF ok])
qed

theorem noop_move_identity_witness:
  "reachable cloudfone_device over_run \<and>
   fst (move_grid game_size Left (grid over_run) (score over_run)) = grid over_run \<and>
   game_move Left over_run = over_run"
proof -
  have r: "reachable cloudfone_device over_run"
    and g: "grid over_run = [[2, 4, 2, 4], [4, 2, 8, 2], [8, 4, 2, 8], [4, 2, 8, 4]]"
    using over_run_facts by blast+
  have ok: "grid_ok game_size [[2, 4, 2, 4], [4, 2, 8, 2], [8, 4, 2, 8], [4, 2, 8, 4]]"
    by (simp add: grid_ok_def game_size_def)
  have "spec_move game_size Left [[2, 4, 2, 4], [4, 2, 8, 2], [8, 4, 2, 8], [4, 2, 8, 4]] =
        [[2, 4, 2, 4], [4, 2, 8, 2], [8, 4, 2, 8], [4, 2, 8, 4]]"
    by code_simp
  then have "fst (move_grid game_size Left [[2, 4, 2, 4], [4, 2, 8, 2], [8, 4, 2, 8], [4, 2, 8, 4]]
               (score over_run)) = [[2, 4, 2, 4], [4, 2, 8, 2], [8, 4, 2, 8], [4, 2, 8, 4]]"
    by (simp only: move_grid_fst [OF ok])
  then have f: "fst (move_grid game_size Left (grid over_run) (score over_run)) = grid over_run"
    by (simp only: g)
  show ?thesis using r f noop_move_identity [OF r f] by blast
qed

text \<open>
  C22. Every accepted move is followed by exactly one spawn when its timer fires
  before any other event: the board's sum grows by the spawned value (drawn by the
  second \<open>Math.random()\<close> after the move) and the number of tiles by one; the move
  always leaves an empty cell for it.
\<close>

theorem accepted_move_one_spawn:
  assumes r: "reachable pf s" and ch: "grid (game_move d s) \<noteq> grid s"
  shows "grid_sum (grid (spawn_timer (game_move d s))) =
           grid_sum (grid s) + random_value (rand s (Suc (draws s))) \<and>
         tile_count (grid (spawn_timer (game_move d s))) = tile_count (grid (game_move d s)) + 1 \<and>
         pending (spawn_timer (game_move d s)) = pending s"
proof -
  have inv: "game_inv s" using r by (rule reachable_inv)
  then have ok: "grid_ok game_size (grid s)" and tp: "tape_ok s"
    by (simp_all add: game_inv_def board_ok_def)
  let ?g = "spec_move game_size d (grid s)"
  have mv: "?g \<noteq> grid s" using ch by (auto simp: game_move_eq [OF ok])
  have gm: "grid (game_move d s) = ?g" "pending (game_move d s) = Suc (pending s)"
    "rand (game_move d s) = rand s" "draws (game_move d s) = draws s"
    using mv by (simp_all add: game_move_eq [OF ok] update_display_eq)
  have okg: "grid_ok game_size ?g" using ok by (rule spec_move_ok)
  have ne: "empty_cells game_size ?g \<noteq> []"
    using moved_has_zero [OF ok mv] zero_cell_empty_cells by blast
  have ro: "rand_ok (rand s (draws s))" using tp by (rule tape_ok_at)
  have sp: "grid (spawn_timer (game_move d s)) =
              add_random_tile game_size (rand s (draws s)) (rand s (Suc (draws s))) ?g"
    "pending (spawn_timer (game_move d s)) = pending s"
    using gm by (simp_all add: spawn_timer_def game_add_random_tile_eq)
  show ?thesis using spawn_effects(2,3) [OF okg ro ne] sp gm spec_move_sum [OF ok] by simp
qed

theorem accepted_move_one_spawn_witness:
  "reachable cloudfone_device fresh_game \<and> grid (game_move Up fresh_game) \<noteq> grid fresh_game \<and>
   grid_sum (grid (spawn_timer (game_move Up fresh_game))) =
     grid_sum (grid fresh_game) + random_value (rand fresh_game (Suc (draws fresh_game))) \<and>
   tile_count (grid (spawn_timer (game_move Up fresh_game))) =
     tile_count (grid (game_move Up fresh_game)) + 1 \<and>
   pending (spawn_timer (game_move Up fresh_game)) = pending fresh_game"
proof -
  have r: "reachable cloudfone_device fresh_game" using half_rand_ok by (rule reachable.start)
  have c: "grid (game_move Up fresh_game) \<noteq> grid fresh_game" by code_simp
  show ?thesis using r c accepted_move_one_spawn [OF r c] by blast
qed

text \<open>
  C23. \<open>newGame\<close> does not cancel the spawn timers of the previous game: if one is
  pending, it fires on the new board and the new game has three tiles, where the spec
  says a reset leaves exactly two.
\<close>

theorem new_game_keeps_pending_spawn:
  assumes r: "reachable pf s" and p: "0 < pending s"
  shows "tile_count (grid (spawn_timer (new_game s))) = 3"
proof -
  have tp: "tape_ok s" using reachable_inv [OF r] by (simp add: game_inv_def)
  let ?s0 = "(hide_message s)\<lparr>score := 0\<rparr>"
  let ?G = "init_grid game_size (rand s (draws s)) (rand s (Suc (draws s)))
              (rand s (Suc (Suc (draws s)))) (rand s (Suc (Suc (Suc (draws s)))))"
  obtain D T where e: "game_init ?s0 =
      update_display (?s0\<lparr>grid := init_grid game_size (rand ?s0 (draws ?s0)) (rand ?s0 (Suc (draws ?s0)))
                        (rand ?s0 (Suc (Suc (draws ?s0)))) (rand ?s0 (Suc (Suc (Suc (draws ?s0))))),
                        draws := D, tiles := T\<rparr>)"
    using game_init_eq by blast
  have gi: "grid (new_game s) = ?G" "pending (new_game s) = pending s"
    "rand (new_game s) = rand s" "draws (new_game s) = D"
    unfolding new_game_def e by (simp_all add: update_display_eq hide_message_def)
  have n: "2 \<le> game_size" by (simp add: game_size_def)
  have a: "rand_ok (rand s (draws s))" "rand_ok (rand s (Suc (Suc (draws s))))"
    using tp by (simp_all add: tape_ok_at)
  note I = init_grid_two_tiles [OF n a]
  have ne: "empty_cells game_size ?G \<noteq> []"
    using init_has_zero [OF n a] zero_cell_empty_cells by blast
  have sp: "grid (spawn_timer (new_game s)) = add_random_tile game_size (rand s D) (rand s (Suc D)) ?G"
    using gi p by (simp add: spawn_timer_def game_add_random_tile_eq)
  show ?thesis
    using spawn_effects(3) [OF I(1) tape_ok_at [OF tp] ne] I(2) sp by simp
qed

theorem new_game_keeps_pending_spawn_witness:
  "reachable cloudfone_device (game_step cloudfone_device (Key_Down ''ArrowUp'' 38) fresh_game) \<and>
   0 < pending (game_step cloudfone_device (Key_Down ''ArrowUp'' 38) fresh_game) \<and>
   tile_count (grid (spawn_timer (new_game
     (game_step cloudfone_device (Key_Down ''ArrowUp'' 38) fresh_game)))) = 3"
proof -
  have r: "reachable cloudfone_device (game_step cloudfone_device (Key_Down ''ArrowUp'' 38) fresh_game)"
    using half_rand_ok by (intro reachable.step reachable.start)
  have p: "0 < pending (game_step cloudfone_device (Key_Down ''ArrowUp'' 38) fresh_game)"
    by code_simp
  show ?thesis using r p new_game_keeps_pending_spawn [OF r p] by blast
qed

text \<open>
  C24. On a CloudFone device the Escape key runs \<open>exitGame\<close> twice: the back-key
  listener of \<open>optimizeForCloudFone\<close> fires on \<open>keyCode\<close> 27 and the game's own listener
  on \<open>'Escape'\<close>, so the exit dialog is asked for a second time after a cancel.
\<close>

theorem cloudfone_escape_exits_twice:
  "cloudfone pf \<Longrightarrow> game_step pf (Key_Down ''Escape'' 27) s = exit_game pf (exit_game pf s)"
  by (simp add: keydown_actions_def cloudfone_key_def game_key_def)

theorem cloudfone_escape_exits_twice_witness:
  "cloudfone cloudfone_device \<and>
   game_step cloudfone_device (Key_Down ''Escape'' 27) fresh_game =
     exit_game cloudfone_device (exit_game cloudfone_device fresh_game) \<and>
   asked (exit_game cloudfone_device (exit_game cloudfone_device
     (fresh_game\<lparr>answers := (\<lambda>_. False)\<rparr>))) = 2"
proof -
  have c: "cloudfone cloudfone_device" by simp
  have "asked (exit_game cloudfone_device (exit_game cloudfone_device
          (fresh_game\<lparr>answers := (\<lambda>_. False)\<rparr>))) = 2"
    by code_simp
  then show ?thesis using c cloudfone_escape_exits_twice [OF c, of fresh_game] by blast
qed

text \<open>
  C25. A corrupted best score is never repaired: when the stored \<open>best2048\<close> does not
  parse (\<open>parseInt\<close> gives \<open>NaN\<close>), \<open>this.score > best\<close> is always false, so no event
  rewrites the store and the best score shown stays \<open>NaN\<close>.
\<close>

theorem corrupted_best_stays_nan:
  assumes "reachable pf s" and "local_best (best_store s) = None"
  shows "best_store (game_step pf e s) = best_store s \<and> best_shown (game_step pf e s) = None"
proof -
  have st: "best_store (game_step pf e s) = best_store s" using assms(2) by (rule nan_step)
  have "best_ok (game_step pf e s)"
    using reachable_inv [OF reachable.step [OF assms(1)]] by (simp add: game_inv_def)
  then show ?thesis using st assms(2) by (simp add: best_ok_def)
qed

theorem corrupted_best_stays_nan_witness:
  "reachable cloudfone_device corrupted_game \<and> local_best (best_store corrupted_game) = None \<and>
   best_store (game_step cloudfone_device (Key_Down ''ArrowUp'' 38) corrupted_game) =
     best_store corrupted_game \<and>
   best_shown (game_step cloudfone_device (Key_Down ''ArrowUp'' 38) corrupted_game) = None"
proof -
  have r: "reachable cloudfone_device corrupted_game" using half_rand_ok by (rule reachable.start)
  have n: "local_best (best_store corrupted_game) = None" by code_simp
  show ?thesis using r n corrupted_best_stays_nan [OF r n] by blast
qed

text \<open>
  C29. The page shows the game: in every reachable state the tile elements of
  \<open>#tile-container\<close> are exactly the non-empty cells with their values (\<open>updateDisplay\<close>
  redraws them after a move, and \<open>addRandomTile\<close> appends the spawned one), and the
  score display shows the score.
\<close>

theorem display_matches_grid:
  "reachable pf s \<Longrightarrow>
     set (tiles s) = {(i, j, v). i < game_size \<and> j < game_size \<and> v = grid s ! i ! j \<and> v \<noteq> 0} \<and>
     score_shown s = score s"
  by (drule reachable_display) (simp add: display_ok_def set_render_tiles)

theorem display_matches_grid_witness:
  "reachable cloudfone_device over_run \<and>
   set (tiles over_run) =
     {(i, j, v). i < game_size \<and> j < game_size \<and> v = grid over_run ! i ! j \<and> v \<noteq> 0} \<and>
   score_shown over_run = score over_run"
proof -
  have r: "reachable cloudfone_device over_run" using over_run_facts by blast
  show ?thesis using r display_matches_grid [OF r] by blast
qed

text \<open>
  C30. Every tile element is well formed: no two elements share a position, and each
  sits inside the 4 by 4 board and carries a tile value (a power of two at least 2),
  so its classes \<open>tile-position-(x+1)-(y+1)\<close> and \<open>tile-value\<close> name a styled cell.
\<close>

theorem tiles_well_formed:
  assumes r: "reachable pf s"
  shows "distinct (map tile_pos (tiles s)) \<and>
         list_all (\<lambda>(x, y, v). x < game_size \<and> y < game_size \<and> tile_ok v \<and> v \<noteq> 0) (tiles s)"
proof -
  have d: "display_ok s" using r by (rule reachable_display)
  have ok: "grid_ok game_size (grid s)" and tl: "grid_tiles (grid s)"
    using reachable_inv [OF r] by (simp_all add: game_inv_def board_ok_def)
  have e: "\<forall>i<game_size. \<forall>j<game_size. tile_ok (grid s ! i ! j)"
    using tl ok by (simp add: grid_tiles_entries [of game_size])
  have "\<forall>t\<in>set (tiles s). (\<lambda>(x, y, v). x < game_size \<and> y < game_size \<and> tile_ok v \<and> v \<noteq> 0) t"
  proof
    fix t assume "t \<in> set (tiles s)"
    then have "t \<in> set (render_tiles game_size (grid s))" using d by (simp add: display_ok_def)
    then obtain i j where "t = (i, j, grid s ! i ! j)" "i < game_size" "j < game_size"
      "grid s ! i ! j \<noteq> 0"
      by (auto simp: set_render_tiles)
    then show "(\<lambda>(x, y, v). x < game_size \<and> y < game_size \<and> tile_ok v \<and> v \<noteq> 0) t"
      using e by simp
  qed
  then show ?thesis using d by (simp add: display_ok_def list_all_iff)
qed

theorem tiles_well_formed_witness:
  "reachable cloudfone_device over_run \<and> distinct (map tile_pos (tiles over_run)) \<and>
   list_all (\<lambda>(x, y, v). x < game_size \<and> y < game_size \<and> tile_ok v \<and> v \<noteq> 0) (tiles over_run)"
proof -
  have r: "reachable cloudfone_device over_run" using over_run_facts by blast
  show ?thesis using r tiles_well_formed [OF r] by blast
qed

text \<open>
  C32. The score is bounded by the board: in every reachable state the score is at
  most the board's potential, the score its tiles would have earned if built by
  merges alone (spawned 4s and \<open>newGame\<close>'s reset are why it can be less).
\<close>

theorem score_bounded_by_board:
  "reachable pf s \<Longrightarrow> score s \<le> grid_potential (grid s)"
  by (drule reachable_score_ok) (simp add: score_ok_def)

theorem score_bounded_by_board_witness:
  "reachable cloudfone_device over_run \<and> score over_run \<le> grid_potential (grid over_run)"
proof -
  have r: "reachable cloudfone_device over_run" using over_run_facts by blast
  show ?thesis using r score_bounded_by_board [OF r] by blast
qed

end
