(* ===== verification/Render.thy ===== *)
theory Render
  imports Store
begin

text \<open>
  The tile element of \<open>createTile\<close> (lines 144--163 of \<open>src/script.js\<close>). \<open>Game\<close> keeps
  the children of \<open>#tile-container\<close> as \<open>(x, y, value)\<close> triples; this theory builds the
  element itself: its \<open>className\<close> from the template string of line 146, the
  \<open>tile-new\<close> class added by \<open>classList.add\<close> (line 148) for a spawned tile and
  removed by \<open>classList.remove\<close> in the 200 ms timer (lines 157--161), its
  \<open>textContent\<close> and its \<open>data-value\<close>, \<open>data-x\<close>, \<open>data-y\<close> attributes (lines 150--153),
  which the DOM stores as the strings \<open>toString\<close> gives. \<open>classList\<close> follows the DOM
  standard: the class attribute is split on ASCII white space into an ordered set of
  tokens, and \<open>add\<close>/\<open>remove\<close> write the set back joined by single spaces.
\<close>

section \<open>Definitions\<close>

subsection \<open>The DOM's class token list\<close>

definition is_ascii_ws :: "char \<Rightarrow> bool" where
  "is_ascii_ws c \<longleftrightarrow> of_char c \<in> {9, 10, 12, 13, 32 :: nat}"

text \<open>Split on ASCII white space; \<open>cur\<close> holds the current token, reversed.\<close>

fun split_tokens :: "string \<Rightarrow> string \<Rightarrow> string list" where
  "split_tokens cur [] = (if cur = [] then [] else [rev cur])"
| "split_tokens cur (c # cs) =
     (if is_ascii_ws c then (if cur = [] then split_tokens [] cs else rev cur # split_tokens [] cs)
      else split_tokens (c # cur) cs)"

definition class_tokens :: "string \<Rightarrow> string list" where
  "class_tokens s = split_tokens [] s"

text \<open>The ordered-set parser keeps the first occurrence of each token.\<close>

definition ordered_set :: "string list \<Rightarrow> string list" where
  "ordered_set ts = rev (remdups (rev ts))"

fun serialize_tokens :: "string list \<Rightarrow> string" where
  "serialize_tokens [] = []"
| "serialize_tokens [t] = t"
| "serialize_tokens (t # ts) = t @ '' '' @ serialize_tokens ts"

text \<open>\<open>classList.add(c)\<close> (line 148) and \<open>classList.remove(c)\<close> (line 160).\<close>

definition class_list_add :: "string \<Rightarrow> string \<Rightarrow> string" where
  "class_list_add c s =
     (let ts = ordered_set (class_tokens s)
      in serialize_tokens (if c \<in> set ts then ts else ts @ [c]))"

definition class_list_remove :: "string \<Rightarrow> string \<Rightarrow> string" where
  "class_list_remove c s = serialize_tokens (filter (\<lambda>t. t \<noteq> c) (ordered_set (class_tokens s)))"

subsection \<open>The tile element\<close>

record tile_elem =
  class_name :: string
  text_content :: string
  data_value :: string
  data_x :: string
  data_y :: string

text \<open>The template string \<open>tile tile-${value} tile-position-${x + 1}-${y + 1}\<close> (line 146).\<close>

definition tile_class_name :: "nat \<Rightarrow> nat \<Rightarrow> cell \<Rightarrow> string" where
  "tile_class_name x y v =
     ''tile tile-'' @ nat_to_string v @ '' tile-position-'' @ nat_to_string (x + 1) @ ''-'' @
     nat_to_string (y + 1)"

text \<open>\<open>createTile(x, y, value, isNew)\<close> (lines 144--153): the element it appends.\<close>

definition create_tile_elem :: "nat \<Rightarrow> nat \<Rightarrow> cell \<Rightarrow> bool \<Rightarrow> tile_elem" where
  "create_tile_elem x y v is_new =
     (let cls = tile_class_name x y v
      in \<lparr>class_name = (if is_new then class_list_add ''tile-new'' cls else cls),
          text_content = nat_to_string v, data_value = nat_to_string v,
          data_x = nat_to_string x, data_y = nat_to_string y\<rparr>)"

text \<open>The callback of the 200 ms timer of a new tile (lines 157--161).\<close>

definition tile_anim_end :: "tile_elem \<Rightarrow> tile_elem" where
  "tile_anim_end e = e\<lparr>class_name := class_list_remove ''tile-new'' (class_name e)\<rparr>"

section \<open>Lemmas\<close>

lemma split_tokens_word:
  "list_all (\<lambda>c. \<not> is_ascii_ws c) w \<Longrightarrow> split_tokens cur (w @ rest) = split_tokens (rev w @ cur) rest"
  by (induction w arbitrary: cur) auto

lemma space_ws: "is_ascii_ws (CHR '' '')"
  by (simp add: is_ascii_ws_def)

lemma class_tokens_serialize:
  "list_all (\<lambda>t. t \<noteq> [] \<and> list_all (\<lambda>c. \<not> is_ascii_ws c) t) ts \<Longrightarrow> class_tokens (serialize_tokens ts) = ts"
proof (induction ts rule: serialize_tokens.induct)
  case 1
  then show ?case by (simp add: class_tokens_def)
next
  case (2 t)
  then show ?case using split_tokens_word [of t "[]" "[]"] by (simp add: class_tokens_def)
next
  case (3 t u us)
  have "split_tokens [] (t @ CHR '' '' # serialize_tokens (u # us)) =
          t # split_tokens [] (serialize_tokens (u # us))"
    using 3 split_tokens_word [of t "[]"] space_ws by simp
  then show ?case using 3 by (simp add: class_tokens_def)
qed

lemma ordered_set_distinct: "distinct ts \<Longrightarrow> ordered_set ts = ts"
  by (simp add: ordered_set_def distinct_remdups_id)

lemma digit_not_ws: "is_dec_digit c \<Longrightarrow> \<not> is_ascii_ws c"
  by (auto simp: is_dec_digit_def is_ascii_ws_def)

lemma nat_to_string_token:
  "nat_to_string n \<noteq> [] \<and> list_all (\<lambda>c. \<not> is_ascii_ws c) (nat_to_string n)"
proof -
  have "\<forall>c\<in>set (nat_to_string n). \<not> is_ascii_ws c"
    using nat_to_string_digits digit_not_ws by blast
  then show ?thesis using nat_to_string_nonempty [of n] by (simp add: list_all_iff)
qed

lemma digit_char_letters: "d < 10 \<Longrightarrow> digit_char d \<noteq> CHR ''p'' \<and> digit_char d \<noteq> CHR ''n''"
  using of_char_digit [of d] by (auto dest: arg_cong [where f = "of_char :: char \<Rightarrow> nat"])

lemma letters_not_ws:
  "\<not> is_ascii_ws CHR ''t''" "\<not> is_ascii_ws CHR ''i''" "\<not> is_ascii_ws CHR ''l''"
  "\<not> is_ascii_ws CHR ''e''" "\<not> is_ascii_ws CHR ''-''" "\<not> is_ascii_ws CHR ''p''"
  "\<not> is_ascii_ws CHR ''o''" "\<not> is_ascii_ws CHR ''s''" "\<not> is_ascii_ws CHR ''n''"
  "\<not> is_ascii_ws CHR ''w''"
  by (simp_all add: is_ascii_ws_def)

lemma tile_class_serialize:
  "tile_class_name x y v =
     serialize_tokens [''tile'', ''tile-'' @ nat_to_string v,
                       ''tile-position-'' @ nat_to_string (x + 1) @ ''-'' @ nat_to_string (y + 1)]"
  by (simp add: tile_class_name_def)

lemma tile_tokens_ok:
  "list_all (\<lambda>t. t \<noteq> [] \<and> list_all (\<lambda>c. \<not> is_ascii_ws c) t)
     [''tile'', ''tile-'' @ nat_to_string v,
      ''tile-position-'' @ nat_to_string (x + 1) @ ''-'' @ nat_to_string (y + 1), ''tile-new'']"
  by (simp add: nat_to_string_token letters_not_ws)

lemma tile_tokens_distinct:
  "distinct [''tile'', ''tile-'' @ nat_to_string v,
             ''tile-position-'' @ nat_to_string (x + 1) @ ''-'' @ nat_to_string (y + 1), ''tile-new'']"
proof -
  obtain d cs where d: "d < 10" and e: "nat_to_string v = digit_char d # cs"
    using nat_to_string_hd by blast
  show ?thesis using digit_char_letters [OF d] by (simp add: e)
qed

lemma tile_class_tokens:
  "class_tokens (tile_class_name x y v) =
     [''tile'', ''tile-'' @ nat_to_string v,
      ''tile-position-'' @ nat_to_string (x + 1) @ ''-'' @ nat_to_string (y + 1)]"
  unfolding tile_class_serialize
  by (rule class_tokens_serialize) (simp add: nat_to_string_token letters_not_ws)

lemma tile_class_add_new:
  "class_list_add ''tile-new'' (tile_class_name x y v) =
     serialize_tokens [''tile'', ''tile-'' @ nat_to_string v,
       ''tile-position-'' @ nat_to_string (x + 1) @ ''-'' @ nat_to_string (y + 1), ''tile-new'']"
proof -
  have "distinct [''tile'', ''tile-'' @ nat_to_string v,
                  ''tile-position-'' @ nat_to_string (x + 1) @ ''-'' @ nat_to_string (y + 1)]"
    and "''tile-new'' \<notin> set [''tile'', ''tile-'' @ nat_to_string v,
                  ''tile-position-'' @ nat_to_string (x + 1) @ ''-'' @ nat_to_string (y + 1)]"
    using tile_tokens_distinct [of v x y] by auto
  then show ?thesis by (simp only: class_list_add_def tile_class_tokens ordered_set_distinct Let_def if_False
                                append_Cons append_Nil)
qed

lemma create_tile_tokens:
  "class_tokens (class_name (create_tile_elem x y v b)) =
     [''tile'', ''tile-'' @ nat_to_string v,
      ''tile-position-'' @ nat_to_string (x + 1) @ ''-'' @ nat_to_string (y + 1)] @
     (if b then [''tile-new''] else [])"
proof (cases b)
  case True
  have e: "class_name (create_tile_elem x y v b) =
             serialize_tokens [''tile'', ''tile-'' @ nat_to_string v,
               ''tile-position-'' @ nat_to_string (x + 1) @ ''-'' @ nat_to_string (y + 1), ''tile-new'']"
    using True by (simp add: create_tile_elem_def tile_class_add_new)
  show ?thesis unfolding e class_tokens_serialize [OF tile_tokens_ok] using True by simp
next
  case False
  then show ?thesis by (simp add: create_tile_elem_def tile_class_tokens)
qed

section \<open>Properties of the tile element\<close>

text \<open>
  C33. The spawn animation leaves a plain tile: when the 200 ms timer removes
  \<open>tile-new\<close> from a new tile, its class attribute is exactly the one \<open>createTile\<close> gives
  a tile drawn by \<open>updateDisplay\<close>, the tile, value and position classes in order.
\<close>

theorem tile_anim_end_plain:
  "class_name (tile_anim_end (create_tile_elem x y v True)) = class_name (create_tile_elem x y v False)"
proof -
  have d: "distinct [''tile'', ''tile-'' @ nat_to_string v,
             ''tile-position-'' @ nat_to_string (x + 1) @ ''-'' @ nat_to_string (y + 1), ''tile-new'']"
    by (rule tile_tokens_distinct)
  have "class_list_remove ''tile-new'' (class_list_add ''tile-new'' (tile_class_name x y v)) =
          serialize_tokens [''tile'', ''tile-'' @ nat_to_string v,
            ''tile-position-'' @ nat_to_string (x + 1) @ ''-'' @ nat_to_string (y + 1)]"
    unfolding class_list_remove_def tile_class_add_new class_tokens_serialize [OF tile_tokens_ok]
      ordered_set_distinct [OF d]
    using d by simp
  then show ?thesis by (simp add: tile_anim_end_def create_tile_elem_def tile_class_serialize)
qed

end
