(* ===== verification/Platform.thy ===== *)
theory Platform
  imports Game Render "HOL-Library.Sublist"
begin

text \<open>
  The page around the game: what the script of \<open>src/script.js\<close> does outside the class
  \<open>Game2048\<close>. When the script runs, the service-worker block (lines 452--460) adds a
  \<open>load\<close> listener to the window; on \<open>DOMContentLoaded\<close> (lines 446--450)
  \<open>optimizeForCloudFone\<close> (lines 399--443) adds the body classes and the document and
  window listeners, and \<open>new Game2048()\<close> registers the game's own keydown listener and
  becomes \<open>window.game\<close>. A page event is dispatched to the listeners registered for it,
  in registration order; an event on the tile container or a soft key reaches the
  game's element listeners. \<open>page_step\<close> returns whether \<open>preventDefault()\<close> was
  called, and the page after the event. \<open>showHelp\<close> (lines 382--391) is an operation of
  the page that no listener calls.
\<close>

section \<open>Definitions\<close>

subsection \<open>The page state\<close>

text \<open>\<open>s.includes(t)\<close>: \<open>t\<close> occurs in \<open>s\<close> as a contiguous substring (line 402).\<close>

definition js_includes :: "string \<Rightarrow> string \<Rightarrow> bool" where
  "js_includes s t \<longleftrightarrow> sublist t s"

text \<open>
  The platform the game runs on: \<open>isCloudFone\<close> from the user agent (line 402), and
  whether \<open>window.close\<close> exists (line 362).
\<close>

definition platform_of :: "string \<Rightarrow> bool \<Rightarrow> platform" where
  "platform_of ua wc = \<lparr>cloudfone = js_includes ua ''Cloud Phone'', has_window_close = wc\<rparr>"

text \<open>
  The listeners added to \<open>document\<close> (lines 42, 409, 418, 430) and to \<open>window\<close>
  (lines 438, 453).
\<close>

datatype doc_listener = Context_Menu_Listener | Back_Key_Listener | Double_Tap_Listener
  | Game_Key_Listener

datatype win_listener = Before_Unload_Listener | SW_Load_Listener

text \<open>
  The page: the class attribute of \<open>document.body\<close> as far as the script sets it outside
  the game, the listeners in registration order, the closure variable \<open>lastTouchEnd\<close>
  (line 428), \<open>window.game\<close>, the alerts shown, the console, the service-worker
  registrations (pending promises and registered scripts), and the number of times the
  browser asked whether to leave the page.
\<close>

record page =
  body_class :: string
  doc_listeners :: "doc_listener list"
  win_listeners :: "win_listener list"
  last_touch_end :: int
  window_game :: "game option"
  alerts :: "string list"
  console_log :: "string list"
  sw_pending :: nat
  sw_scripts :: "string list"
  unload_prompts :: nat

definition blank_page :: page where
  "blank_page =
     \<lparr>body_class = [], doc_listeners = [], win_listeners = [], last_touch_end = 0,
      window_game = None, alerts = [], console_log = [], sw_pending = 0, sw_scripts = [],
      unload_prompts = 0\<rparr>"

subsection \<open>Start-up\<close>

text \<open>The service-worker block run when the script loads (lines 452--453).\<close>

definition sw_script :: "bool \<Rightarrow> page \<Rightarrow> page" where
  "sw_script has_sw p = (if has_sw then p\<lparr>win_listeners := win_listeners p @ [SW_Load_Listener]\<rparr> else p)"

text \<open>\<open>optimizeForCloudFone()\<close> (lines 399--443) for user agent \<open>ua\<close> and \<open>window.innerWidth\<close>.\<close>

definition optimize_for_cloudfone :: "string \<Rightarrow> nat \<Rightarrow> page \<Rightarrow> page" where
  "optimize_for_cloudfone ua width p =
     (let p1 = (if js_includes ua ''Cloud Phone'' then
                  (let q = p\<lparr>body_class := class_list_add ''cloudfone-device'' (body_class p),
                              doc_listeners := doc_listeners p @ [Context_Menu_Listener]\<rparr>;
                       q' = (if width \<le> 160
                             then q\<lparr>body_class := class_list_add ''small-screen'' (body_class q)\<rparr>
                             else q)
                   in q'\<lparr>doc_listeners := doc_listeners q' @ [Back_Key_Listener]\<rparr>)
                else p)
      in p1\<lparr>last_touch_end := 0, doc_listeners := doc_listeners p1 @ [Double_Tap_Listener],
             win_listeners := win_listeners p1 @ [Before_Unload_Listener]\<rparr>)"

text \<open>
  The \<open>DOMContentLoaded\<close> listener (lines 446--450): \<open>optimizeForCloudFone()\<close>, then the
  constructor, which registers the game's keydown listener on \<open>document\<close> (line 42), and
  the assignment to \<open>window.game\<close>.
\<close>

definition dom_content_loaded ::
  "string \<Rightarrow> nat \<Rightarrow> (nat \<Rightarrow> real) \<Rightarrow> (nat \<Rightarrow> bool) \<Rightarrow> string option \<Rightarrow> page \<Rightarrow> page" where
  "dom_content_loaded ua width rs cs stored p =
     (let p1 = optimize_for_cloudfone ua width p
      in p1\<lparr>doc_listeners := doc_listeners p1 @ [Game_Key_Listener],
             window_game := Some (game_new rs cs stored)\<rparr>)"

text \<open>The whole start-up: the script, then \<open>DOMContentLoaded\<close>.\<close>

definition page_start ::
  "string \<Rightarrow> nat \<Rightarrow> bool \<Rightarrow> (nat \<Rightarrow> real) \<Rightarrow> (nat \<Rightarrow> bool) \<Rightarrow> string option \<Rightarrow> page" where
  "page_start ua width has_sw rs cs stored =
     dom_content_loaded ua width rs cs stored (sw_script has_sw blank_page)"

subsection \<open>Listeners\<close>

text \<open>
  One keydown listener on \<open>(prevented, window.game)\<close>: the CloudFone back-key listener
  (lines 418--425, with its \<open>if (window.game)\<close>) and the game's listener (lines 42--78),
  whose every case calls \<open>e.preventDefault()\<close>.
\<close>

fun key_listener ::
  "platform \<Rightarrow> string \<Rightarrow> nat \<Rightarrow> doc_listener \<Rightarrow> bool \<times> game option \<Rightarrow> bool \<times> game option" where
  "key_listener pf k code Back_Key_Listener (prev, g) =
     (if cloudfone_key k code then (True, map_option (exit_game pf) g) else (prev, g))"
| "key_listener pf k code Game_Key_Listener (prev, g) =
     (case game_key k of Some a \<Rightarrow> (True, map_option (do_action pf a) g) | None \<Rightarrow> (prev, g))"
| "key_listener pf k code Context_Menu_Listener st = st"
| "key_listener pf k code Double_Tap_Listener st = st"

text \<open>A keydown on the page: every keydown listener of \<open>document\<close>, in order.\<close>

definition page_keydown :: "platform \<Rightarrow> string \<Rightarrow> nat \<Rightarrow> page \<Rightarrow> bool \<times> page" where
  "page_keydown pf k code p =
     (let (prev, g') = fold (key_listener pf k code) (doc_listeners p) (False, window_game p)
      in (prev, p\<lparr>window_game := g'\<rparr>))"

text \<open>An event handled by a listener of the game's elements (lines 81--121) or its timer.\<close>

definition page_game_event :: "platform \<Rightarrow> event \<Rightarrow> page \<Rightarrow> page" where
  "page_game_event pf e p =
     p\<lparr>window_game := map_option (game_step pf e) (window_game p)\<rparr>"

text \<open>The double-tap listener of \<open>document\<close> (lines 429--435) at time \<open>now\<close> (ms).\<close>

definition double_tap_touchend :: "int \<Rightarrow> page \<Rightarrow> bool \<times> page" where
  "double_tap_touchend now p =
     (if Double_Tap_Listener \<in> set (doc_listeners p)
      then (now - last_touch_end p \<le> 300, p\<lparr>last_touch_end := now\<rparr>) else (False, p))"

text \<open>\<open>showHelp()\<close> (lines 382--391); \<open>\<bullet>\<close> is written as its UTF-8 bytes.\<close>

definition help_bullet :: string where
  "help_bullet = [CHR 0xE2, CHR 0x80, CHR 0xA2]"

definition help_text :: string where
  "help_text =
     ''2048 Game Help:'' @ [CHR 0x0A, CHR 0x0A] @
     ''Goal: Combine tiles to reach 2048!'' @ [CHR 0x0A, CHR 0x0A] @
     ''Controls:'' @ [CHR 0x0A] @
     help_bullet @ '' Arrow keys to move tiles'' @ [CHR 0x0A] @
     help_bullet @ '' Left menu key: New Game'' @ [CHR 0x0A] @
     help_bullet @ '' Right menu key: Exit'' @ [CHR 0x0A] @
     help_bullet @ '' Escape key: Exit Game'' @ [CHR 0x0A, CHR 0x0A] @
     ''When two tiles with the same number touch, they merge into one!''"

definition show_help :: "page \<Rightarrow> page" where
  "show_help p = p\<lparr>alerts := alerts p @ [help_text]\<rparr>"

subsection \<open>Page events\<close>

text \<open>
  The events of the page: a keydown on the document, taps on the soft keys and the retry
  button, touches on the tile container (a \<open>touchend\<close> there bubbles to the document's
  double-tap listener) or elsewhere, a spawn timer, the context menu, the user leaving
  the page, the window's \<open>load\<close>, and the settling of the service-worker registration
  (\<open>None\<close> for success, \<open>Some err\<close> for a rejection with \<open>err\<close>).
\<close>

datatype page_event =
    Page_Key_Down string nat
  | Soft_Left_Tap
  | Soft_Right_Tap
  | Retry_Tap
  | Tile_Touch_Start real real
  | Tile_Touch_End real real int
  | Page_Touch_End int
  | Spawn_Timer_Fires
  | Context_Menu
  | Leave_Page
  | Window_Load
  | SW_Settled "string option"

fun page_step :: "platform \<Rightarrow> page_event \<Rightarrow> page \<Rightarrow> bool \<times> page" where
  "page_step pf (Page_Key_Down k code) p = page_keydown pf k code p"
| "page_step pf Soft_Left_Tap p = (False, page_game_event pf Soft_Left_Click p)"
| "page_step pf Soft_Right_Tap p = (False, page_game_event pf Soft_Right_Click p)"
| "page_step pf Retry_Tap p = (window_game p \<noteq> None, page_game_event pf Retry_Click p)"
| "page_step pf (Tile_Touch_Start x y) p = (False, page_game_event pf (Touch_Start x y) p)"
| "page_step pf (Tile_Touch_End x y now) p = double_tap_touchend now (page_game_event pf (Touch_End x y) p)"
| "page_step pf (Page_Touch_End now) p = double_tap_touchend now p"
| "page_step pf Spawn_Timer_Fires p = (False, page_game_event pf Spawn_Timer p)"
| "page_step pf Context_Menu p = (Context_Menu_Listener \<in> set (doc_listeners p), p)"
| "page_step pf Leave_Page p =
     (if Before_Unload_Listener \<in> set (win_listeners p)
      then (True, p\<lparr>unload_prompts := Suc (unload_prompts p)\<rparr>) else (False, p))"
| "page_step pf Window_Load p =
     (if SW_Load_Listener \<in> set (win_listeners p)
      then (False, p\<lparr>sw_pending := Suc (sw_pending p), sw_scripts := sw_scripts p @ [''sw.js'']\<rparr>)
      else (False, p))"
| "page_step pf (SW_Settled r) p =
     (if sw_pending p = 0 then (False, p)
      else (False, p\<lparr>sw_pending := sw_pending p - 1,
                      console_log := console_log p @
                        [case r of None \<Rightarrow> ''ServiceWorker registration successful''
                         | Some err \<Rightarrow> ''ServiceWorker registration failed: '' @ '' '' @ err]\<rparr>))"

text \<open>A run of the page: start-up, then the events in order.\<close>

definition page_run ::
  "string \<Rightarrow> nat \<Rightarrow> bool \<Rightarrow> bool \<Rightarrow> (nat \<Rightarrow> real) \<Rightarrow> (nat \<Rightarrow> bool) \<Rightarrow> string option \<Rightarrow>
   page_event list \<Rightarrow> page" where
  "page_run ua width wc has_sw rs cs stored es =
     fold (\<lambda>e p. snd (page_step (platform_of ua wc) e p)) es (page_start ua width has_sw rs cs stored)"

text \<open>The game event a page event delivers to \<open>window.game\<close>, if any.\<close>

fun game_event :: "page_event \<Rightarrow> event option" where
  "game_event (Page_Key_Down k code) = Some (Key_Down k code)"
| "game_event Soft_Left_Tap = Some Soft_Left_Click"
| "game_event Soft_Right_Tap = Some Soft_Right_Click"
| "game_event Retry_Tap = Some Retry_Click"
| "game_event (Tile_Touch_Start x y) = Some (Touch_Start x y)"
| "game_event (Tile_Touch_End x y now) = Some (Touch_End x y)"
| "game_event Spawn_Timer_Fires = Some Spawn_Timer"
| "game_event _ = None"

text \<open>The document listeners after start-up, for user agent \<open>ua\<close>.\<close>

definition loaded_listeners :: "string \<Rightarrow> doc_listener list" where
  "loaded_listeners ua =
     (if js_includes ua ''Cloud Phone'' then [Context_Menu_Listener, Back_Key_Listener] else []) @
     [Double_Tap_Listener, Game_Key_Listener]"

section \<open>Lemmas\<close>

lemma page_start_fields:
  "doc_listeners (page_start ua w hs rs cs st) = loaded_listeners ua"
  "win_listeners (page_start ua w hs rs cs st) = (if hs then [SW_Load_Listener] else []) @ [Before_Unload_Listener]"
  "window_game (page_start ua w hs rs cs st) = Some (game_new rs cs st)"
  "alerts (page_start ua w hs rs cs st) = []"
  by (simp_all add: page_start_def dom_content_loaded_def optimize_for_cloudfone_def sw_script_def
                    blank_page_def loaded_listeners_def Let_def)

lemma page_step_fixed:
  "doc_listeners (snd (page_step pf e p)) = doc_listeners p \<and>
   win_listeners (snd (page_step pf e p)) = win_listeners p \<and> alerts (snd (page_step pf e p)) = alerts p"
  by (cases e) (simp_all add: page_keydown_def page_game_event_def double_tap_touchend_def
                              Let_def split: prod.splits)

lemma page_step_game_other:
  "game_event e = None \<Longrightarrow> window_game (snd (page_step pf e p)) = window_game p"
  by (cases e) (simp_all add: double_tap_touchend_def)

lemma key_listeners_game:
  "snd (fold (key_listener (platform_of ua wc) k code) (loaded_listeners ua) (b, Some g)) =
     Some (game_step (platform_of ua wc) (Key_Down k code) g)"
  by (cases "js_includes ua ''Cloud Phone''"; cases "cloudfone_key k code"; cases "game_key k")
     (simp_all add: loaded_listeners_def keydown_actions_def platform_of_def)

lemma page_step_game:
  assumes "doc_listeners p = loaded_listeners ua" and "window_game p = Some g"
  shows "window_game (snd (page_step (platform_of ua wc) e p)) =
           Some (case game_event e of None \<Rightarrow> g | Some ge \<Rightarrow> game_step (platform_of ua wc) ge g)"
proof (cases "game_event e")
  case None
  then show ?thesis using assms(2) page_step_game_other [OF None] by simp
next
  case (Some ge)
  show ?thesis
  proof (cases "\<exists>k code. e = Page_Key_Down k code")
    case True
    then obtain k code where e: "e = Page_Key_Down k code" by blast
    have "snd (fold (key_listener (platform_of ua wc) k code) (doc_listeners p) (False, window_game p)) =
            Some (game_step (platform_of ua wc) (Key_Down k code) g)"
      using assms key_listeners_game by simp
    moreover have "ge = Key_Down k code" using Some e by simp
    ultimately show ?thesis using Some e
      by (simp add: page_keydown_def Let_def case_prod_beta)
  next
    case False
    then show ?thesis using Some assms(2)
      by (cases e) (simp_all add: page_game_event_def double_tap_touchend_def Let_def)
  qed
qed

lemma page_steps_fixed:
  "doc_listeners (fold (\<lambda>e p. snd (page_step pf e p)) es p) = doc_listeners p \<and>
   win_listeners (fold (\<lambda>e p. snd (page_step pf e p)) es p) = win_listeners p \<and>
   alerts (fold (\<lambda>e p. snd (page_step pf e p)) es p) = alerts p"
  by (induction es arbitrary: p) (simp_all add: page_step_fixed)

lemma page_steps_game:
  "doc_listeners p = loaded_listeners ua \<Longrightarrow> window_game p = Some g \<Longrightarrow>
   window_game (fold (\<lambda>e p. snd (page_step (platform_of ua wc) e p)) es p) =
     Some (fold (game_step (platform_of ua wc)) (List.map_filter game_event es) g)"
proof (induction es arbitrary: p g)
  case Nil
  then show ?case by simp
next
  case (Cons e es)
  let ?p' = "snd (page_step (platform_of ua wc) e p)"
  have "doc_listeners ?p' = loaded_listeners ua" using Cons.prems(1) page_step_fixed by simp
  moreover have "window_game ?p' =
      Some (case game_event e of None \<Rightarrow> g | Some ge \<Rightarrow> game_step (platform_of ua wc) ge g)"
    using Cons.prems by (rule page_step_game)
  ultimately show ?case
    using Cons.IH by (simp add: map_filter_simps split: option.splits)
qed

lemma page_run_game:
  "window_game (page_run ua w wc hs rs cs st es) =
     Some (fold (game_step (platform_of ua wc)) (List.map_filter game_event es) (game_new rs cs st))"
  unfolding page_run_def using page_start_fields(1,3) by (rule page_steps_game)

section \<open>Properties of the page\<close>

text \<open>
  C34. The page refines the game: after start-up and any sequence of page events,
  \<open>window.game\<close> is the game that the game-level events of the sequence produce from the
  constructor, and that game is a reachable game. Keydowns pass through every document
  listener in registration order (the CloudFone back-key listener before the game's),
  touches on the tile container
  reach the game before the document's double-tap listener, whose \<open>preventDefault()\<close>
  does not stop the swipe, and the other page events leave the game alone. So every
  property of reachable games holds of the game on the page.
\<close>

theorem page_refines_game:
  assumes "\<forall>k. rand_ok (rs k)"
  shows "window_game (page_run ua w wc hs rs cs st es) =
           Some (fold (game_step (platform_of ua wc)) (List.map_filter game_event es) (game_new rs cs st)) \<and>
         reachable (platform_of ua wc)
           (fold (game_step (platform_of ua wc)) (List.map_filter game_event es) (game_new rs cs st))"
  using page_run_game assms by (auto intro: reachable_fold reachable.start)

theorem page_refines_game_witness:
  "(\<forall>k. rand_ok ((\<lambda>_. 1/2) k)) \<and>
   window_game (page_run ''Cloud Phone'' 120 True True (\<lambda>_. 1/2) (\<lambda>_. True) None
                  [Page_Key_Down ''ArrowLeft'' 37, Window_Load, Spawn_Timer_Fires]) =
     Some (fold (game_step (platform_of ''Cloud Phone'' True)) [Key_Down ''ArrowLeft'' 37, Spawn_Timer] fresh_game) \<and>
   reachable (platform_of ''Cloud Phone'' True)
     (fold (game_step (platform_of ''Cloud Phone'' True)) [Key_Down ''ArrowLeft'' 37, Spawn_Timer] fresh_game)"
proof -
  have r: "\<forall>k. rand_ok ((\<lambda>_. 1/2 :: real) k)" by (simp add: rand_ok_def)
  have m: "List.map_filter game_event [Page_Key_Down ''ArrowLeft'' 37, Window_Load, Spawn_Timer_Fires] =
             [Key_Down ''ArrowLeft'' 37, Spawn_Timer]"
    by (simp add: map_filter_simps)
  show ?thesis
    using r page_refines_game [OF r, of "''Cloud Phone''" 120 True True "\<lambda>_. True" None
                                    "[Page_Key_Down ''ArrowLeft'' 37, Window_Load, Spawn_Timer_Fires]"]
    unfolding m by blast
qed

text \<open>
  C35. \<open>showHelp\<close> is dead code: no page event ever shows its alert, since no listener
  calls it (F1, the key a help screen would use, starts a new game).
\<close>

theorem help_never_shown: "alerts (page_run ua w wc hs rs cs st es) = []"
  using page_steps_fixed page_start_fields(4) by (simp add: page_run_def)

end
