(* ===== verification/Spec2Isabelle.thy ===== *)
theory Spec2Isabelle
  imports Platform
begin

text \<open>
  \<^bold>\<open>A verified model of the 2048 game of \<open>src/script.js\<close>.\<close>

  \<^bold>\<open>The program.\<close> \<open>src/script.js\<close> is one class, \<open>Game2048\<close>, driven by browser events. Its
  state is \<open>this.grid\<close> (a \<open>this.size\<close> by \<open>this.size\<close> array of numbers, 0 for an empty
  cell), \<open>this.score\<close>, the best score in \<open>localStorage\<close> and the DOM (score and best
  displays, a message box). Key presses (\<open>setupEventListeners\<close>, plus the CloudFone
  back-key listener of \<open>optimizeForCloudFone\<close>), soft-key and retry clicks and swipes
  call \<open>move\<close>, \<open>newGame\<close> or \<open>exitGame\<close>. \<open>move\<close> computes a new grid on a copy, adds merge
  points to \<open>this.score\<close>, and when the grid changed replaces it, calls \<open>updateDisplay\<close>
  and sets a 150 ms timer that calls \<open>addRandomTile\<close> and \<open>checkGameStatus\<close>.
  \<open>init\<close>/\<open>newGame\<close> clear the grid and add two tiles. Around the class, the script
  registers a service worker on \<open>load\<close>, and on \<open>DOMContentLoaded\<close> runs
  \<open>optimizeForCloudFone\<close> (body classes, context-menu, back-key, double-tap and
  \<open>beforeunload\<close> listeners) before it creates the game as \<open>window.game\<close>.

  \<^bold>\<open>Library layout.\<close>
  \<^item> \<open>Prelude\<close>: the types \<open>cell\<close>, \<open>row\<close>, \<open>grid\<close>; JavaScript's \<open>splice(i, 1)\<close>
    (\<open>splice_del\<close>); square grids (\<open>grid_ok\<close>), columns and the square transpose; the
    executable power-of-two test and the tile invariant \<open>tile_ok\<close>.
  \<^item> \<open>Line\<close>: one row or column of \<open>move\<close>. \<open>merge_left_loop\<close> (lines 198--204) and
    \<open>merge_right_loop\<close> (lines 215--222) are the index loops with \<open>splice\<close>, written as
    tail-recursive \<open>function\<close>s with measure termination proofs (\<open>length row - j\<close> and
    \<open>j\<close>); \<open>push_zeros\<close>/\<open>unshift_zeros\<close> are the padding \<open>while\<close> loops; \<open>left_row\<close> and
    \<open>right_row\<close> are the per-line bodies. The reference \<open>merge_pairs\<close>/\<open>merge_score\<close>
    and \<open>slide\<close> state the spec's merge rule.
  \<^item> \<open>Board\<close>: the four branches of \<open>move\<close> as folds over row or column indices
    (\<open>move_left_branch\<close> \<dots> \<open>move_down_branch\<close>, with \<open>write_column\<close> for the column
    write-back), the \<open>switch\<close> (\<open>move_grid\<close>), the \<open>moved\<close> test (\<open>grid_changed\<close>),
    \<open>canMove\<close> (\<open>can_move\<close>) and \<open>checkGameStatus\<close> (\<open>check_game_status\<close>); the reference
    \<open>spec_move\<close>/\<open>spec_gain\<close> slide every row, and every column through \<open>transpose_sq\<close>.
  \<^item> \<open>Potential\<close>: what the score measures. \<open>tile_potential\<close> is the score that
    building a tile by merges alone earns (0 for a 2, \<open>2\<phi>(a) + 2a\<close> for \<open>2a\<close>) and
    \<open>grid_potential\<close> its sum over a board; both are specification functions, not code.
  \<^item> \<open>Spawn\<close>: \<open>addRandomTile\<close> (\<open>add_random_tile\<close>, lines 124--142) with its two
    \<open>Math.random()\<close> draws as real inputs, the empty-cell scan, and \<open>init\<close>'s grid
    (\<open>init_grid\<close>).
  \<^item> \<open>Store\<close>: the \<open>best2048\<close> entry as a \<open>string option\<close>; JavaScript's \<open>parseInt\<close>
    (\<open>js_parse_int\<close>: white space, sign, \<open>0x\<close> prefix, digit prefix, \<open>NaN\<close> as \<open>None\<close>),
    \<open>toString\<close> on naturals (\<open>nat_to_string\<close>), and the best-score update of
    \<open>updateDisplay\<close> (\<open>update_best\<close>).
  \<^item> \<open>Input\<close>: the keydown switch (\<open>game_key\<close>), the CloudFone back-key test, the actions
    of one keydown in listener registration order (\<open>keydown_actions\<close>), and the touch
    listeners (\<open>touch_start\<close>, \<open>touch_end\<close>, \<open>swipe_direction\<close>).
  \<^item> \<open>Render\<close>: the element \<open>createTile\<close> builds (\<open>create_tile_elem\<close>: the \<open>className\<close>
    template, \<open>classList.add('tile-new')\<close> for a spawned tile, \<open>textContent\<close> and the
    \<open>data-*\<close> attributes) and the 200 ms callback that removes \<open>tile-new\<close>
    (\<open>tile_anim_end\<close>), with \<open>classList\<close> as the DOM standard's ordered token set
    (\<open>class_tokens\<close>, \<open>class_list_add\<close>, \<open>class_list_remove\<close>); \<open>Game\<close> keeps each
    element as its \<open>(x, y, value)\<close> triple.
  \<^item> \<open>Game\<close>: the state record \<open>game\<close> (grid, score, stored and shown best, message box,
    body classes, number of pending spawn timers, touch start, the tile elements of
    \<open>#tile-container\<close> and the score display, and the values
    \<open>Math.random()\<close> and \<open>confirm()\<close> return, as functions of the call count); each
    method as an operation on it (\<open>game_move\<close>, \<open>spawn_timer\<close>, \<open>new_game\<close>, \<open>game_init\<close>,
    \<open>check_status\<close>, \<open>update_display\<close> with its redraw \<open>render_tiles\<close>, \<open>create_tile\<close>,
    \<open>exit_game\<close>, \<open>game_new\<close> for the constructor);
    \<open>game_step\<close> dispatches one event (keydown, click, touch, or a pending timer firing,
    so every interleaving of timers with input is a sequence of events); \<open>reachable\<close>
    is the inductive set of states reached from the constructor.
  \<^item> \<open>Platform\<close>: the page around the game. The record \<open>page\<close> holds the body class
    attribute, the document and window listeners in registration order, the closure
    variable \<open>lastTouchEnd\<close>, \<open>window.game\<close>, alerts, console, service-worker state and
    the browser's prompts to leave; \<open>page_start\<close> is the script followed by
    \<open>DOMContentLoaded\<close> (\<open>sw_script\<close>, \<open>optimize_for_cloudfone\<close>,
    \<open>dom_content_loaded\<close>), \<open>page_step\<close> dispatches a page event to its listeners
    (\<open>key_listener\<close>, \<open>page_keydown\<close>, \<open>page_game_event\<close>, \<open>double_tap_touchend\<close>)
    and reports whether \<open>preventDefault()\<close> was called; \<open>show_help\<close> is \<open>showHelp\<close>.

  \<^bold>\<open>What is proved.\<close> Each merge loop equals the reference merge (C3, C4); the right-line
  code is the mirror of the left-line code (C2) and the up branch the left branch on the
  transpose (C10); \<open>move\<close> refines the reference move with the reference score (C1);
  moves conserve the board's sum (C5), keep it square (C6) and keep every tile a power
  of two (C7); a scoring move always changes the board (C8) and the \<open>moved\<close> flag is
  exactly "the reference move changed the board" (C9); the spec's worked examples hold
  (lemmas \<open>line_examples\<close>, \<open>check_game_status_examples\<close>); \<open>canMove\<close> is
  exact on boards with a tile (C11). A spawn fills exactly one empty cell with 2 or 4 (C12), picks
  cells uniformly (C13), adds one tile and its value to the sum (C14), and \<open>init\<close>
  leaves two tiles (C15). The stored best score round-trips through \<open>toString\<close> and
  \<open>parseInt\<close> (C16). By rule induction over \<open>reachable\<close> with one invariant
  (\<open>game_inv\<close>, preserved by each operation): the board stays legal and non-empty (C17),
  the best shown is the stored one and at least the score (C18), \<open>Game Over!\<close> is
  shown only on a stuck board, where moves change nothing (C19), and a stuck board is
  always reported once the pending timers fire (C20). Rejected moves are no-ops (C21);
  an accepted move followed by its timer adds exactly one tile (C22). The decoders:
  arrow keys decode to their moves (C26) and opposite swipes to opposite moves
  (lemma \<open>swipe_opposite\<close>).
  The page follows the state: the tile elements are exactly the non-empty cells and
  the score display the score (C29), and every tile element is well formed (C30). Every
  \<open>function\<close> carries its termination proof: the left merge loop by the distance of its
  index to the end of the shrinking row, the right one by its index.
  Every move raises the board's potential by exactly the points it adds to the score
  (C31), and by a second induction over \<open>reachable\<close> (\<open>score_ok\<close>, using that a spawn
  only adds potential and \<open>newGame\<close> resets the score) the score of every reachable
  state is at most its board's potential (C32). When the animation timer removes \<open>tile-new\<close> the class attribute is the
  one a redrawn tile has (C33). The page refines the game: after start-up and any page
  events, \<open>window.game\<close> is the game the game-level events produce, and it is
  reachable, so all the invariants above hold on the real page (C34).

  \<^bold>\<open>Findings.\<close> \<open>newGame\<close> keeps the previous game's pending spawn timer, so a new
  game can start with three tiles (C23); Escape on CloudFone runs \<open>exitGame\<close> twice
  (C24); a non-numeric stored best is never repaired and shows \<open>NaN\<close> (C25); a tap
  moves the tiles down (C27); a swipe starting at coordinate 0 is ignored (C28);
  \<open>showHelp\<close> is never called (C35); on the empty board \<open>canMove\<close> is true although
  no move changes anything (lemma \<open>can_move_empty_board\<close>), a case the spec leaves open.

  \<^bold>\<open>Modelling choices.\<close> Cell values and the score are \<open>nat\<close>: the code only stores 0
  and doubles tiles, far below \<open>2^53\<close> where JavaScript numbers are exact. Line and board
  lemmas hold for every size \<open>n\<close>; the game uses \<open>game_size = 4\<close> as the code does.
  Randomness and \<open>confirm()\<close> answers are injected: \<open>rand\<close> and \<open>answers\<close> map the call
  count to the value returned, so runs are deterministic and executable; \<open>reachable\<close>
  only asks that every draw lies in \<open>[0, 1)\<close>. Timers are events: \<open>pending\<close> counts the
  scheduled spawn callbacks, all identical, so a counter determines them; the 200 ms
  animation timer and the 2 s exit timer change no game state (the latter only
  leaves the page, recorded as \<open>exit_timer\<close>). The example run \<open>over_run\<close> (20 moves to a
  stuck board) is evaluated by \<open>code_simp\<close> for the witnesses. \<open>parseInt\<close> is modelled on
  8-bit strings; its results for inputs beyond \<open>2^53\<close> are not rounded.

  \<^bold>\<open>Not modelled.\<close> Page layout and the CSS that styles the classes; the game
  state records the tile elements as triples, and \<open>Render\<close> relates them to the
  elements. The body class attribute of \<open>Platform\<close> holds the classes
  \<open>optimizeForCloudFone\<close> adds; the game's \<open>game-won\<close>/\<open>game-over\<close> classes stay
  in \<open>Game\<close>'s \<open>body_classes\<close>. What the browser does once the user answers a prompt
  to leave, and what \<open>exitApp\<close>, \<open>history.back()\<close> and the \<open>about:blank\<close>
  navigation do, is outside the program: the game records that \<open>window.close()\<close> was
  called (\<open>close_calls\<close>), and whether the browser honours it, and what it then asks
  the user, is not modelled. The page's \<open>beforeunload\<close> listener runs when the user
  leaves the page (\<open>Leave_Page\<close>). The service worker script \<open>sw.js\<close> is not part
  of the sources; only its registration is modelled. \<open>showHelp\<close>'s bullet is written
  as its UTF-8 bytes, since HOL strings are 8-bit.
\<close>

end
